theory Spec2Isabelle
  imports Complex_Main
begin

section \<open>Work partitions of the parallel implementation\<close>

text \<open>
  Lines 196--199 of \<^verbatim>\<open>reproject.py\<close>, inside \<^verbatim>\<open>parallel_impl\<close>:
  \<^verbatim>\<open>
  for i in range(nproc):
      start = int(nx_in) // nproc * i
      end = int(nx_in) if i == nproc - 1 else int(nx_in) // nproc * (i + 1)
  \<close>
  Python integers are unbounded and \<^verbatim>\<open>//\<close> is floor division, as \<open>div\<close> on \<open>int\<close>.
\<close>

definition part_start :: "int \<Rightarrow> int \<Rightarrow> int \<Rightarrow> int" where
  "part_start nx_in nproc i = nx_in div nproc * i"

definition part_end :: "int \<Rightarrow> int \<Rightarrow> int \<Rightarrow> int" where
  "part_end nx_in nproc i = (if i = nproc - 1 then nx_in else nx_in div nproc * (i + 1))"

definition partitions :: "int \<Rightarrow> int \<Rightarrow> (int \<times> int) list" where
  "partitions nx_in nproc = map (\<lambda>i. (part_start nx_in nproc i, part_end nx_in nproc i)) [0..nproc - 1]"

section \<open>Numbers and arrays\<close>

text \<open>
  The arrays of the program hold IEEE doubles. For the sample values and the sums the
  model computes with exact reals and keeps the one non-arithmetical fact that the claims
  talk about: a value can be non-finite. \<open>Fin r\<close> is the finite value \<open>r\<close>; \<open>NonFin\<close>
  stands for any of NaN, \<open>+inf\<close>, \<open>-inf\<close>. Rounding and overflow of these values are not
  modelled (they are modelled for the pixel coordinates, where the code converts doubles
  to integers; see the section on coordinates below). Numpy does not raise on a division
  by zero: it yields NaN or an infinity, here \<open>NonFin\<close>. An operation with a non-finite
  operand yields \<open>NonFin\<close>; the only IEEE operation for which this is not so, a finite
  value divided by an infinity, never happens in the program (the divisor of the first
  division is an output of the overlap primitive, and lemma \<open>accumulate_nonfin\<close> below
  shows that the flux sum is non-finite wherever the weight sum is).
\<close>

datatype fnum = Fin real | NonFin

instantiation fnum :: comm_monoid_add
begin

definition zero_fnum :: fnum where
  "zero_fnum = Fin 0"

definition plus_fnum :: "fnum \<Rightarrow> fnum \<Rightarrow> fnum" where
  "plus_fnum a b = (case a of Fin x \<Rightarrow> (case b of Fin y \<Rightarrow> Fin (x + y) | NonFin \<Rightarrow> NonFin)
                            | NonFin \<Rightarrow> NonFin)"

instance
proof
  fix a b c :: fnum
  show "a + b + c = a + (b + c)"
    by (cases a; cases b; cases c) (simp_all add: plus_fnum_def)
  show "a + b = b + a"
    by (cases a; cases b) (simp_all add: plus_fnum_def)
  show "0 + a = a"
    by (cases a) (simp_all add: plus_fnum_def zero_fnum_def)
qed

end

definition fmul :: "fnum \<Rightarrow> fnum \<Rightarrow> fnum" where
  "fmul a b = (case a of Fin x \<Rightarrow> (case b of Fin y \<Rightarrow> Fin (x * y) | NonFin \<Rightarrow> NonFin)
                       | NonFin \<Rightarrow> NonFin)"

definition fdiv :: "fnum \<Rightarrow> fnum \<Rightarrow> fnum" where
  "fdiv a b = (case a of Fin x \<Rightarrow> (case b of Fin y \<Rightarrow> if y = 0 then NonFin else Fin (x / y)
                                          | NonFin \<Rightarrow> NonFin)
                       | NonFin \<Rightarrow> NonFin)"

text \<open>A two-dimensional array is the list of its rows; \<open>g ! j ! i\<close> is \<^verbatim>\<open>g[j, i]\<close>.\<close>

type_synonym 'a grid = "'a list list"

text \<open>\<^verbatim>\<open>np.zeros(shape_out)\<close> with \<^verbatim>\<open>ny_out, nx_out = shape_out\<close>.\<close>

definition zeros :: "nat \<Rightarrow> nat \<Rightarrow> fnum grid" where
  "zeros ny nx = replicate ny (replicate nx 0)"

text \<open>
  \<^verbatim>\<open>g[jj, ii] += v\<close>. The program only writes at indices that the clipping of the
  bounding box has put inside the array (lemma \<open>in_box_clip_in_range\<close>).
\<close>

definition add_at :: "fnum grid \<Rightarrow> nat \<Rightarrow> nat \<Rightarrow> fnum \<Rightarrow> fnum grid" where
  "add_at g jj ii v = g[jj := (g ! jj)[ii := g ! jj ! ii + v]]"

text \<open>Elementwise \<^verbatim>\<open>a / b\<close> and \<^verbatim>\<open>a + b\<close> of two arrays of one shape.\<close>

definition grid_div :: "fnum grid \<Rightarrow> fnum grid \<Rightarrow> fnum grid" where
  "grid_div a b = map2 (map2 fdiv) a b"

definition grid_add :: "fnum grid \<Rightarrow> fnum grid \<Rightarrow> fnum grid" where
  "grid_add a b = map2 (map2 (+)) a b"

text \<open>
  Python's \<^verbatim>\<open>sum(list_of_arrays)\<close> starts from the integer 0, which numpy adds to every
  element of the first array, and then adds the arrays from left to right. The list is
  never empty where the program calls it (the pool needs one process at least).
\<close>

definition sum_grids :: "fnum grid list \<Rightarrow> fnum grid" where
  "sum_grids gs = (case gs of [] \<Rightarrow> []
                   | g # rest \<Rightarrow> foldl grid_add (map (map (\<lambda>x. 0 + x)) g) rest)"


section \<open>Exceptions\<close>

text \<open>
  How a call ends when it does not return a value. \<open>KeyboardInterrupt\<close> is the only
  exception here that is not an instance of Python's \<^verbatim>\<open>Exception\<close>; \<open>Failure\<close> is any other
  exception raised by the pool or by a worker. \<open>Blocked\<close> is not an exception: it stands
  for a call that never returns, because it waits without a timeout for something that
  never happens. No handler sees it and nothing is executed after it.
\<close>

datatype exn =
    KeyboardInterrupt | TypeError | ValueError | NotImplementedError | OverflowError
  | Failure string | Blocked

section \<open>Coordinates as Python floats\<close>

text \<open>
  The positions of the source corners in the pixel space of the destination come from
  \<^verbatim>\<open>wcs_world2pix\<close>, which returns doubles: a position can be NaN or infinite (a direction
  that the destination projection cannot represent). Lines 126--129 take the least and
  the greatest of four of them with Python's \<^verbatim>\<open>min\<close> and \<^verbatim>\<open>max\<close>, add \<^verbatim>\<open>0.5\<close> and call
  \<^verbatim>\<open>int\<close>. All three steps depend on what a double is, so these coordinates are modelled as
  Python floats: a finite value \<open>Finite r\<close> (with \<open>r\<close> the real number that the double
  stands for), the two infinities, or NaN.
\<close>

datatype pyfloat = Finite real | PosInf | NegInf | NaN

text \<open>
  IEEE 754 binary64, rounding to nearest with ties to even. \<open>pow2 e\<close> is \<open>2\<close> to the power
  \<open>e\<close>. \<open>exponent a\<close> is the exponent of the binade of \<open>a \<ge> 0\<close>: the greatest \<open>e\<close> with
  \<open>pow2 e \<le> a\<close>, kept between -1022 (the subnormal numbers share the exponent of the
  least normal ones) and 1023. It is found by counting up from -1022.
\<close>

definition pow2 :: "int \<Rightarrow> real" where
  "pow2 e = (if 0 \<le> e then 2 ^ nat e else 1 / 2 ^ nat (- e))"

fun binade :: "nat \<Rightarrow> int \<Rightarrow> real \<Rightarrow> int" where
  "binade 0 e a = e"
| "binade (Suc k) e a = (if pow2 (e + 1) \<le> a then binade k (e + 1) a else e)"

definition exponent :: "real \<Rightarrow> int" where
  "exponent a = binade 2045 (- 1022) a"

definition round_half_even :: "real \<Rightarrow> int" where
  "round_half_even r =
     (if r - of_int \<lfloor>r\<rfloor> < 1 / 2 then \<lfloor>r\<rfloor>
      else if 1 / 2 < r - of_int \<lfloor>r\<rfloor> then \<lfloor>r\<rfloor> + 1
      else if even \<lfloor>r\<rfloor> then \<lfloor>r\<rfloor> else \<lfloor>r\<rfloor> + 1)"

text \<open>
  The double nearest to the real number \<open>x\<close>: \<open>x\<close> is rounded to a multiple of the unit in
  the last place of its binade, which is \<open>2\<close> to the power \<open>exponent - 52\<close>. A result of
  magnitude \<open>2 ^ 1024\<close> or more is an infinity.
\<close>

definition round_double :: "real \<Rightarrow> pyfloat" where
  "round_double x =
     (let ulp = pow2 (exponent \<bar>x\<bar> - 52);
          q = round_half_even (x / ulp)
      in if exponent \<bar>x\<bar> = 1023 \<and> 2 ^ 53 \<le> \<bar>q\<bar> then (if 0 < x then PosInf else NegInf)
         else Finite (of_int q * ulp))"

text \<open>\<^verbatim>\<open>x + 0.5\<close> on doubles: the exact sum, rounded.\<close>

definition add_half :: "pyfloat \<Rightarrow> pyfloat" where
  "add_half x = (case x of Finite r \<Rightarrow> round_double (r + 1 / 2)
                 | PosInf \<Rightarrow> PosInf | NegInf \<Rightarrow> NegInf | NaN \<Rightarrow> NaN)"

text \<open>\<^verbatim>\<open>a < b\<close> on doubles: false as soon as one of the two is NaN.\<close>

definition py_less :: "pyfloat \<Rightarrow> pyfloat \<Rightarrow> bool" where
  "py_less a b =
     (case (a, b) of
        (Finite x, Finite y) \<Rightarrow> x < y
      | (Finite x, PosInf) \<Rightarrow> True
      | (NegInf, Finite y) \<Rightarrow> True
      | (NegInf, PosInf) \<Rightarrow> True
      | _ \<Rightarrow> False)"

text \<open>
  Python's \<^verbatim>\<open>min(a, b, c, d)\<close> and \<^verbatim>\<open>max(a, b, c, d)\<close>: the first argument is the candidate,
  and each further argument replaces the candidate when it is less (for \<^verbatim>\<open>max\<close>: greater)
  than it. With a NaN among the arguments the result depends on their order.
\<close>

definition py_min4 :: "pyfloat \<Rightarrow> pyfloat \<Rightarrow> pyfloat \<Rightarrow> pyfloat \<Rightarrow> pyfloat" where
  "py_min4 a b c d = foldl (\<lambda>m x. if py_less x m then x else m) a [b, c, d]"

definition py_max4 :: "pyfloat \<Rightarrow> pyfloat \<Rightarrow> pyfloat \<Rightarrow> pyfloat \<Rightarrow> pyfloat" where
  "py_max4 a b c d = foldl (\<lambda>m x. if py_less m x then x else m) a [b, c, d]"

section \<open>The coordinate mapping\<close>

text \<open>
  The projections are objects of \<^verbatim>\<open>astropy.wcs.WCS\<close>; the program reads \<^verbatim>\<open>naxis\<close> and
  calls \<^verbatim>\<open>wcs_pix2world(x, y, 0)\<close> and \<^verbatim>\<open>wcs_world2pix(x, y, 0)\<close>, both of which act on
  every element of the coordinate arrays they are given. The file computes with the
  pixel positions that \<^verbatim>\<open>wcs_world2pix\<close> returns (lines 126--129), so these are Python
  floats. It only hands the world coordinates on, to the frame conversion, to
  \<^verbatim>\<open>wcs_world2pix\<close> and to the overlap primitive, which are parameters of the model; they
  are real numbers here.
\<close>

record wcs =
  naxis :: nat
  pix2world :: "real \<Rightarrow> real \<Rightarrow> real \<times> real"
  world2pix :: "real \<Rightarrow> real \<Rightarrow> pyfloat \<times> pyfloat"

text \<open>A transform of coordinate pairs applied to two arrays of one shape.\<close>

definition apply_grid ::
  "(real \<Rightarrow> real \<Rightarrow> 'a \<times> 'b) \<Rightarrow> real grid \<Rightarrow> real grid \<Rightarrow> 'a grid \<times> 'b grid" where
  "apply_grid f xg yg =
     (map2 (map2 (\<lambda>x y. fst (f x y))) xg yg, map2 (map2 (\<lambda>x y. snd (f x y))) xg yg)"

text \<open>\<^verbatim>\<open>np.arange(n + 1.) - 0.5\<close>: the \<open>n + 1\<close> values \<open>-0.5, 0.5, ..., n - 0.5\<close>.\<close>

definition arange_half :: "nat \<Rightarrow> real list" where
  "arange_half n = map (\<lambda>k. real k - 1 / 2) [0..<n + 1]"

text \<open>\<^verbatim>\<open>np.meshgrid(x, y)\<close>: two arrays of \<open>length y\<close> rows and \<open>length x\<close> columns.\<close>

definition meshgrid :: "real list \<Rightarrow> real list \<Rightarrow> real grid \<times> real grid" where
  "meshgrid x y = (replicate (length y) x, map (\<lambda>v. replicate (length x) v) y)"

text \<open>The six coordinate arrays that lines 83--111 leave for the resampling.\<close>

record corner_maps =
  xp_inout :: "pyfloat grid"
  yp_inout :: "pyfloat grid"
  xw_in :: "real grid"
  yw_in :: "real grid"
  xw_out :: "real grid"
  yw_out :: "real grid"

text \<open>
  Lines 83--111. \<open>convert\<close> stands for \<^verbatim>\<open>convert_world_coordinates(_, _, wcs_in, wcs_out)\<close>
  of \<^verbatim>\<open>wcs_utils\<close>, which is not part of the file verified here.
\<close>

definition coordinate_mapper ::
  "wcs \<Rightarrow> wcs \<Rightarrow> (real \<Rightarrow> real \<Rightarrow> real \<times> real) \<Rightarrow> nat \<Rightarrow> nat \<Rightarrow> nat \<Rightarrow> nat \<Rightarrow> corner_maps" where
  "coordinate_mapper wcs_in wcs_out convert ny_in nx_in ny_out nx_out =
     (let (xp_in, yp_in) = meshgrid (arange_half nx_in) (arange_half ny_in);
          (xw_in0, yw_in0) = apply_grid (pix2world wcs_in) xp_in yp_in;
          (xp_out, yp_out) = meshgrid (arange_half nx_out) (arange_half ny_out);
          (xw_out1, yw_out1) = apply_grid (pix2world wcs_out) xp_out yp_out;
          (xw_in1, yw_in1) = apply_grid convert xw_in0 yw_in0;
          (xp_inout1, yp_inout1) = apply_grid (world2pix wcs_out) xw_in1 yw_in1
      in \<lparr>xp_inout = xp_inout1, yp_inout = yp_inout1, xw_in = xw_in1, yw_in = yw_in1,
          xw_out = xw_out1, yw_out = yw_out1\<rparr>)"

section \<open>The resampling loop\<close>

text \<open>
  Python's \<^verbatim>\<open>int(x)\<close> of a float drops the fractional part: it rounds towards zero. It
  raises \<^verbatim>\<open>ValueError\<close> for NaN and \<^verbatim>\<open>OverflowError\<close> for an infinity.
\<close>

definition py_int :: "pyfloat \<Rightarrow> exn + int" where
  "py_int x = (case x of Finite r \<Rightarrow> Inr (if 0 \<le> r then \<lfloor>r\<rfloor> else \<lceil>r\<rceil>)
               | PosInf \<Rightarrow> Inl OverflowError | NegInf \<Rightarrow> Inl OverflowError
               | NaN \<Rightarrow> Inl ValueError)"

text \<open>\<^verbatim>\<open>np.radians\<close>.\<close>

definition radians :: "real \<Rightarrow> real" where
  "radians d = d * pi / 180"

text \<open>
  The four corners of pixel \<open>(j, i)\<close> in the order of the source,
  \<^verbatim>\<open>[g[j, i], g[j, i+1], g[j+1, i+1], g[j+1, i]]\<close>.
\<close>

definition corners :: "'a grid \<Rightarrow> nat \<Rightarrow> nat \<Rightarrow> 'a list" where
  "corners g j i = [g ! j ! i, g ! j ! (i + 1), g ! (j + 1) ! (i + 1), g ! (j + 1) ! i]"

text \<open>Lines 131--134 and 144--147: the corners reversed (\<^verbatim>\<open>[::-1]\<close>), in radians.\<close>

definition quad :: "real grid \<Rightarrow> nat \<Rightarrow> nat \<Rightarrow> real list" where
  "quad g j i = map radians (rev (corners g j i))"

text \<open>
  A box of destination indices \<open>(xmin, xmax, ymin, ymax)\<close>, both ends included.
  Lines 126--129 compute it from the corners of source pixel \<open>(j, i)\<close> in the pixel space
  of the destination, one bound after the other; the first \<^verbatim>\<open>int\<close> that raises ends the
  function.
\<close>

type_synonym box = "int \<times> int \<times> int \<times> int"

definition bounding_box :: "pyfloat grid \<Rightarrow> pyfloat grid \<Rightarrow> nat \<Rightarrow> nat \<Rightarrow> exn + box" where
  "bounding_box xp yp j i =
     (case py_int (add_half (py_min4 (xp ! j ! i) (xp ! j ! (i + 1)) (xp ! (j + 1) ! (i + 1))
                               (xp ! (j + 1) ! i))) of
        Inl e \<Rightarrow> Inl e
      | Inr xmin \<Rightarrow>
     (case py_int (add_half (py_max4 (xp ! j ! i) (xp ! j ! (i + 1)) (xp ! (j + 1) ! (i + 1))
                               (xp ! (j + 1) ! i))) of
        Inl e \<Rightarrow> Inl e
      | Inr xmax \<Rightarrow>
     (case py_int (add_half (py_min4 (yp ! j ! i) (yp ! j ! (i + 1)) (yp ! (j + 1) ! (i + 1))
                               (yp ! (j + 1) ! i))) of
        Inl e \<Rightarrow> Inl e
      | Inr ymin \<Rightarrow>
     (case py_int (add_half (py_max4 (yp ! j ! i) (yp ! j ! (i + 1)) (yp ! (j + 1) ! (i + 1))
                               (yp ! (j + 1) ! i))) of
        Inl e \<Rightarrow> Inl e
      | Inr ymax \<Rightarrow> Inr (xmin, xmax, ymin, ymax)))))"

text \<open>Lines 136--139.\<close>

definition clip_box :: "nat \<Rightarrow> nat \<Rightarrow> box \<Rightarrow> box" where
  "clip_box nx_out ny_out b =
     (case b of (xmin, xmax, ymin, ymax) \<Rightarrow>
        (max 0 xmin, min (int nx_out - 1) xmax, max 0 ymin, min (int ny_out - 1) ymax))"

text \<open>
  The overlap primitive \<^verbatim>\<open>_compute_overlap(ilon, ilat, olon, olat)\<close> is compiled code outside
  the file verified here. The model takes it as a parameter \<open>ov\<close>: the area it returns for
  two quadrilaterals, each given by its four longitudes and its four latitudes.
\<close>

type_synonym overlap_fn = "real list \<Rightarrow> real list \<Rightarrow> real list \<Rightarrow> real list \<Rightarrow> real"

type_synonym accumulators = "fnum grid \<times> fnum grid"

text \<open>
  Lines 144--155, the body of the two inner loops: \<open>v\<close> is \<^verbatim>\<open>array[j, i]\<close>. The source
  computes \<^verbatim>\<open>array[j, i] * overlap / original\<close> from left to right.
\<close>

definition dest_update ::
  "overlap_fn \<Rightarrow> corner_maps \<Rightarrow> fnum \<Rightarrow> real list \<Rightarrow> real list \<Rightarrow> int \<Rightarrow> int
     \<Rightarrow> accumulators \<Rightarrow> accumulators" where
  "dest_update ov m v ilon ilat ii jj acc =
     (let olon = quad (xw_out m) (nat jj) (nat ii);
          olat = quad (yw_out m) (nat jj) (nat ii);
          overlap = ov ilon ilat olon olat;
          original = ov olon olat olon olat
      in (add_at (fst acc) (nat jj) (nat ii) (fdiv (fmul v (Fin overlap)) (Fin original)),
          add_at (snd acc) (nat jj) (nat ii) (fdiv (Fin overlap) (Fin original))))"

text \<open>Lines 131--155 for one source pixel, given its clipped box.\<close>

definition accumulate_box ::
  "overlap_fn \<Rightarrow> corner_maps \<Rightarrow> fnum grid \<Rightarrow> nat \<Rightarrow> nat \<Rightarrow> box \<Rightarrow> accumulators \<Rightarrow> accumulators" where
  "accumulate_box ov m array j i b acc =
     (case b of (xmin, xmax, ymin, ymax) \<Rightarrow>
        (let ilon = quad (xw_in m) j i;
             ilat = quad (yw_in m) j i
         in fold (\<lambda>ii. fold (\<lambda>jj. dest_update ov m (array ! j ! i) ilon ilat ii jj) [ymin..ymax])
              [xmin..xmax] acc))"

text \<open>
  Lines 126--155: the body of the loops over the source pixels. The box is computed
  before anything is accumulated for the pixel.
\<close>

definition legacy_pixel ::
  "overlap_fn \<Rightarrow> corner_maps \<Rightarrow> fnum grid \<Rightarrow> nat \<Rightarrow> nat \<Rightarrow> nat \<Rightarrow> nat
     \<Rightarrow> accumulators \<Rightarrow> exn + accumulators" where
  "legacy_pixel ov m array nx_out ny_out i j acc =
     (case bounding_box (xp_inout m) (yp_inout m) j i of
        Inl e \<Rightarrow> Inl e
      | Inr b \<Rightarrow> Inr (accumulate_box ov m array j i (clip_box nx_out ny_out b) acc))"

text \<open>A \<^verbatim>\<open>for\<close> loop whose body can raise: the first exception ends the loop.\<close>

fun for_loop :: "('a \<Rightarrow> 's \<Rightarrow> exn + 's) \<Rightarrow> 'a list \<Rightarrow> 's \<Rightarrow> exn + 's" where
  "for_loop body [] s = Inr s"
| "for_loop body (x # xs) s = (case body x s of Inl e \<Rightarrow> Inl e | Inr s' \<Rightarrow> for_loop body xs s')"

text \<open>Lines 116--155: the accumulators after the loops, before the division of line 157.\<close>

definition legacy_accumulate ::
  "overlap_fn \<Rightarrow> corner_maps \<Rightarrow> fnum grid \<Rightarrow> nat \<Rightarrow> nat \<Rightarrow> nat \<Rightarrow> nat \<Rightarrow> exn + accumulators" where
  "legacy_accumulate ov m array ny_in nx_in ny_out nx_out =
     for_loop (\<lambda>i. for_loop (\<lambda>j. legacy_pixel ov m array nx_out ny_out i j) [0..<ny_in])
       [0..<nx_in] (zeros ny_out nx_out, zeros ny_out nx_out)"

text \<open>Lines 113--159: \<^verbatim>\<open>array_new /= weights; return array_new, weights\<close>.\<close>

definition reproject_legacy ::
  "overlap_fn \<Rightarrow> corner_maps \<Rightarrow> fnum grid \<Rightarrow> nat \<Rightarrow> nat \<Rightarrow> nat \<Rightarrow> nat
     \<Rightarrow> exn + fnum grid \<times> fnum grid" where
  "reproject_legacy ov m array ny_in nx_in ny_out nx_out =
     (case legacy_accumulate ov m array ny_in nx_in ny_out nx_out of
        Inl e \<Rightarrow> Inl e
      | Inr acc \<Rightarrow> Inr (grid_div (fst acc) (snd acc), snd acc))"

text \<open>
  The quantities the specification names, for stating what the loops compute: the
  coverage fraction of destination pixel \<open>(jj, ii)\<close> by source pixel \<open>(j, i)\<close>, and
  membership of a destination pixel in a box.
\<close>

definition fraction :: "overlap_fn \<Rightarrow> corner_maps \<Rightarrow> nat \<Rightarrow> nat \<Rightarrow> nat \<Rightarrow> nat \<Rightarrow> fnum" where
  "fraction ov m j i jj ii =
     fdiv (Fin (ov (quad (xw_in m) j i) (quad (yw_in m) j i)
                   (quad (xw_out m) jj ii) (quad (yw_out m) jj ii)))
          (Fin (ov (quad (xw_out m) jj ii) (quad (yw_out m) jj ii)
                   (quad (xw_out m) jj ii) (quad (yw_out m) jj ii)))"

definition in_box :: "box \<Rightarrow> nat \<Rightarrow> nat \<Rightarrow> bool" where
  "in_box b jj ii =
     (case b of (xmin, xmax, ymin, ymax) \<Rightarrow>
        xmin \<le> int ii \<and> int ii \<le> xmax \<and> ymin \<le> int jj \<and> int jj \<le> ymax)"


section \<open>The resampling kernel\<close>

text \<open>
  Modelled from the spec: \<^verbatim>\<open>_reproject_slice_cython\<close> of the compiled module \<^verbatim>\<open>_overlap\<close>,
  which \<^verbatim>\<open>reproject.py\<close> imports and calls but which is not among the sources. Section 4.2
  of the specification describes it: for every source pixel whose column lies in
  \<open>[start, end)\<close>, all rows included, (1) the bounding box of its four corners in destination
  pixel space, from the floor of the least corner plus 0.5 to the floor of the greatest
  corner plus 0.5; (2) the box clipped to the destination, the pixel skipped when the
  clipped box is empty; (3) and (4) for every destination pixel of the clipped box, the
  fraction of the overlap of the two reversed quadrilaterals over the overlap of the
  destination quadrilateral with itself, added to the weight sum, and the fraction times
  the source value added to the flux sum. Both sums start from zero and have the shape of
  the destination.

  The specification states the box for corners that are numbers, in exact arithmetic.
  \<open>spec_range\<close> is the pair of the two floors for the four corner coordinates along one
  axis. It is defined when all four are finite. The specification does not say what the
  kernel does with a corner that is NaN or infinite; in this model the box of such a
  pixel is empty, so that the pixel is skipped.
\<close>

definition min4 :: "real \<Rightarrow> real \<Rightarrow> real \<Rightarrow> real \<Rightarrow> real" where
  "min4 a b c d = min a (min b (min c d))"

definition max4 :: "real \<Rightarrow> real \<Rightarrow> real \<Rightarrow> real \<Rightarrow> real" where
  "max4 a b c d = max a (max b (max c d))"

definition spec_range :: "pyfloat list \<Rightarrow> (int \<times> int) option" where
  "spec_range cs =
     (case cs of
        [Finite a, Finite b, Finite c, Finite d] \<Rightarrow>
          Some (\<lfloor>min4 a b c d + 1 / 2\<rfloor>, \<lfloor>max4 a b c d + 1 / 2\<rfloor>)
      | _ \<Rightarrow> None)"

definition spec_box :: "pyfloat grid \<Rightarrow> pyfloat grid \<Rightarrow> nat \<Rightarrow> nat \<Rightarrow> box" where
  "spec_box xp yp j i =
     (case (spec_range (corners xp j i), spec_range (corners yp j i)) of
        (Some (xmin, xmax), Some (ymin, ymax)) \<Rightarrow> (xmin, xmax, ymin, ymax)
      | _ \<Rightarrow> (0, - 1, 0, - 1))"

definition spec_dest_update ::
  "overlap_fn \<Rightarrow> corner_maps \<Rightarrow> fnum \<Rightarrow> nat \<Rightarrow> nat \<Rightarrow> int \<Rightarrow> int \<Rightarrow> accumulators \<Rightarrow> accumulators" where
  "spec_dest_update ov m v j i ii jj acc =
     (add_at (fst acc) (nat jj) (nat ii) (fmul v (fraction ov m j i (nat jj) (nat ii))),
      add_at (snd acc) (nat jj) (nat ii) (fraction ov m j i (nat jj) (nat ii)))"

definition spec_pixel ::
  "overlap_fn \<Rightarrow> corner_maps \<Rightarrow> fnum grid \<Rightarrow> nat \<Rightarrow> nat \<Rightarrow> nat \<Rightarrow> nat \<Rightarrow> accumulators \<Rightarrow> accumulators" where
  "spec_pixel ov m array nx_out ny_out i j acc =
     (case clip_box nx_out ny_out (spec_box (xp_inout m) (yp_inout m) j i) of
        (xmin, xmax, ymin, ymax) \<Rightarrow>
          if xmax < xmin \<or> ymax < ymin then acc
          else fold (\<lambda>ii. fold (\<lambda>jj. spec_dest_update ov m (array ! j ! i) j i ii jj) [ymin..ymax])
                 [xmin..xmax] acc)"

text \<open>
  The arguments follow the call of line 170,
  \<^verbatim>\<open>_reproject_slice_cython(start, end, 0, ny_in, nx_out, ny_out, <six arrays>, array, shape_out)\<close>.
\<close>

definition resampling_kernel ::
  "overlap_fn \<Rightarrow> int \<Rightarrow> int \<Rightarrow> nat \<Rightarrow> nat \<Rightarrow> nat \<Rightarrow> nat \<Rightarrow> corner_maps \<Rightarrow> fnum grid \<Rightarrow> accumulators" where
  "resampling_kernel ov startx endx starty endy nx_out ny_out m array =
     fold (\<lambda>i. fold (\<lambda>j. spec_pixel ov m array nx_out ny_out (nat i) j) [starty..<endy])
       [startx..endx - 1] (zeros ny_out nx_out, zeros ny_out nx_out)"


section \<open>The entry point: argument checks, serial and parallel execution\<close>

text \<open>
  The value given for \<^verbatim>\<open>parallel\<close>. The program compares \<^verbatim>\<open>type(parallel)\<close> with \<^verbatim>\<open>bool\<close> and
  \<^verbatim>\<open>int\<close> exactly, so an object of any other type (a float, a string, \<^verbatim>\<open>None\<close>, a numpy
  integer) is \<open>PyOther\<close>.
\<close>

datatype pyval = PyBool bool | PyInt int | PyOther

text \<open>What the program does besides computing its result, in the order it does it.\<close>

datatype event =
    EvAstype                  \<comment> \<open>line 71, \<^verbatim>\<open>array.astype(float)\<close>\<close>
  | EvCornerGrid nat nat      \<comment> \<open>lines 85--88 and 96--99, \<^verbatim>\<open>arange\<close> and \<^verbatim>\<open>meshgrid\<close>\<close>
  | EvPix2World               \<comment> \<open>lines 90 and 101\<close>
  | EvConvert                 \<comment> \<open>line 106\<close>
  | EvWorld2Pix               \<comment> \<open>line 111\<close>
  | EvLegacyLoop              \<comment> \<open>lines 116--157\<close>
  | EvContiguous              \<comment> \<open>line 166, \<^verbatim>\<open>ascontiguousarray\<close> of the arrays\<close>
  | EvKernel int int          \<comment> \<open>line 170, the kernel run in the calling process\<close>
  | EvCpuCount                \<comment> \<open>line 184\<close>
  | EvPool int                \<comment> \<open>line 191, the pool created\<close>
  | EvPoolFailed nat          \<comment> \<open>line 191 raised; the worker processes left running\<close>
  | EvApplyAsync int int      \<comment> \<open>line 199\<close>
  | EvTerminate               \<comment> \<open>line 210\<close>
  | EvJoin                    \<comment> \<open>lines 211 and 219\<close>
  | EvClose                   \<comment> \<open>line 218\<close>
  | EvWarnFailed exn          \<comment> \<open>line 231\<close>
  | EvWarnSerial              \<comment> \<open>line 232\<close>

text \<open>
  What the program cannot decide.
  \<^item> \<open>cpu_count\<close>: the number of logical CPUs.
  \<^item> \<open>pool_create\<close>: whether \<^verbatim>\<open>Pool(nproc, _init_worker)\<close> raises, and what: an error of the
    operating system, or \<open>KeyboardInterrupt\<close> when the user presses ctrl+c while the
    worker processes are being started.
  \<^item> \<open>pool_started\<close>: in that case, the number of worker processes that the interrupted
    constructor has started and left running. The caller has no handle on them: \<^verbatim>\<open>pool\<close>
    is still \<^verbatim>\<open>None\<close>.
  \<^item> \<open>worker_exc k\<close>: what happens to the task of worker \<open>k\<close> outside the kernel. \<open>None\<close>
    when nothing does: \<^verbatim>\<open>get()\<close> then returns what the kernel returned in the worker, or
    raises what it raised. \<open>Some e\<close> when \<^verbatim>\<open>get()\<close> raises \<open>e\<close>: an error of the pool (the
    arguments or the result cannot be sent), or \<open>KeyboardInterrupt\<close> when the user
    presses ctrl+c while the caller waits. \<open>Some Blocked\<close> when the worker process has
    died (killed by a signal or by the operating system): the pool never completes that
    task, and \<^verbatim>\<open>get()\<close>, called without a timeout, waits for ever.
  \<^item> \<open>finally_interrupt\<close>: whether the user presses ctrl+c while the \<^verbatim>\<open>finally\<close> block of
    lines 215--219 closes and joins the pool.
\<close>

record env =
  cpu_count :: int
  pool_create :: "exn option"
  pool_started :: nat
  worker_exc :: "nat \<Rightarrow> exn option"
  finally_interrupt :: bool

text \<open>The source image: \<^verbatim>\<open>ny_in, nx_in = array.shape\<close> and its samples.\<close>

record image =
  rows :: nat
  cols :: nat
  samples :: "fnum grid"

type_synonym result = "fnum grid \<times> fnum grid"

text \<open>The kernel with the parameters of \<^verbatim>\<open>common_func_par\<close> applied: it takes \<open>start\<close> and \<open>end\<close>.\<close>

type_synonym kernel = "int \<Rightarrow> int \<Rightarrow> exn + accumulators"

type_synonym slice_fn =
  "int \<Rightarrow> int \<Rightarrow> nat \<Rightarrow> nat \<Rightarrow> nat \<Rightarrow> nat \<Rightarrow> corner_maps \<Rightarrow> fnum grid \<Rightarrow> exn + accumulators"

text \<open>Lines 56--67.\<close>

definition resolve_nproc :: "pyval \<Rightarrow> exn + int option" where
  "resolve_nproc parallel =
     (case parallel of
        PyOther \<Rightarrow> Inl TypeError
      | PyInt n \<Rightarrow> if n \<le> 0 then Inl ValueError else Inr (Some n)
      | PyBool b \<Rightarrow> Inr (if b then None else Some 1))"

text \<open>Lines 169--174.\<close>

definition serial_impl :: "kernel \<Rightarrow> int \<Rightarrow> event list \<times> (exn + result)" where
  "serial_impl kern nx_in =
     (case kern 0 nx_in of
        Inl e \<Rightarrow> ([EvKernel 0 nx_in], Inl e)
      | Inr acc \<Rightarrow> ([EvKernel 0 nx_in], Inr (grid_div (fst acc) (snd acc), snd acc)))"

text \<open>
  The list comprehensions of lines 201--202 fetch the results in the order of the
  workers; the first fetch that does not return a result ends them. \<open>first_error\<close> is
  how that fetch ends, \<open>rights\<close> are the results fetched, and \<open>worker_result\<close> is what the
  fetch for worker \<open>i\<close> does.
\<close>

fun first_error :: "(exn + 'a) list \<Rightarrow> exn option" where
  "first_error [] = None"
| "first_error (Inl e # rs) = Some e"
| "first_error (Inr a # rs) = first_error rs"

fun rights :: "(exn + 'a) list \<Rightarrow> 'a list" where
  "rights [] = []"
| "rights (Inl e # rs) = rights rs"
| "rights (Inr a # rs) = a # rights rs"

definition worker_result :: "env \<Rightarrow> kernel \<Rightarrow> int \<Rightarrow> int \<Rightarrow> int \<Rightarrow> exn + accumulators" where
  "worker_result env kern nx_in nproc i =
     (case worker_exc env (nat i) of
        Some e \<Rightarrow> Inl e
      | None \<Rightarrow> kern (part_start nx_in nproc i) (part_end nx_in nproc i))"

text \<open>
  Lines 215--219, when \<^verbatim>\<open>pool\<close> is not \<^verbatim>\<open>None\<close>: the block runs after the \<^verbatim>\<open>try\<close> body has
  ended with the outcome \<open>r\<close>, a result or an exception that is not \<open>KeyboardInterrupt\<close>.
  \<^verbatim>\<open>pool.join()\<close> waits until every worker process has exited, which they do once the
  tasks submitted before \<^verbatim>\<open>close()\<close> are done. A \<open>KeyboardInterrupt\<close> raised inside the
  block replaces \<open>r\<close> and leaves the function: the \<^verbatim>\<open>except\<close> clause of line 204 guards the
  \<^verbatim>\<open>try\<close> body only, so nothing terminates the workers. Without an interrupt, \<^verbatim>\<open>join()\<close>
  never returns when the process of one of the workers has died, since the pool keeps
  waiting for the task that was lost with it.
\<close>

definition finally_block ::
  "env \<Rightarrow> (exn + accumulators) list \<Rightarrow> event list \<Rightarrow> exn + result
     \<Rightarrow> event list \<times> (exn + result)" where
  "finally_block env outs tr r =
     (tr @ [EvClose, EvJoin],
      if finally_interrupt env then Inl KeyboardInterrupt
      else if Inl Blocked \<in> set outs then Inl Blocked
      else r)"

text \<open>
  Lines 180--221. \<^verbatim>\<open>Pool(nproc, _init_worker)\<close> raises \<^verbatim>\<open>ValueError\<close> for a number of
  processes below one. When the constructor raises, \<^verbatim>\<open>pool\<close> is still \<^verbatim>\<open>None\<close> and neither
  the handler of line 204 nor the \<^verbatim>\<open>finally\<close> block touches it. The results are fetched in
  the order of the workers. A fetch that raises \<open>KeyboardInterrupt\<close> is handled by lines
  209--213: terminate, join, \<^verbatim>\<open>pool = None\<close>, re-raise, after which the \<^verbatim>\<open>finally\<close> block
  finds no pool. A fetch that never returns ends nothing. Any other exception, and the
  normal end of the \<^verbatim>\<open>try\<close> body, lead to the \<^verbatim>\<open>finally\<close> block with the pool alive.
  A ctrl+c during the submissions of lines 196--199 is caught by the same clause as one
  during a fetch; the environment places it at the fetch for the first worker.
\<close>

definition parallel_impl :: "env \<Rightarrow> kernel \<Rightarrow> int option \<Rightarrow> int \<Rightarrow> event list \<times> (exn + result)" where
  "parallel_impl env kern nproc0 nx_in =
     (let tr0 = (case nproc0 of None \<Rightarrow> [EvCpuCount] | Some n \<Rightarrow> []);
          nproc = (case nproc0 of None \<Rightarrow> cpu_count env | Some n \<Rightarrow> n)
      in if nproc < 1 then (tr0, Inl ValueError)
         else (case pool_create env of
                 Some e \<Rightarrow> (tr0 @ [EvPoolFailed (pool_started env)], Inl e)
               | None \<Rightarrow>
                  (let tr1 = tr0 @ [EvPool nproc]
                               @ map (\<lambda>p. EvApplyAsync (fst p) (snd p)) (partitions nx_in nproc);
                       outs = map (worker_result env kern nx_in nproc) [0..nproc - 1]
                   in (case first_error outs of
                         Some KeyboardInterrupt \<Rightarrow> (tr1 @ [EvTerminate, EvJoin], Inl KeyboardInterrupt)
                       | Some Blocked \<Rightarrow> (tr1, Inl Blocked)
                       | Some e \<Rightarrow> finally_block env outs tr1 (Inl e)
                       | None \<Rightarrow>
                          (let array_new = sum_grids (map fst (rights outs));
                               weights = sum_grids (map snd (rights outs))
                           in finally_block env outs tr1
                                (Inr (grid_div array_new weights, weights)))))))"

text \<open>The events of lines 83--111.\<close>

definition mapping_events :: "nat \<Rightarrow> nat \<Rightarrow> nat \<Rightarrow> nat \<Rightarrow> event list" where
  "mapping_events ny_in nx_in ny_out nx_out =
     [EvCornerGrid ny_in nx_in, EvPix2World, EvCornerGrid ny_out nx_out, EvPix2World,
      EvConvert, EvWorld2Pix]"

text \<open>
  Lines 223--233. When \<^verbatim>\<open>parallel_impl\<close> never returns, neither handler runs and the call
  never returns.
\<close>

definition run_parallel :: "env \<Rightarrow> kernel \<Rightarrow> int option \<Rightarrow> int \<Rightarrow> event list \<times> (exn + result)" where
  "run_parallel env kern nproc nx_in =
     (case parallel_impl env kern nproc nx_in of
        (tr, Inr r) \<Rightarrow> (tr, Inr r)
      | (tr, Inl KeyboardInterrupt) \<Rightarrow> (tr, Inl KeyboardInterrupt)
      | (tr, Inl Blocked) \<Rightarrow> (tr, Inl Blocked)
      | (tr, Inl e) \<Rightarrow>
          (tr @ [EvWarnFailed e, EvWarnSerial] @ fst (serial_impl kern nx_in),
           snd (serial_impl kern nx_in)))"

text \<open>
  Lines 23--235. \<open>ov\<close>, \<open>convert\<close> and \<open>slice\<close> are the three functions the file imports from
  the rest of the package: \<^verbatim>\<open>_compute_overlap\<close>, \<^verbatim>\<open>convert_world_coordinates\<close> and
  \<^verbatim>\<open>_reproject_slice_cython\<close>.
\<close>

definition reproject_celestial ::
  "env \<Rightarrow> overlap_fn \<Rightarrow> (real \<Rightarrow> real \<Rightarrow> real \<times> real) \<Rightarrow> slice_fn
     \<Rightarrow> image \<Rightarrow> wcs \<Rightarrow> wcs \<Rightarrow> nat \<times> nat \<Rightarrow> pyval \<Rightarrow> string \<Rightarrow> event list \<times> (exn + result)" where
  "reproject_celestial env ov convert slice array wcs_in wcs_out shape_out parallel method =
     (case resolve_nproc parallel of
        Inl e \<Rightarrow> ([], Inl e)
      | Inr nproc \<Rightarrow>
          if naxis wcs_in \<noteq> 2 then ([EvAstype], Inl NotImplementedError)
          else
            (let ny_in = rows array; nx_in = cols array;
                 ny_out = fst shape_out; nx_out = snd shape_out;
                 m = coordinate_mapper wcs_in wcs_out convert ny_in nx_in ny_out nx_out;
                 tr = EvAstype # mapping_events ny_in nx_in ny_out nx_out;
                 kern = (\<lambda>s e. slice s e 0 ny_in nx_out ny_out m (samples array))
             in if method = ''legacy''
                then (tr @ [EvLegacyLoop],
                      reproject_legacy ov m (samples array) ny_in nx_in ny_out nx_out)
                else if method = ''c'' \<and> nproc = Some 1
                then (tr @ EvContiguous # fst (serial_impl kern (int nx_in)),
                      snd (serial_impl kern (int nx_in)))
                else if method = ''c'' \<and> (case nproc of None \<Rightarrow> True | Some n \<Rightarrow> 1 < n)
                then (tr @ EvContiguous # fst (run_parallel env kern nproc (int nx_in)),
                      snd (run_parallel env kern nproc (int nx_in)))
                else (tr @ [EvContiguous], Inl ValueError)))"

text \<open>The kernel of the specification as the imported function \<open>slice\<close>: it does not raise.\<close>

definition spec_slice :: "overlap_fn \<Rightarrow> slice_fn" where
  "spec_slice ov startx endx starty endy nx_out ny_out m array =
     Inr (resampling_kernel ov startx endx starty endy nx_out ny_out m array)"


section \<open>Shapes and additive updates\<close>

text \<open>
  Two notions for the proofs. An array has shape \<open>(ny, nx)\<close> when it has \<open>ny\<close> rows of
  \<open>nx\<close> elements. A step on the accumulators adds \<open>df\<close> and \<open>dw\<close> when it keeps their
  shape and adds \<open>df a b\<close> to the flux sum and \<open>dw a b\<close> to the weight sum of every
  destination pixel \<open>(a, b)\<close>.
\<close>

definition shaped :: "nat \<Rightarrow> nat \<Rightarrow> 'a grid \<Rightarrow> bool" where
  "shaped ny nx g = (length g = ny \<and> (\<forall>r\<in>set g. length r = nx))"

definition adds ::
  "nat \<Rightarrow> nat \<Rightarrow> (accumulators \<Rightarrow> accumulators) \<Rightarrow> (nat \<Rightarrow> nat \<Rightarrow> fnum)
     \<Rightarrow> (nat \<Rightarrow> nat \<Rightarrow> fnum) \<Rightarrow> bool" where
  "adds ny nx step df dw =
     (\<forall>acc. shaped ny nx (fst acc) \<and> shaped ny nx (snd acc) \<longrightarrow>
        shaped ny nx (fst (step acc)) \<and> shaped ny nx (snd (step acc)) \<and>
        (\<forall>a<ny. \<forall>b<nx. fst (step acc) ! a ! b = fst acc ! a ! b + df a b
                       \<and> snd (step acc) ! a ! b = snd acc ! a ! b + dw a b))"

text \<open>
  The clipped box of source pixel \<open>(j, i)\<close> in the loop of the source file and in the
  kernel, and what that pixel adds to the weight sum and to the flux sum of destination
  pixel \<open>(a, b)\<close>. Where lines 126--129 raise, nothing is accumulated for the pixel, and
  \<open>legacy_box\<close> is an empty box.
\<close>

definition legacy_box :: "corner_maps \<Rightarrow> nat \<Rightarrow> nat \<Rightarrow> nat \<Rightarrow> nat \<Rightarrow> box" where
  "legacy_box m nx_out ny_out j i =
     clip_box nx_out ny_out
       (case bounding_box (xp_inout m) (yp_inout m) j i of
          Inr b \<Rightarrow> b
        | Inl e \<Rightarrow> (0, - 1, 0, - 1))"

definition kernel_box :: "corner_maps \<Rightarrow> nat \<Rightarrow> nat \<Rightarrow> nat \<Rightarrow> nat \<Rightarrow> box" where
  "kernel_box m nx_out ny_out j i = clip_box nx_out ny_out (spec_box (xp_inout m) (yp_inout m) j i)"

definition weight_term :: "box \<Rightarrow> overlap_fn \<Rightarrow> corner_maps \<Rightarrow> nat \<Rightarrow> nat \<Rightarrow> nat \<Rightarrow> nat \<Rightarrow> fnum" where
  "weight_term bx ov m j i a b = (if in_box bx a b then fraction ov m j i a b else 0)"

definition flux_term ::
  "box \<Rightarrow> overlap_fn \<Rightarrow> corner_maps \<Rightarrow> fnum grid \<Rightarrow> nat \<Rightarrow> nat \<Rightarrow> nat \<Rightarrow> nat \<Rightarrow> fnum" where
  "flux_term bx ov m array j i a b =
     (if in_box bx a b then fmul (array ! j ! i) (fraction ov m j i a b) else 0)"

text \<open>Lines 85--88 and 96--99: the grid of the corners of an image of \<open>ny\<close> by \<open>nx\<close> pixels.\<close>

definition corner_grid :: "nat \<Rightarrow> nat \<Rightarrow> real grid \<times> real grid" where
  "corner_grid ny nx = meshgrid (arange_half nx) (arange_half ny)"

text \<open>
  Names for parts of the entry point: the kernel with the arguments of
  \<^verbatim>\<open>common_func_par\<close> applied (line 166), the events up to line 166, the events of the
  creation of the pool and of the submission of the partitions (lines 191--199), and the
  results of the workers in the order in which they are fetched.
\<close>

definition bound_kernel ::
  "slice_fn \<Rightarrow> (real \<Rightarrow> real \<Rightarrow> real \<times> real) \<Rightarrow> image \<Rightarrow> wcs \<Rightarrow> wcs \<Rightarrow> nat \<times> nat \<Rightarrow> kernel" where
  "bound_kernel slice cv array wi wo shape =
     (\<lambda>s e. slice s e 0 (rows array) (snd shape) (fst shape)
        (coordinate_mapper wi wo cv (rows array) (cols array) (fst shape) (snd shape))
        (samples array))"

definition prelude :: "image \<Rightarrow> nat \<times> nat \<Rightarrow> event list" where
  "prelude array shape =
     EvAstype # mapping_events (rows array) (cols array) (fst shape) (snd shape) @ [EvContiguous]"

definition dispatch :: "int \<Rightarrow> int \<Rightarrow> event list" where
  "dispatch nx n = EvPool n # map (\<lambda>p. EvApplyAsync (fst p) (snd p)) (partitions nx n)"

definition outcomes :: "env \<Rightarrow> kernel \<Rightarrow> int \<Rightarrow> int \<Rightarrow> (exn + accumulators) list" where
  "outcomes env kern nx n = map (worker_result env kern nx n) [0..n - 1]"

text \<open>
  What the source pixels of column \<open>i\<close> add, in the kernel, to the flux sum and to the
  weight sum of destination pixel \<open>(a, b)\<close>.
\<close>

definition column_flux ::
  "overlap_fn \<Rightarrow> corner_maps \<Rightarrow> fnum grid \<Rightarrow> nat \<Rightarrow> nat \<Rightarrow> nat \<Rightarrow> nat \<Rightarrow> int \<Rightarrow> nat \<Rightarrow> nat \<Rightarrow> fnum" where
  "column_flux ov m array starty endy nx_out ny_out i a b =
     (\<Sum>j\<leftarrow>[starty..<endy].
        flux_term (kernel_box m nx_out ny_out j (nat i)) ov m array j (nat i) a b)"

definition column_weight ::
  "overlap_fn \<Rightarrow> corner_maps \<Rightarrow> nat \<Rightarrow> nat \<Rightarrow> nat \<Rightarrow> nat \<Rightarrow> int \<Rightarrow> nat \<Rightarrow> nat \<Rightarrow> fnum" where
  "column_weight ov m starty endy nx_out ny_out i a b =
     (\<Sum>j\<leftarrow>[starty..<endy].
        weight_term (kernel_box m nx_out ny_out j (nat i)) ov m j (nat i) a b)"

section \<open>Example inputs\<close>

text \<open>
  Small concrete inputs on which the theorems below are instantiated: an overlap primitive
  that returns 1 for every pair of quadrilaterals, a projection whose world coordinates are
  its pixel coordinates, a projection shifted by one and a half pixels along x, a
  projection whose pixels are twice as wide, a projection of three axes, a frame
  conversion that changes nothing, and the corner mappings of a source of one pixel onto a
  destination of one pixel, aligned and shifted, and of a source of one row of two pixels
  onto a destination of one pixel, shifted (the first source pixel lies wholly to the left
  of the destination pixel, the second covers its left half) and twice as wide (each
  source pixel covers one half of the destination pixel).
\<close>

definition unit_overlap :: overlap_fn where
  "unit_overlap ilon ilat olon olat = 1"

definition identity_wcs :: wcs where
  "identity_wcs = \<lparr>naxis = 2, pix2world = Pair, world2pix = (\<lambda>x y. (Finite x, Finite y))\<rparr>"

definition shifted_wcs :: wcs where
  "shifted_wcs = \<lparr>naxis = 2, pix2world = (\<lambda>x y. (x + 3 / 2, y)),
                   world2pix = (\<lambda>x y. (Finite (x - 3 / 2), Finite y))\<rparr>"

definition halved_wcs :: wcs where
  "halved_wcs = \<lparr>naxis = 2, pix2world = (\<lambda>x y. (2 * x + 1 / 2, y)),
                  world2pix = (\<lambda>x y. (Finite (x / 2 - 1 / 4), Finite y))\<rparr>"

text \<open>
  Two projections that cannot place the direction they are given: the first answers NaN,
  the second an infinite position along x.
\<close>

definition blind_wcs :: wcs where
  "blind_wcs = \<lparr>naxis = 2, pix2world = Pair, world2pix = (\<lambda>x y. (NaN, NaN))\<rparr>"

definition far_wcs :: wcs where
  "far_wcs = \<lparr>naxis = 2, pix2world = Pair, world2pix = (\<lambda>x y. (PosInf, Finite y))\<rparr>"

definition cube_wcs :: wcs where
  "cube_wcs = \<lparr>naxis = 3, pix2world = Pair, world2pix = (\<lambda>x y. (Finite x, Finite y))\<rparr>"

definition same_frame :: "real \<Rightarrow> real \<Rightarrow> real \<times> real" where
  "same_frame = Pair"

definition aligned_maps :: corner_maps where
  "aligned_maps = coordinate_mapper identity_wcs identity_wcs same_frame 1 1 1 1"

definition shifted_maps :: corner_maps where
  "shifted_maps = coordinate_mapper identity_wcs shifted_wcs same_frame 1 1 1 1"

definition offset_maps :: corner_maps where
  "offset_maps = coordinate_mapper identity_wcs shifted_wcs same_frame 1 2 1 1"

definition halved_maps :: corner_maps where
  "halved_maps = coordinate_mapper identity_wcs halved_wcs same_frame 1 2 1 1"

text \<open>
  An image of one pixel of value 3, and six environments with two CPUs in which
  \<^item> nothing fails;
  \<^item> fetching the result of the second worker raises an exception;
  \<^item> ctrl+c arrives while the caller waits for the first worker;
  \<^item> the process of the second worker dies;
  \<^item> fetching the result of the first worker raises an exception and ctrl+c arrives
    while the pool is being joined;
  \<^item> ctrl+c arrives while the pool is being created, after the start of one worker.

  A kernel that returns accumulators of zeros.
\<close>

definition one_pixel :: image where
  "one_pixel = \<lparr>rows = 1, cols = 1, samples = [[Fin 3]]\<rparr>"

text \<open>
  An image of one pixel that holds NaN, an image of two pixels of which the first holds
  NaN, and an image of two pixels of values 3 and 5.
\<close>

definition nan_pixel :: image where
  "nan_pixel = \<lparr>rows = 1, cols = 1, samples = [[NonFin]]\<rparr>"

definition nan_and_five :: image where
  "nan_and_five = \<lparr>rows = 1, cols = 2, samples = [[NonFin, Fin 5]]\<rparr>"

definition two_pixels :: image where
  "two_pixels = \<lparr>rows = 1, cols = 2, samples = [[Fin 3, Fin 5]]\<rparr>"

definition quiet_env :: env where
  "quiet_env = \<lparr>cpu_count = 2, pool_create = None, pool_started = 0,
                 worker_exc = (\<lambda>k. None), finally_interrupt = False\<rparr>"

definition crash_env :: env where
  "crash_env = \<lparr>cpu_count = 2, pool_create = None, pool_started = 0,
                 worker_exc = (\<lambda>k. if k = 1 then Some (Failure ''kernel raised'') else None),
                 finally_interrupt = False\<rparr>"

definition interrupt_env :: env where
  "interrupt_env = \<lparr>cpu_count = 2, pool_create = None, pool_started = 0,
                     worker_exc = (\<lambda>k. if k = 0 then Some KeyboardInterrupt else None),
                     finally_interrupt = False\<rparr>"

definition dead_worker_env :: env where
  "dead_worker_env = \<lparr>cpu_count = 2, pool_create = None, pool_started = 0,
                       worker_exc = (\<lambda>k. if k = 1 then Some Blocked else None),
                       finally_interrupt = False\<rparr>"

definition late_interrupt_env :: env where
  "late_interrupt_env = \<lparr>cpu_count = 2, pool_create = None, pool_started = 0,
                          worker_exc = (\<lambda>k. if k = 0 then Some (Failure ''kernel raised'') else None),
                          finally_interrupt = True\<rparr>"

definition pool_interrupt_env :: env where
  "pool_interrupt_env = \<lparr>cpu_count = 2, pool_create = Some KeyboardInterrupt, pool_started = 1,
                          worker_exc = (\<lambda>k. None), finally_interrupt = False\<rparr>"

definition null_slice :: slice_fn where
  "null_slice startx endx starty endy nx_out ny_out m array =
     Inr (zeros ny_out nx_out, zeros ny_out nx_out)"


section \<open>Properties of the partitions\<close>

lemma length_partitions: "length (partitions nx nproc) = nat nproc"
  by (simp add: partitions_def)

lemma nth_partitions:
  "0 \<le> i \<Longrightarrow> i < nproc \<Longrightarrow>
   partitions nx nproc ! nat i = (part_start nx nproc i, part_end nx nproc i)"
  by (simp add: partitions_def)

lemma part_start_le_end:
  assumes "0 \<le> nx" "1 \<le> nproc" "0 \<le> i" "i < nproc"
  shows "part_start nx nproc i \<le> part_end nx nproc i"
proof (cases "i = nproc - 1")
  case True
  have "nx = nx div nproc * nproc + nx mod nproc" by simp
  moreover have "0 \<le> nx mod nproc" using assms by simp
  ultimately have "nx div nproc * nproc \<le> nx" by linarith
  moreover have "nx div nproc * (nproc - 1) \<le> nx div nproc * nproc"
    using assms by (intro mult_left_mono) (auto simp: pos_imp_zdiv_nonneg_iff)
  ultimately show ?thesis using True by (simp add: part_start_def part_end_def)
next
  case False
  have "0 \<le> nx div nproc" using assms by (simp add: pos_imp_zdiv_nonneg_iff)
  then have "nx div nproc * i \<le> nx div nproc * (i + 1)"
    by (intro mult_left_mono) auto
  then show ?thesis using False by (simp add: part_start_def part_end_def)
qed

lemma part_end_mono:
  assumes "0 \<le> nx" "1 \<le> nproc" "0 \<le> i" "i < k" "k < nproc"
  shows "part_end nx nproc i \<le> part_start nx nproc k"
proof -
  have q: "0 \<le> nx div nproc" using assms by (simp add: pos_imp_zdiv_nonneg_iff)
  have "i + 1 \<le> k" using assms by simp
  then have "nx div nproc * (i + 1) \<le> nx div nproc * k"
    using q by (intro mult_left_mono) auto
  then show ?thesis using assms by (simp add: part_start_def part_end_def)
qed

lemma part_cover_ex:
  assumes "0 \<le> nx" "1 \<le> nproc" "0 \<le> c" "c < nx"
  shows "\<exists>i. 0 \<le> i \<and> i < nproc \<and> part_start nx nproc i \<le> c \<and> c < part_end nx nproc i"
proof (cases "nx div nproc * (nproc - 1) \<le> c")
  case True
  then have "0 \<le> nproc - 1 \<and> nproc - 1 < nproc \<and> part_start nx nproc (nproc - 1) \<le> c
      \<and> c < part_end nx nproc (nproc - 1)"
    using assms by (simp add: part_start_def part_end_def)
  then show ?thesis by blast
next
  case False
  define q where "q = nx div nproc"
  have q0: "0 \<le> q" using assms by (simp add: q_def pos_imp_zdiv_nonneg_iff)
  have lt: "c < q * (nproc - 1)" using False by (simp add: q_def)
  have qpos: "0 < q"
  proof (rule ccontr)
    assume "\<not> 0 < q"
    then have "q = 0" using q0 by simp
    then show False using lt assms by simp
  qed
  define i where "i = c div q"
  have i0: "0 \<le> i" using assms qpos by (simp add: i_def pos_imp_zdiv_nonneg_iff)
  have lo: "q * i \<le> c"
  proof -
    have "c = q * (c div q) + c mod q" by simp
    moreover have "0 \<le> c mod q" using qpos by simp
    ultimately show ?thesis unfolding i_def by linarith
  qed
  have hi: "c < q * (i + 1)"
  proof -
    have "c = q * (c div q) + c mod q" by simp
    moreover have "c mod q < q" using qpos by simp
    ultimately have "c < q * (c div q) + q" by linarith
    then show ?thesis by (simp add: i_def algebra_simps)
  qed
  have "q * i < q * (nproc - 1)" using lo lt by simp
  then have ilt: "i < nproc - 1" using qpos by (simp add: mult_less_cancel_left_pos)
  have "part_start nx nproc i \<le> c \<and> c < part_end nx nproc i"
    using lo hi ilt by (simp add: part_start_def part_end_def q_def)
  then show ?thesis using i0 ilt by (intro exI[of _ i]) simp
qed

text \<open>
  Claim C3. For every column count \<open>nx \<ge> 0\<close> and every worker count \<open>nproc \<ge> 1\<close> the
  loop generates \<open>nproc\<close> half-open ranges \<open>[part_start i, part_end i)\<close>. The first starts
  at 0, the last ends at \<open>nx\<close>, each range ends where the next one starts, no range has a
  negative size, and every column of \<open>[0, nx)\<close> lies in exactly one range (so the ranges
  do not overlap and cover the columns exactly). Every range but the last has
  \<open>nx div nproc\<close> columns; the last one has \<open>nx div nproc + nx mod nproc\<close>, which is the
  remainder of the integer division added to the common size.
\<close>

theorem partitions_cover:
  assumes "0 \<le> nx" and "1 \<le> nproc"
  shows "length (partitions nx nproc) = nat nproc
    \<and> (\<forall>i. 0 \<le> i \<and> i < nproc \<longrightarrow>
           partitions nx nproc ! nat i = (part_start nx nproc i, part_end nx nproc i))
    \<and> part_start nx nproc 0 = 0
    \<and> part_end nx nproc (nproc - 1) = nx
    \<and> (\<forall>i. 0 \<le> i \<and> i < nproc - 1 \<longrightarrow>
           part_end nx nproc i = part_start nx nproc (i + 1))
    \<and> (\<forall>i. 0 \<le> i \<and> i < nproc \<longrightarrow>
           part_start nx nproc i \<le> part_end nx nproc i)
    \<and> (\<forall>c. 0 \<le> c \<and> c < nx \<longrightarrow>
           (\<exists>!i. 0 \<le> i \<and> i < nproc \<and>
                  part_start nx nproc i \<le> c \<and> c < part_end nx nproc i))
    \<and> (\<forall>i. 0 \<le> i \<and> i < nproc - 1 \<longrightarrow>
           part_end nx nproc i - part_start nx nproc i = nx div nproc)
    \<and> part_end nx nproc (nproc - 1) - part_start nx nproc (nproc - 1)
           = nx div nproc + nx mod nproc"
proof -
  have p1: "length (partitions nx nproc) = nat nproc"
    by (rule length_partitions)
  have p2: "\<forall>i. 0 \<le> i \<and> i < nproc \<longrightarrow>
           partitions nx nproc ! nat i = (part_start nx nproc i, part_end nx nproc i)"
    by (simp add: nth_partitions)
  have p3: "part_start nx nproc 0 = 0"
    by (simp add: part_start_def)
  have p4: "part_end nx nproc (nproc - 1) = nx"
    by (simp add: part_end_def)
  have p5: "\<forall>i. 0 \<le> i \<and> i < nproc - 1 \<longrightarrow>
           part_end nx nproc i = part_start nx nproc (i + 1)"
    by (simp add: part_start_def part_end_def)
  have p6: "\<forall>i. 0 \<le> i \<and> i < nproc \<longrightarrow>
           part_start nx nproc i \<le> part_end nx nproc i"
    using assms by (simp add: part_start_le_end)
  have p7: "\<forall>c. 0 \<le> c \<and> c < nx \<longrightarrow>
           (\<exists>!i. 0 \<le> i \<and> i < nproc \<and>
                  part_start nx nproc i \<le> c \<and> c < part_end nx nproc i)"
  proof (intro allI impI)
    fix c assume c: "0 \<le> c \<and> c < nx"
    let ?P = "\<lambda>i. 0 \<le> i \<and> i < nproc \<and> part_start nx nproc i \<le> c \<and> c < part_end nx nproc i"
    have ex: "\<exists>i. ?P i" using part_cover_ex[OF assms] c by blast
    have uniq: "i = k" if "?P i" "?P k" for i k
    proof (rule ccontr)
      assume "i \<noteq> k"
      then consider "i < k" | "k < i" by linarith
      then show False
      proof cases
        case 1
        then have "part_end nx nproc i \<le> part_start nx nproc k"
          using part_end_mono[OF assms, of i k] that by simp
        then show False using that by linarith
      next
        case 2
        then have "part_end nx nproc k \<le> part_start nx nproc i"
          using part_end_mono[OF assms, of k i] that by simp
        then show False using that by linarith
      qed
    qed
    show "\<exists>!i. ?P i" using ex uniq by blast
  qed
  have p8: "\<forall>i. 0 \<le> i \<and> i < nproc - 1 \<longrightarrow>
           part_end nx nproc i - part_start nx nproc i = nx div nproc"
    by (simp add: part_start_def part_end_def algebra_simps)
  have p9: "part_end nx nproc (nproc - 1) - part_start nx nproc (nproc - 1)
           = nx div nproc + nx mod nproc"
  proof -
    have "nx = nx div nproc * nproc + nx mod nproc" by simp
    then have "nx - nx div nproc * (nproc - 1) = nx div nproc + nx mod nproc"
      by (simp add: algebra_simps)
    then show ?thesis by (simp add: part_start_def part_end_def)
  qed
  from p1 p2 p3 p4 p5 p6 p7 p8 p9 show ?thesis by blast
qed

theorem partitions_cover_witness:
  "(0::int) \<le> 7 \<and> (1::int) \<le> 3 \<and> partitions 7 3 = [(0, 2), (2, 4), (4, 7)]
   \<and> (\<exists>!i. 0 \<le> i \<and> i < 3 \<and> part_start 7 3 i \<le> 5 \<and> 5 < part_end 7 3 i)"
proof -
  have a: "(0::int) \<le> 7" and b: "(1::int) \<le> 3" by simp_all
  have "partitions 7 3 = [(0, 2), (2, 4), (4, 7)]"
    by (simp add: partitions_def part_start_def part_end_def upto.simps)
  moreover have "\<exists>!i. 0 \<le> i \<and> i < 3 \<and> part_start 7 3 i \<le> 5 \<and> 5 < part_end 7 3 i"
    using partitions_cover[OF a b] by simp
  ultimately show ?thesis by simp
qed

section \<open>Rounding to a double\<close>

lemma pow2_powr: "pow2 e = 2 powr (real_of_int e)"
proof (cases "0 \<le> e")
  case True
  have "(2 :: real) ^ nat e = 2 powr real (nat e)" by (simp add: powr_realpow)
  also have "real (nat e) = real_of_int e" using True by simp
  finally show ?thesis using True by (simp add: pow2_def)
next
  case False
  have "1 / (2 :: real) ^ nat (- e) = 2 powr (- real (nat (- e)))"
    by (simp add: powr_minus powr_realpow divide_inverse)
  also have "- real (nat (- e)) = real_of_int e" using False by simp
  finally show ?thesis using False by (simp add: pow2_def)
qed

lemma pow2_pos: "0 < pow2 e"
  by (simp add: pow2_powr)

lemma pow2_less_iff: "pow2 a < pow2 b \<longleftrightarrow> a < b"
  by (simp add: pow2_powr)

lemma pow2_le_iff: "pow2 a \<le> pow2 b \<longleftrightarrow> a \<le> b"
  by (simp add: pow2_powr)

lemma pow2_add: "pow2 (a + b) = pow2 a * pow2 b"
  by (simp add: pow2_powr powr_add)

lemma binade_eq:
  assumes "e0 \<le> e" "e \<le> e0 + int k" "pow2 e \<le> a" "a < pow2 (e + 1)"
  shows "binade k e0 a = e"
  using assms
proof (induction k arbitrary: e0)
  case 0
  then show ?case by simp
next
  case (Suc k)
  show ?case
  proof (cases "pow2 (e0 + 1) \<le> a")
    case True
    then have "pow2 (e0 + 1) < pow2 (e + 1)" using Suc.prems(4) by simp
    then have "e0 + 1 \<le> e" by (simp add: pow2_less_iff)
    then have "binade k (e0 + 1) a = e"
      using Suc.prems by (intro Suc.IH) simp_all
    then show ?thesis using True by simp
  next
    case False
    then have "pow2 e < pow2 (e0 + 1)" using Suc.prems(3) by simp
    then have "e \<le> e0" by (simp add: pow2_less_iff)
    then show ?thesis using False Suc.prems(1) by simp
  qed
qed

lemma exponent_eqI:
  assumes "- 1022 \<le> e" "e \<le> 1023" "pow2 e \<le> a" "a < pow2 (e + 1)"
  shows "exponent a = e"
  unfolding exponent_def using assms by (intro binade_eq) simp_all

lemma binade_stay: "a < pow2 (e0 + 1) \<Longrightarrow> binade k e0 a = e0"
  by (cases k) simp_all

lemma exponent_zero: "exponent 0 = - 1022"
  unfolding exponent_def by (rule binade_stay) (simp add: pow2_pos)

lemma round_half_even_int: "round_half_even (of_int q) = q"
  by (simp add: round_half_even_def)

lemma round_double_exact:
  assumes "x = of_int q * pow2 (e - 52)" "2 ^ 52 \<le> \<bar>q\<bar>" "\<bar>q\<bar> < 2 ^ 53"
    and "- 1022 \<le> e" "e \<le> 1023"
  shows "round_double x = Finite x"
proof -
  have u: "0 < pow2 (e - 52)" by (rule pow2_pos)
  have a: "\<bar>x\<bar> = of_int \<bar>q\<bar> * pow2 (e - 52)"
    using u by (simp add: assms(1) abs_mult)
  have p52: "pow2 52 = 2 ^ 52" and p53: "pow2 53 = 2 ^ 53" by (simp_all add: pow2_def)
  have "pow2 e = pow2 (52 + (e - 52))" by simp
  also have "\<dots> = pow2 52 * pow2 (e - 52)" by (simp only: pow2_add)
  also have "\<dots> \<le> of_int \<bar>q\<bar> * pow2 (e - 52)"
  proof (rule mult_right_mono)
    have "(2 :: real) ^ 52 = of_int (2 ^ 52)" by simp
    also have "\<dots> \<le> of_int \<bar>q\<bar>" using assms(2) by (simp only: of_int_le_iff)
    finally show "pow2 52 \<le> of_int \<bar>q\<bar>" unfolding p52 .
    show "0 \<le> pow2 (e - 52)" using u by simp
  qed
  finally have lo: "pow2 e \<le> \<bar>x\<bar>" unfolding a .
  have "of_int \<bar>q\<bar> * pow2 (e - 52) < pow2 53 * pow2 (e - 52)"
  proof (rule mult_strict_right_mono)
    have "real_of_int \<bar>q\<bar> < of_int (2 ^ 53)" using assms(3) by (simp only: of_int_less_iff)
    then show "of_int \<bar>q\<bar> < pow2 53" unfolding p53 by simp
    show "0 < pow2 (e - 52)" by (rule u)
  qed
  also have "\<dots> = pow2 (53 + (e - 52))" by (simp only: pow2_add)
  also have "\<dots> = pow2 (e + 1)" by (simp add: algebra_simps)
  finally have hi: "\<bar>x\<bar> < pow2 (e + 1)" unfolding a .
  have ex: "exponent \<bar>x\<bar> = e" using assms(4,5) lo hi by (rule exponent_eqI)
  have d: "x / pow2 (e - 52) = of_int q" using u by (simp add: assms(1))
  have nq: "\<not> 2 ^ 53 \<le> \<bar>q\<bar>" using assms(3) by simp
  show ?thesis
    unfolding round_double_def ex Let_def d round_half_even_int using nq
    by (simp add: assms(1))
qed

lemma round_double_zero: "round_double 0 = Finite 0"
  by (simp add: round_double_def exponent_zero round_half_even_def)

lemma add_half_values:
  "add_half (Finite (- 2)) = Finite (- (3 / 2))"
  "add_half (Finite (- 1)) = Finite (- (1 / 2))"
  "add_half (Finite (- (1 / 2))) = Finite 0"
  "add_half (Finite 0) = Finite (1 / 2)"
  "add_half (Finite (1 / 2)) = Finite 1"
proof -
  have "round_double (- (3 / 2)) = Finite (- (3 / 2))"
    by (rule round_double_exact[where q="- 3 * 2 ^ 51" and e=0]) (simp_all add: pow2_def)
  then show "add_half (Finite (- 2)) = Finite (- (3 / 2))" by (simp add: add_half_def)
  have "round_double (- (1 / 2)) = Finite (- (1 / 2))"
    by (rule round_double_exact[where q="- (2 ^ 52)" and e="- 1"]) (simp_all add: pow2_def)
  then show "add_half (Finite (- 1)) = Finite (- (1 / 2))" by (simp add: add_half_def)
  show "add_half (Finite (- (1 / 2))) = Finite 0" by (simp add: add_half_def round_double_zero)
  have "round_double (1 / 2) = Finite (1 / 2)"
    by (rule round_double_exact[where q="2 ^ 52" and e="- 1"]) (simp_all add: pow2_def)
  then show "add_half (Finite 0) = Finite (1 / 2)" by (simp add: add_half_def)
  have "round_double 1 = Finite 1"
    by (rule round_double_exact[where q="2 ^ 52" and e=0]) (simp_all add: pow2_def)
  then show "add_half (Finite (1 / 2)) = Finite 1" by (simp add: add_half_def)
qed

text \<open>
  The double just below one half is \<open>1/2 - 2^-54\<close>, written 0.49999999999999994. Adding one
  half to it gives a number halfway between two doubles, which is rounded to 1.
\<close>

lemma add_half_below_half: "add_half (Finite (1 / 2 - 1 / 2 ^ 54)) = Finite 1"
proof -
  let ?x = "1 - 1 / 2 ^ 54 :: real"
  have ab: "\<bar>?x\<bar> = ?x" by simp
  have ex: "exponent ?x = - 1"
    by (rule exponent_eqI) (simp_all add: pow2_def)
  have q: "?x / pow2 (- 1 - 52) = 2 ^ 53 - 1 / 2" by (simp add: pow2_def)
  have fl: "\<lfloor>(2 :: real) ^ 53 - 1 / 2\<rfloor> = 2 ^ 53 - 1" by (simp add: floor_eq_iff)
  have r: "round_half_even (2 ^ 53 - 1 / 2) = 2 ^ 53"
    unfolding round_half_even_def fl by simp
  have "round_double ?x = Finite 1"
    unfolding round_double_def ab ex Let_def q r by (simp add: pow2_def)
  then show ?thesis by (simp add: add_half_def)
qed

section \<open>What the loops add to the accumulators\<close>

lemma shaped_nth: "shaped ny nx g \<Longrightarrow> a < ny \<Longrightarrow> length (g ! a) = nx"
  by (simp add: shaped_def)

lemma shaped_zeros: "shaped ny nx (zeros ny nx)"
  by (simp add: shaped_def zeros_def)

lemma zeros_nth: "a < ny \<Longrightarrow> b < nx \<Longrightarrow> zeros ny nx ! a ! b = 0"
  by (simp add: zeros_def)

lemma shaped_add_at:
  assumes "shaped ny nx g"
  shows "shaped ny nx (add_at g jj ii v)"
proof (cases "jj < length g")
  case True
  have "length ((g ! jj)[ii := g ! jj ! ii + v]) = nx"
    using assms True by (simp add: shaped_def)
  moreover have "set (g[jj := (g ! jj)[ii := g ! jj ! ii + v]])
      \<subseteq> insert ((g ! jj)[ii := g ! jj ! ii + v]) (set g)"
    by (rule set_update_subset_insert)
  ultimately show ?thesis using assms unfolding shaped_def add_at_def by auto
next
  case False
  then show ?thesis using assms by (simp add: add_at_def list_update_beyond not_less)
qed

lemma add_at_nth:
  assumes "shaped ny nx g" "a < ny" "b < nx"
  shows "add_at g jj ii v ! a ! b = g ! a ! b + (if a = jj \<and> b = ii then v else 0)"
proof (cases "a = jj")
  case True
  have la: "a < length g" using assms by (simp add: shaped_def)
  have lb: "b < length (g ! a)" using assms by (simp add: shaped_nth)
  show ?thesis using True la lb by (simp add: add_at_def nth_list_update)
next
  case False
  then show ?thesis by (simp add: add_at_def)
qed

lemma adds_add_at:
  "adds ny nx (\<lambda>acc. (add_at (fst acc) jj ii vf, add_at (snd acc) jj ii vw))
     (\<lambda>a b. if a = jj \<and> b = ii then vf else 0)
     (\<lambda>a b. if a = jj \<and> b = ii then vw else 0)"
  unfolding adds_def
proof (intro allI impI conjI)
  fix acc :: accumulators and a b
  assume sh: "shaped ny nx (fst acc) \<and> shaped ny nx (snd acc)"
  show "shaped ny nx (fst (add_at (fst acc) jj ii vf, add_at (snd acc) jj ii vw))"
    using sh by (simp add: shaped_add_at)
  show "shaped ny nx (snd (add_at (fst acc) jj ii vf, add_at (snd acc) jj ii vw))"
    using sh by (simp add: shaped_add_at)
  assume ab: "a < ny" "b < nx"
  show "fst (add_at (fst acc) jj ii vf, add_at (snd acc) jj ii vw) ! a ! b
      = fst acc ! a ! b + (if a = jj \<and> b = ii then vf else 0)"
    using sh ab add_at_nth[of ny nx "fst acc" a b jj ii vf] by simp
  show "snd (add_at (fst acc) jj ii vf, add_at (snd acc) jj ii vw) ! a ! b
      = snd acc ! a ! b + (if a = jj \<and> b = ii then vw else 0)"
    using sh ab add_at_nth[of ny nx "snd acc" a b jj ii vw] by simp
qed

lemma fdiv_fmul: "fdiv (fmul v (Fin p)) (Fin q) = fmul v (fdiv (Fin p) (Fin q))"
  by (cases v) (simp_all add: fdiv_def fmul_def)

lemma adds_dest_update:
  "adds ny nx (dest_update ov m v ilon ilat ii jj)
     (\<lambda>a b. if a = nat jj \<and> b = nat ii
             then fmul v (fdiv (Fin (ov ilon ilat (quad (xw_out m) a b) (quad (yw_out m) a b)))
                       (Fin (ov (quad (xw_out m) a b) (quad (yw_out m) a b)
                                (quad (xw_out m) a b) (quad (yw_out m) a b))))
             else 0)
     (\<lambda>a b. if a = nat jj \<and> b = nat ii
             then fdiv (Fin (ov ilon ilat (quad (xw_out m) a b) (quad (yw_out m) a b)))
                       (Fin (ov (quad (xw_out m) a b) (quad (yw_out m) a b)
                                (quad (xw_out m) a b) (quad (yw_out m) a b)))
             else 0)"
proof -
  let ?o = "ov ilon ilat (quad (xw_out m) (nat jj) (nat ii)) (quad (yw_out m) (nat jj) (nat ii))"
  let ?g = "ov (quad (xw_out m) (nat jj) (nat ii)) (quad (yw_out m) (nat jj) (nat ii))
               (quad (xw_out m) (nat jj) (nat ii)) (quad (yw_out m) (nat jj) (nat ii))"
  have d: "dest_update ov m v ilon ilat ii jj
      = (\<lambda>acc. (add_at (fst acc) (nat jj) (nat ii) (fmul v (fdiv (Fin ?o) (Fin ?g))),
                 add_at (snd acc) (nat jj) (nat ii) (fdiv (Fin ?o) (Fin ?g))))"
    by (simp add: dest_update_def Let_def fdiv_fmul fun_eq_iff)
  have e1: "(\<lambda>a b. if a = nat jj \<and> b = nat ii
             then fmul v (fdiv (Fin (ov ilon ilat (quad (xw_out m) a b) (quad (yw_out m) a b)))
                       (Fin (ov (quad (xw_out m) a b) (quad (yw_out m) a b)
                                (quad (xw_out m) a b) (quad (yw_out m) a b))))
             else 0)
      = (\<lambda>a b. if a = nat jj \<and> b = nat ii then fmul v (fdiv (Fin ?o) (Fin ?g)) else 0)"
    by (auto simp: fun_eq_iff)
  have e2: "(\<lambda>a b. if a = nat jj \<and> b = nat ii
             then fdiv (Fin (ov ilon ilat (quad (xw_out m) a b) (quad (yw_out m) a b)))
                       (Fin (ov (quad (xw_out m) a b) (quad (yw_out m) a b)
                                (quad (xw_out m) a b) (quad (yw_out m) a b)))
             else 0)
      = (\<lambda>a b. if a = nat jj \<and> b = nat ii then fdiv (Fin ?o) (Fin ?g) else 0)"
    by (auto simp: fun_eq_iff)
  show ?thesis unfolding d e1 e2 by (rule adds_add_at)
qed

lemma adds_id: "adds ny nx (\<lambda>acc. acc) (\<lambda>a b. 0) (\<lambda>a b. 0)"
  by (simp add: adds_def)

lemma adds_comp:
  assumes "adds ny nx f df dw" "adds ny nx g dg dh"
  shows "adds ny nx (\<lambda>acc. g (f acc)) (\<lambda>a b. df a b + dg a b) (\<lambda>a b. dw a b + dh a b)"
  unfolding adds_def
proof (intro allI impI)
  fix acc :: accumulators
  assume sh: "shaped ny nx (fst acc) \<and> shaped ny nx (snd acc)"
  have f: "shaped ny nx (fst (f acc)) \<and> shaped ny nx (snd (f acc)) \<and>
        (\<forall>a<ny. \<forall>b<nx. fst (f acc) ! a ! b = fst acc ! a ! b + df a b
                       \<and> snd (f acc) ! a ! b = snd acc ! a ! b + dw a b)"
    using assms(1) sh unfolding adds_def by blast
  then have g: "shaped ny nx (fst (g (f acc))) \<and> shaped ny nx (snd (g (f acc))) \<and>
        (\<forall>a<ny. \<forall>b<nx. fst (g (f acc)) ! a ! b = fst (f acc) ! a ! b + dg a b
                       \<and> snd (g (f acc)) ! a ! b = snd (f acc) ! a ! b + dh a b)"
    using assms(2) unfolding adds_def by blast
  show "shaped ny nx (fst (g (f acc))) \<and> shaped ny nx (snd (g (f acc))) \<and>
        (\<forall>a<ny. \<forall>b<nx. fst (g (f acc)) ! a ! b = fst acc ! a ! b + (df a b + dg a b)
                       \<and> snd (g (f acc)) ! a ! b = snd acc ! a ! b + (dw a b + dh a b))"
    using f g by (simp add: add.assoc)
qed

lemma adds_fold:
  assumes "\<And>x. x \<in> set xs \<Longrightarrow> adds ny nx (step x) (df x) (dw x)"
  shows "adds ny nx (fold step xs)
           (\<lambda>a b. \<Sum>x\<leftarrow>xs. df x a b) (\<lambda>a b. \<Sum>x\<leftarrow>xs. dw x a b)"
  using assms
proof (induction xs)
  case Nil
  show ?case by (simp add: adds_def)
next
  case (Cons x xs)
  have s: "adds ny nx (step x) (df x) (dw x)" using Cons.prems by simp
  have r: "adds ny nx (fold step xs) (\<lambda>a b. \<Sum>x\<leftarrow>xs. df x a b) (\<lambda>a b. \<Sum>x\<leftarrow>xs. dw x a b)"
    using Cons by simp
  have "fold step (x # xs) = (\<lambda>acc. fold step xs (step x acc))" by (simp add: fun_eq_iff)
  then show ?case using adds_comp[OF s r] by simp
qed

lemma sum_list_hit:
  assumes "0 \<le> l"
  shows "(\<Sum>k\<leftarrow>[l..u]. if a = nat k then g else (0::fnum))
       = (if l \<le> int a \<and> int a \<le> u then g else 0)"
proof -
  have "map (\<lambda>k. if a = nat k then g else 0) [l..u]
      = map (\<lambda>k. if k = int a then g else 0) [l..u]"
    using assms by (intro map_cong) auto
  then have "(\<Sum>k\<leftarrow>[l..u]. if a = nat k then g else 0)
      = (\<Sum>k\<in>set [l..u]. if k = int a then g else 0)"
    by (simp add: sum_list_distinct_conv_sum_set)
  also have "\<dots> = (if int a \<in> set [l..u] then g else 0)"
    by (simp add: sum.delta)
  finally show ?thesis by simp
qed

lemma sum_list_hit2:
  assumes "0 \<le> xmin" "0 \<le> ymin"
  shows "(\<Sum>ii\<leftarrow>[xmin..xmax]. \<Sum>jj\<leftarrow>[ymin..ymax].
            if a = nat jj \<and> b = nat ii then g else (0::fnum))
       = (if in_box (xmin, xmax, ymin, ymax) a b then g else 0)"
proof -
  have inner: "(\<Sum>jj\<leftarrow>[ymin..ymax]. if a = nat jj \<and> b = nat ii then g else 0)
      = (if b = nat ii then (if ymin \<le> int a \<and> int a \<le> ymax then g else 0) else 0)" for ii
  proof (cases "b = nat ii")
    case True
    then show ?thesis using assms(2) sum_list_hit[where l=ymin and u=ymax and a=a and g=g] by simp
  next
    case False
    then show ?thesis by simp
  qed
  show ?thesis
    unfolding inner using assms(1) sum_list_hit[where l=xmin and u=xmax and a=b] by (simp add: in_box_def)
qed

lemma adds_accumulate_box:
  assumes "0 \<le> xmin" "0 \<le> ymin"
  shows "adds ny nx (accumulate_box ov m array j i (xmin, xmax, ymin, ymax))
     (\<lambda>a b. if in_box (xmin, xmax, ymin, ymax) a b
             then fmul (array ! j ! i) (fraction ov m j i a b) else 0)
     (\<lambda>a b. if in_box (xmin, xmax, ymin, ymax) a b then fraction ov m j i a b else 0)"
proof -
  let ?ilon = "quad (xw_in m) j i" and ?ilat = "quad (yw_in m) j i"
  let ?v = "array ! j ! i"
  let ?F = "\<lambda>a b. fmul ?v (fraction ov m j i a b)"
  let ?W = "\<lambda>a b. fraction ov m j i a b"
  have inner: "adds ny nx (fold (\<lambda>jj. dest_update ov m ?v ?ilon ?ilat ii jj) [ymin..ymax])
      (\<lambda>a b. \<Sum>jj\<leftarrow>[ymin..ymax]. if a = nat jj \<and> b = nat ii then ?F a b else 0)
      (\<lambda>a b. \<Sum>jj\<leftarrow>[ymin..ymax]. if a = nat jj \<and> b = nat ii then ?W a b else 0)" for ii
    unfolding fraction_def by (rule adds_fold) (rule adds_dest_update)
  have outer: "adds ny nx
      (fold (\<lambda>ii. fold (\<lambda>jj. dest_update ov m ?v ?ilon ?ilat ii jj) [ymin..ymax]) [xmin..xmax])
      (\<lambda>a b. \<Sum>ii\<leftarrow>[xmin..xmax]. \<Sum>jj\<leftarrow>[ymin..ymax].
                if a = nat jj \<and> b = nat ii then ?F a b else 0)
      (\<lambda>a b. \<Sum>ii\<leftarrow>[xmin..xmax]. \<Sum>jj\<leftarrow>[ymin..ymax].
                if a = nat jj \<and> b = nat ii then ?W a b else 0)"
    by (rule adds_fold) (rule inner)
  have "accumulate_box ov m array j i (xmin, xmax, ymin, ymax)
      = fold (\<lambda>ii. fold (\<lambda>jj. dest_update ov m ?v ?ilon ?ilat ii jj) [ymin..ymax]) [xmin..xmax]"
    by (simp add: accumulate_box_def fun_eq_iff)
  then show ?thesis using outer by (simp add: sum_list_hit2[OF assms])
qed

lemma clip_box_bounds:
  assumes "clip_box nx_out ny_out bx = (x0, x1, y0, y1)"
  shows "0 \<le> x0 \<and> x1 \<le> int nx_out - 1 \<and> 0 \<le> y0 \<and> y1 \<le> int ny_out - 1"
  using assms by (cases bx) (auto simp: clip_box_def)

lemma in_box_clip_in_range:
  assumes "in_box (clip_box nx_out ny_out bx) jj ii"
  shows "jj < ny_out \<and> ii < nx_out"
  using assms by (cases bx) (auto simp: clip_box_def in_box_def)

lemma adds_accumulate_clipped:
  "adds ny nx (accumulate_box ov m array j i (clip_box nx_out ny_out bx))
     (flux_term (clip_box nx_out ny_out bx) ov m array j i)
     (weight_term (clip_box nx_out ny_out bx) ov m j i)"
proof -
  obtain x0 x1 y0 y1 where c: "clip_box nx_out ny_out bx = (x0, x1, y0, y1)"
    by (cases "clip_box nx_out ny_out bx") auto
  have nn: "0 \<le> x0" "0 \<le> y0" using clip_box_bounds[OF c] by simp_all
  have f: "flux_term (x0, x1, y0, y1) ov m array j i
      = (\<lambda>a b. if in_box (x0, x1, y0, y1) a b
                then fmul (array ! j ! i) (fraction ov m j i a b) else 0)"
    by (simp add: flux_term_def fun_eq_iff)
  have w: "weight_term (x0, x1, y0, y1) ov m j i
      = (\<lambda>a b. if in_box (x0, x1, y0, y1) a b then fraction ov m j i a b else 0)"
    by (simp add: weight_term_def fun_eq_iff)
  show ?thesis unfolding c f w by (rule adds_accumulate_box[OF nn])
qed

lemma spec_dest_update_eq:
  "spec_dest_update ov m v j i ii
     = dest_update ov m v (quad (xw_in m) j i) (quad (yw_in m) j i) ii"
  by (simp add: spec_dest_update_def dest_update_def Let_def fraction_def fdiv_fmul fun_eq_iff)

lemma spec_pixel_eq:
  "spec_pixel ov m array nx_out ny_out i j
     = accumulate_box ov m array j i
         (clip_box nx_out ny_out (spec_box (xp_inout m) (yp_inout m) j i))"
proof -
  obtain x0 x1 y0 y1
    where c: "clip_box nx_out ny_out (spec_box (xp_inout m) (yp_inout m) j i) = (x0, x1, y0, y1)"
    by (cases "clip_box nx_out ny_out (spec_box (xp_inout m) (yp_inout m) j i)") auto
  have e: "fold (\<lambda>ii. fold (\<lambda>jj. f ii jj) [y0..y1]) [x0..x1] acc = acc"
    if "x1 < x0 \<or> y1 < y0" for f :: "int \<Rightarrow> int \<Rightarrow> accumulators \<Rightarrow> accumulators" and acc
  proof (cases "x1 < x0")
    case True
    then show ?thesis by simp
  next
    case False
    then have "y1 < y0" using that by simp
    then have "fold (\<lambda>jj. f ii jj) [y0..y1] = id" for ii by (simp add: fun_eq_iff)
    then show ?thesis by (simp add: fold_id)
  qed
  show ?thesis
    unfolding fun_eq_iff spec_pixel_def accumulate_box_def c
    by (auto simp: Let_def spec_dest_update_eq e)
qed

lemma adds_spec_pixel:
  "adds ny nx (spec_pixel ov m array nx_out ny_out i j)
     (flux_term (kernel_box m nx_out ny_out j i) ov m array j i)
     (weight_term (kernel_box m nx_out ny_out j i) ov m j i)"
  unfolding spec_pixel_eq kernel_box_def by (rule adds_accumulate_clipped)

lemma adds_apply_zero:
  assumes "adds ny nx f df dw"
  shows "shaped ny nx (fst (f (zeros ny nx, zeros ny nx)))
       \<and> shaped ny nx (snd (f (zeros ny nx, zeros ny nx)))
       \<and> (\<forall>a<ny. \<forall>b<nx. fst (f (zeros ny nx, zeros ny nx)) ! a ! b = df a b
                      \<and> snd (f (zeros ny nx, zeros ny nx)) ! a ! b = dw a b)"
proof -
  have "shaped ny nx (fst (zeros ny nx, zeros ny nx)) \<and> shaped ny nx (snd (zeros ny nx, zeros ny nx))"
    by (simp add: shaped_zeros)
  then have "shaped ny nx (fst (f (zeros ny nx, zeros ny nx)))
       \<and> shaped ny nx (snd (f (zeros ny nx, zeros ny nx)))
       \<and> (\<forall>a<ny. \<forall>b<nx. fst (f (zeros ny nx, zeros ny nx)) ! a ! b
                          = fst (zeros ny nx, zeros ny nx) ! a ! b + df a b
                      \<and> snd (f (zeros ny nx, zeros ny nx)) ! a ! b
                          = snd (zeros ny nx, zeros ny nx) ! a ! b + dw a b)"
    using assms unfolding adds_def by blast
  then show ?thesis by (simp add: zeros_nth)
qed

lemma adds_kernel_loops:
  "adds ny_out nx_out
     (fold (\<lambda>i. fold (\<lambda>j. spec_pixel ov m array nx_out ny_out (nat i) j) [starty..<endy]) cs)
     (\<lambda>a b. \<Sum>i\<leftarrow>cs. \<Sum>j\<leftarrow>[starty..<endy].
               flux_term (kernel_box m nx_out ny_out j (nat i)) ov m array j (nat i) a b)
     (\<lambda>a b. \<Sum>i\<leftarrow>cs. \<Sum>j\<leftarrow>[starty..<endy].
               weight_term (kernel_box m nx_out ny_out j (nat i)) ov m j (nat i) a b)"
  by (rule adds_fold, rule adds_fold, rule adds_spec_pixel)

lemma aligned_maps_eq:
  "aligned_maps = \<lparr>xp_inout = [[Finite (- (1 / 2)), Finite (1 / 2)],
                                [Finite (- (1 / 2)), Finite (1 / 2)]],
     yp_inout = [[Finite (- (1 / 2)), Finite (- (1 / 2))], [Finite (1 / 2), Finite (1 / 2)]],
     xw_in = [[- (1 / 2), 1 / 2], [- (1 / 2), 1 / 2]],
     yw_in = [[- (1 / 2), - (1 / 2)], [1 / 2, 1 / 2]],
     xw_out = [[- (1 / 2), 1 / 2], [- (1 / 2), 1 / 2]],
     yw_out = [[- (1 / 2), - (1 / 2)], [1 / 2, 1 / 2]]\<rparr>"
  by (simp add: aligned_maps_def coordinate_mapper_def meshgrid_def arange_half_def
      apply_grid_def identity_wcs_def same_frame_def upt_conv_Cons)

lemma shifted_maps_eq:
  "shifted_maps = \<lparr>xp_inout = [[Finite (- 2), Finite (- 1)], [Finite (- 2), Finite (- 1)]],
     yp_inout = [[Finite (- (1 / 2)), Finite (- (1 / 2))], [Finite (1 / 2), Finite (1 / 2)]],
     xw_in = [[- (1 / 2), 1 / 2], [- (1 / 2), 1 / 2]],
     yw_in = [[- (1 / 2), - (1 / 2)], [1 / 2, 1 / 2]],
     xw_out = [[1, 2], [1, 2]],
     yw_out = [[- (1 / 2), - (1 / 2)], [1 / 2, 1 / 2]]\<rparr>"
  by (simp add: shifted_maps_def coordinate_mapper_def meshgrid_def arange_half_def
      apply_grid_def identity_wcs_def shifted_wcs_def same_frame_def upt_conv_Cons)

lemma shaped_grid_div:
  assumes "shaped ny nx f" "shaped ny nx w"
  shows "shaped ny nx (grid_div f w)"
  using assms unfolding shaped_def grid_div_def
  by (auto simp: in_set_zip)

lemma grid_div_nth:
  assumes "shaped ny nx f" "shaped ny nx w" "a < ny" "b < nx"
  shows "grid_div f w ! a ! b = fdiv (f ! a ! b) (w ! a ! b)"
proof -
  have "length f = ny" "length w = ny" using assms by (simp_all add: shaped_def)
  moreover have "length (f ! a) = nx" "length (w ! a) = nx"
    using assms by (simp_all add: shaped_nth)
  ultimately show ?thesis using assms by (simp add: grid_div_def)
qed

lemma fdiv_cases:
  "fdiv x 0 = NonFin"
  "w \<noteq> 0 \<Longrightarrow> fdiv (Fin f) (Fin w) = Fin (f / w)"
  "fdiv x y = NonFin \<longleftrightarrow> x = NonFin \<or> y = NonFin \<or> y = 0"
  by (cases x; cases y; simp add: fdiv_def zero_fnum_def)+

section \<open>The candidate box in the loop of the source file\<close>

lemma offset_maps_eq:
  "offset_maps = \<lparr>xp_inout = [[Finite (- 2), Finite (- 1), Finite 0],
                               [Finite (- 2), Finite (- 1), Finite 0]],
     yp_inout = [[Finite (- (1 / 2)), Finite (- (1 / 2)), Finite (- (1 / 2))],
                 [Finite (1 / 2), Finite (1 / 2), Finite (1 / 2)]],
     xw_in = [[- (1 / 2), 1 / 2, 3 / 2], [- (1 / 2), 1 / 2, 3 / 2]],
     yw_in = [[- (1 / 2), - (1 / 2), - (1 / 2)], [1 / 2, 1 / 2, 1 / 2]],
     xw_out = [[1, 2], [1, 2]],
     yw_out = [[- (1 / 2), - (1 / 2)], [1 / 2, 1 / 2]]\<rparr>"
  by (simp add: offset_maps_def coordinate_mapper_def meshgrid_def arange_half_def
      apply_grid_def identity_wcs_def shifted_wcs_def same_frame_def upt_conv_Cons)

lemma halved_maps_eq:
  "halved_maps = \<lparr>xp_inout = [[Finite (- (1 / 2)), Finite 0, Finite (1 / 2)],
                               [Finite (- (1 / 2)), Finite 0, Finite (1 / 2)]],
     yp_inout = [[Finite (- (1 / 2)), Finite (- (1 / 2)), Finite (- (1 / 2))],
                 [Finite (1 / 2), Finite (1 / 2), Finite (1 / 2)]],
     xw_in = [[- (1 / 2), 1 / 2, 3 / 2], [- (1 / 2), 1 / 2, 3 / 2]],
     yw_in = [[- (1 / 2), - (1 / 2), - (1 / 2)], [1 / 2, 1 / 2, 1 / 2]],
     xw_out = [[- (1 / 2), 3 / 2], [- (1 / 2), 3 / 2]],
     yw_out = [[- (1 / 2), - (1 / 2)], [1 / 2, 1 / 2]]\<rparr>"
  by (simp add: halved_maps_def coordinate_mapper_def meshgrid_def arange_half_def
      apply_grid_def identity_wcs_def halved_wcs_def same_frame_def upt_conv_Cons)

lemma py_min4_finite:
  "py_min4 (Finite a) (Finite b) (Finite c) (Finite d) = Finite (min a (min b (min c d)))"
  by (simp add: py_min4_def py_less_def min_def)

lemma py_max4_finite:
  "py_max4 (Finite a) (Finite b) (Finite c) (Finite d) = Finite (max a (max b (max c d)))"
  by (simp add: py_max4_def py_less_def max_def)

lemma py_int_values:
  "py_int (Finite (- (3 / 2))) = Inr (- 1)"
  "py_int (Finite (- (1 / 2))) = Inr 0"
  "py_int (Finite 0) = Inr 0"
  "py_int (Finite (1 / 2)) = Inr 0"
  "py_int (Finite 1) = Inr 1"
  by (simp_all add: py_int_def ceiling_def)

lemma bounding_box_aligned:
  "bounding_box (xp_inout aligned_maps) (yp_inout aligned_maps) 0 0 = Inr (0, 1, 0, 1)"
  unfolding aligned_maps_eq
  by (simp add: bounding_box_def py_min4_finite py_max4_finite add_half_values py_int_values)

lemma bounding_box_offset:
  "bounding_box (xp_inout offset_maps) (yp_inout offset_maps) 0 0 = Inr (- 1, 0, 0, 1)"
  "bounding_box (xp_inout offset_maps) (yp_inout offset_maps) 0 (Suc 0) = Inr (0, 0, 0, 1)"
  unfolding offset_maps_eq
  by (simp_all add: bounding_box_def py_min4_finite py_max4_finite add_half_values py_int_values)

lemma legacy_aligned:
  "reproject_legacy unit_overlap aligned_maps [[v]] 1 1 1 1
     = Inr ([[fdiv v (Fin 1)]], [[Fin 1]])"
  by (cases v)
     (simp_all add: reproject_legacy_def legacy_accumulate_def legacy_pixel_def
      bounding_box_aligned clip_box_def accumulate_box_def dest_update_def Let_def
      unit_overlap_def add_at_def zeros_def fdiv_def fmul_def plus_fnum_def zero_fnum_def
      grid_div_def)

lemma legacy_offset:
  "map_sum id fst (reproject_legacy ov offset_maps [[NonFin, Fin 5]] 1 2 1 1) = Inr [[NonFin]]"
  by (simp add: reproject_legacy_def legacy_accumulate_def legacy_pixel_def
      bounding_box_offset clip_box_def accumulate_box_def dest_update_def Let_def
      add_at_def zeros_def fdiv_def fmul_def plus_fnum_def zero_fnum_def
      grid_div_def upt_conv_Cons split: fnum.splits)

lemma legacy_offset_unit:
  "reproject_legacy unit_overlap offset_maps [[NonFin, Fin 5]] 1 2 1 1
     = Inr ([[NonFin]], [[Fin 2]])"
  by (simp add: reproject_legacy_def legacy_accumulate_def legacy_pixel_def
      bounding_box_offset clip_box_def accumulate_box_def dest_update_def Let_def
      unit_overlap_def add_at_def zeros_def fdiv_def fmul_def plus_fnum_def zero_fnum_def
      grid_div_def upt_conv_Cons)

lemma py_int_nonfinite:
  "py_int NaN = Inl ValueError"
  "py_int PosInf = Inl OverflowError"
  "py_int NegInf = Inl OverflowError"
  by (simp_all add: py_int_def)

lemma add_half_nonfinite:
  "add_half NaN = NaN" "add_half PosInf = PosInf" "add_half NegInf = NegInf"
  by (simp_all add: add_half_def)

text \<open>
  With a NaN among the corners the least and the greatest depend on the order: a NaN in
  the first place stays, a NaN in a later place is passed over.
\<close>

lemma py_min4_nan:
  "py_min4 NaN b c d = NaN"
  "py_min4 (Finite a) NaN NaN NaN = Finite a"
  "py_max4 NaN b c d = NaN"
  "py_max4 (Finite a) NaN NaN NaN = Finite a"
  by (simp_all add: py_min4_def py_max4_def py_less_def split: pyfloat.splits)

lemma bounding_box_nan_first:
  assumes "xp ! j ! i = NaN"
  shows "bounding_box xp yp j i = Inl ValueError"
  using assms by (simp add: bounding_box_def py_min4_nan add_half_nonfinite py_int_nonfinite)

lemma legacy_pixel_raises:
  assumes "bounding_box (xp_inout m) (yp_inout m) j i = Inl e"
  shows "legacy_pixel ov m array nx_out ny_out i j acc = Inl e"
  using assms by (simp add: legacy_pixel_def)

lemma accumulate_box_empty:
  assumes "xmax < xmin \<or> ymax < ymin"
  shows "accumulate_box ov m array j i (xmin, xmax, ymin, ymax) acc = acc"
proof (cases "xmax < xmin")
  case True
  then show ?thesis by (simp add: accumulate_box_def)
next
  case False
  then have "ymax < ymin" using assms by simp
  then have "fold (\<lambda>jj. f ii jj) [ymin..ymax] = id"
    for f :: "int \<Rightarrow> int \<Rightarrow> accumulators \<Rightarrow> accumulators" and ii
    by (simp add: fun_eq_iff)
  then show ?thesis by (simp add: accumulate_box_def Let_def fold_id)
qed

text \<open>
  With a destination projection that places every source corner at NaN, line 126 ends
  the function with \<^verbatim>\<open>ValueError\<close>; with one that places them at \<open>+inf\<close> along x, with
  \<^verbatim>\<open>OverflowError\<close>.
\<close>

lemma blind_raises:
  "reproject_legacy ov (coordinate_mapper identity_wcs blind_wcs same_frame 1 1 1 1) [[Fin 3]] 1 1 1 1
     = Inl ValueError"
proof -
  let ?m = "coordinate_mapper identity_wcs blind_wcs same_frame 1 1 1 1"
  have "xp_inout ?m ! 0 ! 0 = NaN"
    by (simp add: coordinate_mapper_def meshgrid_def arange_half_def apply_grid_def
        identity_wcs_def blind_wcs_def same_frame_def upt_conv_Cons)
  then have "bounding_box (xp_inout ?m) (yp_inout ?m) 0 0 = Inl ValueError"
    by (rule bounding_box_nan_first)
  then show ?thesis
    by (simp add: reproject_legacy_def legacy_accumulate_def legacy_pixel_def)
qed

lemma far_raises:
  "reproject_legacy ov (coordinate_mapper identity_wcs far_wcs same_frame 1 1 1 1) [[Fin 3]] 1 1 1 1
     = Inl OverflowError"
proof -
  let ?m = "coordinate_mapper identity_wcs far_wcs same_frame 1 1 1 1"
  have "xp_inout ?m = [[PosInf, PosInf], [PosInf, PosInf]]"
    by (simp add: coordinate_mapper_def meshgrid_def arange_half_def apply_grid_def
        identity_wcs_def far_wcs_def same_frame_def upt_conv_Cons)
  then have "bounding_box (xp_inout ?m) (yp_inout ?m) 0 0 = Inl OverflowError"
    by (simp add: bounding_box_def py_min4_def py_less_def add_half_nonfinite py_int_nonfinite)
  then show ?thesis
    by (simp add: reproject_legacy_def legacy_accumulate_def legacy_pixel_def)
qed

text \<open>
  When no box raises, the loops of lines 119--155 add, for every source pixel and every
  destination pixel of its clipped box, the fraction to the weight sum and the fraction
  times the source value to the flux sum. The flux sum is then non-finite wherever the
  weight sum is.
\<close>

lemma for_loop_fold:
  assumes "for_loop body xs s = Inr s'"
    and "\<And>x t t'. x \<in> set xs \<Longrightarrow> body x t = Inr t' \<Longrightarrow> t' = f x t"
  shows "s' = fold f xs s"
  using assms
proof (induction xs arbitrary: s)
  case Nil
  then show ?case by simp
next
  case (Cons x xs)
  from Cons.prems(1) obtain t where t: "body x s = Inr t" "for_loop body xs t = Inr s'"
    by (cases "body x s") simp_all
  have "t = f x s" using Cons.prems(2)[of x s t] t(1) by simp
  moreover have "s' = fold f xs t"
    using t(2) Cons.prems(2) by (intro Cons.IH) simp_all
  ultimately show ?case by simp
qed

lemma legacy_pixel_Inr:
  assumes "legacy_pixel ov m array nx_out ny_out i j acc = Inr acc'"
  shows "acc' = accumulate_box ov m array j i (legacy_box m nx_out ny_out j i) acc"
  using assms by (auto simp: legacy_pixel_def legacy_box_def split: sum.splits)

lemma legacy_accumulate_Inr:
  assumes "legacy_accumulate ov m array ny_in nx_in ny_out nx_out = Inr acc"
  shows "acc = fold (\<lambda>i. fold (\<lambda>j. accumulate_box ov m array j i (legacy_box m nx_out ny_out j i))
                            [0..<ny_in])
                 [0..<nx_in] (zeros ny_out nx_out, zeros ny_out nx_out)"
  using assms unfolding legacy_accumulate_def
proof (rule for_loop_fold)
  fix i t t'
  assume "for_loop (\<lambda>j. legacy_pixel ov m array nx_out ny_out i j) [0..<ny_in] t = Inr t'"
  then show "t' = fold (\<lambda>j. accumulate_box ov m array j i (legacy_box m nx_out ny_out j i))
                    [0..<ny_in] t"
    by (rule for_loop_fold) (rule legacy_pixel_Inr)
qed

lemma adds_legacy_step:
  "adds ny nx (accumulate_box ov m array j i (legacy_box m nx_out ny_out j i))
     (flux_term (legacy_box m nx_out ny_out j i) ov m array j i)
     (weight_term (legacy_box m nx_out ny_out j i) ov m j i)"
  unfolding legacy_box_def by (rule adds_accumulate_clipped)

lemma adds_legacy_loops:
  "adds ny_out nx_out
     (fold (\<lambda>i. fold (\<lambda>j. accumulate_box ov m array j i (legacy_box m nx_out ny_out j i))
                   [0..<ny_in]) [0..<nx_in])
     (\<lambda>a b. \<Sum>i\<leftarrow>[0..<nx_in]. \<Sum>j\<leftarrow>[0..<ny_in].
               flux_term (legacy_box m nx_out ny_out j i) ov m array j i a b)
     (\<lambda>a b. \<Sum>i\<leftarrow>[0..<nx_in]. \<Sum>j\<leftarrow>[0..<ny_in].
               weight_term (legacy_box m nx_out ny_out j i) ov m j i a b)"
  by (rule adds_fold, rule adds_fold, rule adds_legacy_step)

lemma legacy_accumulate_nth:
  assumes "legacy_accumulate ov m array ny_in nx_in ny_out nx_out = Inr acc"
    and "a < ny_out" "b < nx_out"
  shows "fst acc ! a ! b
       = (\<Sum>i\<leftarrow>[0..<nx_in]. \<Sum>j\<leftarrow>[0..<ny_in].
            flux_term (legacy_box m nx_out ny_out j i) ov m array j i a b)"
    and "snd acc ! a ! b
       = (\<Sum>i\<leftarrow>[0..<nx_in]. \<Sum>j\<leftarrow>[0..<ny_in].
            weight_term (legacy_box m nx_out ny_out j i) ov m j i a b)"
  unfolding legacy_accumulate_Inr[OF assms(1)]
  using adds_apply_zero[OF adds_legacy_loops, of ny_out nx_out ov m array ny_in nx_in] assms(2,3)
  by simp_all

lemma sum_list_NonFin: "sum_list xs = NonFin \<longleftrightarrow> NonFin \<in> set xs"
proof (induction xs)
  case Nil
  show ?case by (simp add: zero_fnum_def)
next
  case (Cons x xs)
  show ?case using Cons.IH by (cases x; cases "sum_list xs") (auto simp: plus_fnum_def)
qed

lemma sum_list_map_NonFin:
  "(\<Sum>x\<leftarrow>xs. f x) = NonFin \<longleftrightarrow> (\<exists>x\<in>set xs. f x = NonFin)"
  unfolding sum_list_NonFin by (metis (no_types) image_iff list.set_map)

lemma flux_term_NonFin:
  "weight_term bx ov m j i a b = NonFin \<Longrightarrow> flux_term bx ov m array j i a b = NonFin"
  by (auto simp: weight_term_def flux_term_def fmul_def zero_fnum_def split: if_splits fnum.splits)

lemma accumulate_nonfin:
  assumes "legacy_accumulate ov m array ny_in nx_in ny_out nx_out = Inr acc"
    and "a < ny_out" "b < nx_out"
    and "snd acc ! a ! b = NonFin"
  shows "fst acc ! a ! b = NonFin"
proof -
  have "(\<Sum>i\<leftarrow>[0..<nx_in]. \<Sum>j\<leftarrow>[0..<ny_in].
            weight_term (legacy_box m nx_out ny_out j i) ov m j i a b) = NonFin"
    using assms(4) legacy_accumulate_nth(2)[OF assms(1,2,3)] by simp
  then obtain i where i: "i \<in> set [0..<nx_in]"
      "(\<Sum>j\<leftarrow>[0..<ny_in]. weight_term (legacy_box m nx_out ny_out j i) ov m j i a b) = NonFin"
    unfolding sum_list_map_NonFin by blast
  from i(2) obtain j where j: "j \<in> set [0..<ny_in]"
      "weight_term (legacy_box m nx_out ny_out j i) ov m j i a b = NonFin"
    unfolding sum_list_map_NonFin by blast
  have "flux_term (legacy_box m nx_out ny_out j i) ov m array j i a b = NonFin"
    using j(2) by (rule flux_term_NonFin)
  then have "(\<Sum>j\<leftarrow>[0..<ny_in]. flux_term (legacy_box m nx_out ny_out j i) ov m array j i a b) = NonFin"
    unfolding sum_list_map_NonFin using j(1) by blast
  then have "(\<Sum>i\<leftarrow>[0..<nx_in]. \<Sum>j\<leftarrow>[0..<ny_in].
            flux_term (legacy_box m nx_out ny_out j i) ov m array j i a b) = NonFin"
    unfolding sum_list_map_NonFin using i(1) by blast
  then show ?thesis using legacy_accumulate_nth(1)[OF assms(1,2,3)] by simp
qed

section \<open>The corner grids\<close>

lemma shaped_meshgrid:
  "shaped (length y) (length x) (fst (meshgrid x y))"
  "shaped (length y) (length x) (snd (meshgrid x y))"
  by (auto simp: meshgrid_def shaped_def)

lemma meshgrid_nth:
  assumes "j < length y" "i < length x"
  shows "fst (meshgrid x y) ! j ! i = x ! i" "snd (meshgrid x y) ! j ! i = y ! j"
  using assms by (simp_all add: meshgrid_def)

lemma arange_half_nth: "k \<le> n \<Longrightarrow> arange_half n ! k = real k - 1 / 2"
  unfolding arange_half_def by (simp add: nth_map_upt del: upt_Suc)

lemma length_arange_half: "length (arange_half n) = n + 1"
  by (simp add: arange_half_def)

lemma shaped_map2:
  assumes "shaped ny nx xg" "shaped ny nx yg"
  shows "shaped ny nx (map2 (map2 f) xg yg)"
  using assms unfolding shaped_def by (auto simp: in_set_zip)

lemma map2_nth:
  assumes "shaped ny nx xg" "shaped ny nx yg" "j < ny" "i < nx"
  shows "map2 (map2 f) xg yg ! j ! i = f (xg ! j ! i) (yg ! j ! i)"
proof -
  have "length xg = ny" "length yg = ny" using assms by (simp_all add: shaped_def)
  moreover have "length (xg ! j) = nx" "length (yg ! j) = nx"
    using assms by (simp_all add: shaped_nth)
  ultimately show ?thesis using assms by simp
qed

lemma shaped_apply_grid:
  assumes "shaped ny nx xg" "shaped ny nx yg"
  shows "shaped ny nx (fst (apply_grid f xg yg))" "shaped ny nx (snd (apply_grid f xg yg))"
  using assms by (simp_all add: apply_grid_def shaped_map2)

lemma apply_grid_nth:
  assumes "shaped ny nx xg" "shaped ny nx yg" "j < ny" "i < nx"
  shows "(fst (apply_grid f xg yg) ! j ! i, snd (apply_grid f xg yg) ! j ! i)
       = f (xg ! j ! i) (yg ! j ! i)"
  using assms by (simp add: apply_grid_def map2_nth)

lemma shaped_corner_grid:
  "shaped (ny + 1) (nx + 1) (fst (corner_grid ny nx))"
  "shaped (ny + 1) (nx + 1) (snd (corner_grid ny nx))"
  using shaped_meshgrid[of "arange_half ny" "arange_half nx"]
  by (simp_all add: corner_grid_def length_arange_half)

lemma corner_grid_nth:
  assumes "j \<le> ny" "i \<le> nx"
  shows "fst (corner_grid ny nx) ! j ! i = real i - 1 / 2"
    and "snd (corner_grid ny nx) ! j ! i = real j - 1 / 2"
  using assms by (simp_all add: corner_grid_def meshgrid_nth length_arange_half arange_half_nth)

lemma coordinate_mapper_fields:
  "xw_out (coordinate_mapper wi wo cv ny_in nx_in ny_out nx_out)
     = fst (apply_grid (pix2world wo) (fst (corner_grid ny_out nx_out)) (snd (corner_grid ny_out nx_out)))"
  "yw_out (coordinate_mapper wi wo cv ny_in nx_in ny_out nx_out)
     = snd (apply_grid (pix2world wo) (fst (corner_grid ny_out nx_out)) (snd (corner_grid ny_out nx_out)))"
  "xw_in (coordinate_mapper wi wo cv ny_in nx_in ny_out nx_out)
     = fst (apply_grid cv
         (fst (apply_grid (pix2world wi) (fst (corner_grid ny_in nx_in)) (snd (corner_grid ny_in nx_in))))
         (snd (apply_grid (pix2world wi) (fst (corner_grid ny_in nx_in)) (snd (corner_grid ny_in nx_in)))))"
  "yw_in (coordinate_mapper wi wo cv ny_in nx_in ny_out nx_out)
     = snd (apply_grid cv
         (fst (apply_grid (pix2world wi) (fst (corner_grid ny_in nx_in)) (snd (corner_grid ny_in nx_in))))
         (snd (apply_grid (pix2world wi) (fst (corner_grid ny_in nx_in)) (snd (corner_grid ny_in nx_in)))))"
  "xp_inout (coordinate_mapper wi wo cv ny_in nx_in ny_out nx_out)
     = fst (apply_grid (world2pix wo)
         (xw_in (coordinate_mapper wi wo cv ny_in nx_in ny_out nx_out))
         (yw_in (coordinate_mapper wi wo cv ny_in nx_in ny_out nx_out)))"
  "yp_inout (coordinate_mapper wi wo cv ny_in nx_in ny_out nx_out)
     = snd (apply_grid (world2pix wo)
         (xw_in (coordinate_mapper wi wo cv ny_in nx_in ny_out nx_out))
         (yw_in (coordinate_mapper wi wo cv ny_in nx_in ny_out nx_out)))"
  by (simp_all add: coordinate_mapper_def corner_grid_def Let_def split_beta)

section \<open>The paths through the entry point\<close>

lemma resolve_nproc_simps:
  "resolve_nproc PyOther = Inl TypeError"
  "resolve_nproc (PyInt n) = (if n \<le> 0 then Inl ValueError else Inr (Some n))"
  "resolve_nproc (PyBool b) = Inr (if b then None else Some 1)"
  by (simp_all add: resolve_nproc_def)

lemma reproject_celestial_bad_flag:
  "resolve_nproc parallel = Inl e \<Longrightarrow>
   reproject_celestial env ov cv slice array wi wo shape parallel method = ([], Inl e)"
  by (simp add: reproject_celestial_def)

lemma reproject_celestial_naxis:
  "resolve_nproc parallel = Inr nproc \<Longrightarrow> naxis wi \<noteq> 2 \<Longrightarrow>
   reproject_celestial env ov cv slice array wi wo shape parallel method
     = ([EvAstype], Inl NotImplementedError)"
  by (simp add: reproject_celestial_def)

lemma reproject_celestial_serial:
  assumes "resolve_nproc parallel = Inr (Some 1)" "naxis wi = 2"
  shows "reproject_celestial env ov cv slice array wi wo shape parallel ''c''
     = (prelude array shape @ fst (serial_impl (bound_kernel slice cv array wi wo shape) (int (cols array))),
        snd (serial_impl (bound_kernel slice cv array wi wo shape) (int (cols array))))"
  using assms by (simp add: reproject_celestial_def Let_def bound_kernel_def prelude_def)

lemma reproject_celestial_parallel:
  assumes "resolve_nproc parallel = Inr nproc" "naxis wi = 2"
    and "nproc = None \<or> (\<exists>n. nproc = Some n \<and> 1 < n)"
  shows "reproject_celestial env ov cv slice array wi wo shape parallel ''c''
     = (prelude array shape
          @ fst (run_parallel env (bound_kernel slice cv array wi wo shape) nproc (int (cols array))),
        snd (run_parallel env (bound_kernel slice cv array wi wo shape) nproc (int (cols array))))"
  using assms by (auto simp: reproject_celestial_def Let_def bound_kernel_def prelude_def)

lemma reproject_celestial_unknown:
  assumes "resolve_nproc parallel = Inr nproc" "naxis wi = 2"
    and "method \<noteq> ''legacy''" "method \<noteq> ''c''"
  shows "reproject_celestial env ov cv slice array wi wo shape parallel method
     = (prelude array shape, Inl ValueError)"
  using assms by (simp add: reproject_celestial_def Let_def prelude_def)

lemma parallel_impl_auto:
  "parallel_impl env kern None nx
     = (EvCpuCount # fst (parallel_impl env kern (Some (cpu_count env)) nx),
        snd (parallel_impl env kern (Some (cpu_count env)) nx))"
  by (simp add: parallel_impl_def Let_def finally_block_def split: option.splits exn.splits)

lemma parallel_impl_no_pool:
  assumes "1 \<le> n" "pool_create env = Some e"
  shows "parallel_impl env kern (Some n) nx = ([EvPoolFailed (pool_started env)], Inl e)"
  using assms by (simp add: parallel_impl_def)

lemma parallel_impl_interrupt:
  assumes "1 \<le> n" "pool_create env = None"
    and "first_error (outcomes env kern nx n) = Some KeyboardInterrupt"
  shows "parallel_impl env kern (Some n) nx
     = (dispatch nx n @ [EvTerminate, EvJoin], Inl KeyboardInterrupt)"
  using assms by (simp add: parallel_impl_def Let_def dispatch_def outcomes_def)

lemma parallel_impl_blocked:
  assumes "1 \<le> n" "pool_create env = None"
    and "first_error (outcomes env kern nx n) = Some Blocked"
  shows "parallel_impl env kern (Some n) nx = (dispatch nx n, Inl Blocked)"
  using assms by (simp add: parallel_impl_def Let_def dispatch_def outcomes_def)

lemma parallel_impl_raised:
  assumes "1 \<le> n" "pool_create env = None"
    and "first_error (outcomes env kern nx n) = Some e"
    and "e \<noteq> KeyboardInterrupt" "e \<noteq> Blocked"
  shows "parallel_impl env kern (Some n) nx
     = finally_block env (outcomes env kern nx n) (dispatch nx n) (Inl e)"
  using assms by (cases e) (simp_all add: parallel_impl_def Let_def dispatch_def outcomes_def)

lemma parallel_impl_fetched:
  assumes "1 \<le> n" "pool_create env = None"
    and "first_error (outcomes env kern nx n) = None"
  shows "parallel_impl env kern (Some n) nx
     = finally_block env (outcomes env kern nx n) (dispatch nx n)
         (Inr (grid_div (sum_grids (map fst (rights (outcomes env kern nx n))))
                        (sum_grids (map snd (rights (outcomes env kern nx n)))),
               sum_grids (map snd (rights (outcomes env kern nx n)))))"
  using assms by (simp add: parallel_impl_def Let_def dispatch_def outcomes_def)

lemma finally_block_quiet:
  assumes "\<not> finally_interrupt env" "Inl Blocked \<notin> set outs"
  shows "finally_block env outs tr r = (tr @ [EvClose, EvJoin], r)"
  using assms by (simp add: finally_block_def)

lemma finally_block_interrupt:
  assumes "finally_interrupt env"
  shows "finally_block env outs tr r = (tr @ [EvClose, EvJoin], Inl KeyboardInterrupt)"
  using assms by (simp add: finally_block_def)

lemma finally_block_blocked:
  assumes "\<not> finally_interrupt env" "Inl Blocked \<in> set outs"
  shows "finally_block env outs tr r = (tr @ [EvClose, EvJoin], Inl Blocked)"
  using assms by (simp add: finally_block_def)

lemma fst_finally_block: "fst (finally_block env outs tr r) = tr @ [EvClose, EvJoin]"
  by (simp add: finally_block_def)

lemma first_error_None: "first_error xs = None \<Longrightarrow> Inl e \<notin> set xs"
  by (induction xs rule: first_error.induct) simp_all

lemma parallel_impl_failure:
  assumes "1 \<le> n" "pool_create env = None"
    and "first_error (outcomes env kern nx n) = Some e"
    and "e \<noteq> KeyboardInterrupt" "e \<noteq> Blocked"
    and "\<not> finally_interrupt env" "Inl Blocked \<notin> set (outcomes env kern nx n)"
  shows "parallel_impl env kern (Some n) nx = (dispatch nx n @ [EvClose, EvJoin], Inl e)"
  unfolding parallel_impl_raised[OF assms(1-5)] using assms(6,7) by (rule finally_block_quiet)

lemma parallel_impl_success:
  assumes "1 \<le> n" "pool_create env = None"
    and "first_error (outcomes env kern nx n) = None"
    and "\<not> finally_interrupt env"
  shows "parallel_impl env kern (Some n) nx
     = (dispatch nx n @ [EvClose, EvJoin],
        Inr (grid_div (sum_grids (map fst (rights (outcomes env kern nx n))))
                      (sum_grids (map snd (rights (outcomes env kern nx n)))),
             sum_grids (map snd (rights (outcomes env kern nx n)))))"
  unfolding parallel_impl_fetched[OF assms(1-3)]
  using assms(4) first_error_None[OF assms(3)] by (rule finally_block_quiet)

lemma run_parallel_failure:
  assumes "snd (parallel_impl env kern nproc nx) = Inl e"
    and "e \<noteq> KeyboardInterrupt" "e \<noteq> Blocked"
  shows "run_parallel env kern nproc nx
     = (fst (parallel_impl env kern nproc nx) @ [EvWarnFailed e, EvWarnSerial]
          @ fst (serial_impl kern nx),
        snd (serial_impl kern nx))"
  using assms by (cases "parallel_impl env kern nproc nx"; cases e) (simp_all add: run_parallel_def)

lemma run_parallel_interrupt:
  assumes "snd (parallel_impl env kern nproc nx) = Inl KeyboardInterrupt"
  shows "run_parallel env kern nproc nx = parallel_impl env kern nproc nx"
  using assms by (cases "parallel_impl env kern nproc nx") (simp add: run_parallel_def)

lemma run_parallel_blocked:
  assumes "snd (parallel_impl env kern nproc nx) = Inl Blocked"
  shows "run_parallel env kern nproc nx = parallel_impl env kern nproc nx"
  using assms by (cases "parallel_impl env kern nproc nx") (simp add: run_parallel_def)

lemma run_parallel_success:
  assumes "snd (parallel_impl env kern nproc nx) = Inr r"
  shows "run_parallel env kern nproc nx = parallel_impl env kern nproc nx"
  using assms by (cases "parallel_impl env kern nproc nx") (simp add: run_parallel_def)

lemma serial_impl_simps:
  "kern 0 nx = Inr acc \<Longrightarrow>
     serial_impl kern nx = ([EvKernel 0 nx], Inr (grid_div (fst acc) (snd acc), snd acc))"
  "kern 0 nx = Inl e \<Longrightarrow> serial_impl kern nx = ([EvKernel 0 nx], Inl e)"
  by (simp_all add: serial_impl_def)

lemma fst_serial_impl: "fst (serial_impl kern nx) = [EvKernel 0 nx]"
  by (simp add: serial_impl_def split: sum.splits)

lemma fst_run_parallel_prefix:
  "\<exists>t. fst (run_parallel env kern nproc nx) = fst (parallel_impl env kern nproc nx) @ t"
  by (cases "parallel_impl env kern nproc nx")
     (auto simp: run_parallel_def split: sum.splits exn.splits)

lemma fst_parallel_impl_dispatch:
  assumes "1 \<le> n" "pool_create env = None"
  shows "\<exists>t. fst (parallel_impl env kern (Some n) nx) = dispatch nx n @ t"
  using assms
  by (auto simp: parallel_impl_def Let_def dispatch_def finally_block_def
      split: option.splits exn.splits)

lemma length_dispatch: "length (dispatch nx n) = Suc (nat n)"
  by (simp add: dispatch_def length_partitions)

lemma partitions_1_2: "partitions 1 2 = [(0, 0), (0, 1)]"
  by (simp add: partitions_def part_start_def part_end_def upto.simps)

lemma null_kernel:
  "bound_kernel null_slice cv array wi wo shape s e
     = Inr (zeros (fst shape) (snd shape), zeros (fst shape) (snd shape))"
  by (simp add: bound_kernel_def null_slice_def)

lemma serial_null:
  "serial_impl (bound_kernel null_slice cv one_pixel wi wo (1, 1)) 1
     = ([EvKernel 0 1], Inr ([[NonFin]], [[0]]))"
  by (simp add: serial_impl_def null_kernel zeros_def grid_div_def fdiv_def zero_fnum_def)

lemma outcomes_quiet_null:
  "outcomes quiet_env (bound_kernel null_slice cv one_pixel wi wo (1, 1)) 1 2
     = [Inr ([[0]], [[0]]), Inr ([[0]], [[0]])]"
  by (simp add: outcomes_def worker_result_def quiet_env_def null_kernel zeros_def upto.simps)

lemma parallel_quiet_null:
  "parallel_impl quiet_env (bound_kernel null_slice cv one_pixel wi wo (1, 1)) (Some 2) 1
     = ([EvPool 2, EvApplyAsync 0 0, EvApplyAsync 0 1, EvClose, EvJoin],
        Inr ([[NonFin]], [[0]]))"
proof -
  have p: "pool_create quiet_env = None" by (simp add: quiet_env_def)
  have f: "first_error (outcomes quiet_env (bound_kernel null_slice cv one_pixel wi wo (1, 1)) 1 2) = None"
    unfolding outcomes_quiet_null by simp
  have n: "(1 :: int) \<le> 2" by simp
  have q: "\<not> finally_interrupt quiet_env" by (simp add: quiet_env_def)
  show ?thesis
    unfolding parallel_impl_success[OF n p f q] outcomes_quiet_null
    by (simp add: dispatch_def partitions_1_2 sum_grids_def grid_add_def grid_div_def fdiv_def
        zero_fnum_def plus_fnum_def)
qed

lemma parallel_impl_events:
  "EvKernel a b \<notin> set (fst (parallel_impl env kern nproc nx))"
  "EvWarnSerial \<notin> set (fst (parallel_impl env kern nproc nx))"
  "EvWarnFailed x \<notin> set (fst (parallel_impl env kern nproc nx))"
  by (auto simp: parallel_impl_def Let_def finally_block_def
      split: option.splits exn.splits if_splits)

lemma prelude_events:
  "EvKernel a b \<notin> set (prelude array shape)"
  "EvWarnSerial \<notin> set (prelude array shape)"
  "EvWarnFailed x \<notin> set (prelude array shape)"
  "EvCpuCount \<notin> set (prelude array shape)"
  by (simp_all add: prelude_def mapping_events_def)

lemma outcomes_crash_null:
  "outcomes crash_env (bound_kernel null_slice cv one_pixel wi wo (1, 1)) 1 2
     = [Inr ([[0]], [[0]]), Inl (Failure ''kernel raised'')]"
  by (simp add: outcomes_def worker_result_def crash_env_def null_kernel zeros_def upto.simps)

lemma outcomes_interrupt_null:
  "outcomes interrupt_env (bound_kernel null_slice cv one_pixel wi wo (1, 1)) 1 2
     = [Inl KeyboardInterrupt, Inr ([[0]], [[0]])]"
  by (simp add: outcomes_def worker_result_def interrupt_env_def null_kernel zeros_def upto.simps)

lemma dispatch_1_2: "dispatch 1 2 = [EvPool 2, EvApplyAsync 0 0, EvApplyAsync 0 1]"
  by (simp add: dispatch_def partitions_1_2)

lemma dispatch_events:
  "EvClose \<notin> set (dispatch nx n)" "EvTerminate \<notin> set (dispatch nx n)"
  "EvJoin \<notin> set (dispatch nx n)"
  by (auto simp: dispatch_def)

lemma outcomes_dead_worker_null:
  "outcomes dead_worker_env (bound_kernel null_slice cv one_pixel wi wo (1, 1)) 1 2
     = [Inr ([[0]], [[0]]), Inl Blocked]"
  by (simp add: outcomes_def worker_result_def dead_worker_env_def null_kernel zeros_def upto.simps)

lemma outcomes_late_interrupt_null:
  "outcomes late_interrupt_env (bound_kernel null_slice cv one_pixel wi wo (1, 1)) 1 2
     = [Inl (Failure ''kernel raised''), Inr ([[0]], [[0]])]"
  by (simp add: outcomes_def worker_result_def late_interrupt_env_def null_kernel zeros_def
      upto.simps)

section \<open>Merging the accumulators of the partitions\<close>

lemma grid_eqI:
  assumes "shaped ny nx g" "shaped ny nx h"
    and "\<And>a b. a < ny \<Longrightarrow> b < nx \<Longrightarrow> g ! a ! b = h ! a ! b"
  shows "g = h"
proof (rule nth_equalityI)
  show "length g = length h" using assms by (simp add: shaped_def)
next
  fix a assume a: "a < length g"
  then have lt: "a < ny" using assms by (simp add: shaped_def)
  show "g ! a = h ! a"
  proof (rule nth_equalityI)
    show "length (g ! a) = length (h ! a)" using assms lt by (simp add: shaped_nth)
  next
    fix b assume "b < length (g ! a)"
    then have "b < nx" using assms lt by (simp add: shaped_nth)
    then show "g ! a ! b = h ! a ! b" using assms(3) lt by simp
  qed
qed

lemma shaped_grid_add:
  assumes "shaped ny nx g" "shaped ny nx h"
  shows "shaped ny nx (grid_add g h)"
  using assms by (simp add: grid_add_def shaped_map2)

lemma grid_add_nth:
  assumes "shaped ny nx g" "shaped ny nx h" "a < ny" "b < nx"
  shows "grid_add g h ! a ! b = g ! a ! b + h ! a ! b"
  using assms by (simp add: grid_add_def map2_nth)

lemma foldl_grid_add:
  assumes "shaped ny nx h" "\<And>g. g \<in> set gs \<Longrightarrow> shaped ny nx g"
  shows "shaped ny nx (foldl grid_add h gs)
       \<and> (\<forall>a<ny. \<forall>b<nx. foldl grid_add h gs ! a ! b = h ! a ! b + (\<Sum>g\<leftarrow>gs. g ! a ! b))"
  using assms
proof (induction gs arbitrary: h)
  case Nil
  then show ?case by simp
next
  case (Cons g gs)
  have g: "shaped ny nx g" using Cons.prems(2) by simp
  have s: "shaped ny nx (grid_add h g)" using Cons.prems(1) g by (rule shaped_grid_add)
  have ih: "shaped ny nx (foldl grid_add (grid_add h g) gs)
       \<and> (\<forall>a<ny. \<forall>b<nx. foldl grid_add (grid_add h g) gs ! a ! b
             = grid_add h g ! a ! b + (\<Sum>g\<leftarrow>gs. g ! a ! b))"
    using Cons.IH[OF s] Cons.prems(2) by simp
  show ?case
    using ih grid_add_nth[OF Cons.prems(1) g] by (simp add: add.assoc)
qed

lemma sum_grids_cells:
  assumes "gs \<noteq> []" "\<And>g. g \<in> set gs \<Longrightarrow> shaped ny nx g"
  shows "shaped ny nx (sum_grids gs)
       \<and> (\<forall>a<ny. \<forall>b<nx. sum_grids gs ! a ! b = (\<Sum>g\<leftarrow>gs. g ! a ! b))"
proof -
  obtain g rest where gs: "gs = g # rest" using assms(1) by (cases gs) auto
  have z: "map (map (\<lambda>x. 0 + x)) g = g" by (simp add: map_idI)
  have "shaped ny nx g" using assms(2) gs by simp
  then show ?thesis
    using foldl_grid_add[of ny nx g rest] assms(2) gs by (simp add: sum_grids_def z)
qed

lemma upto_append: "i \<le> j \<Longrightarrow> j \<le> k + 1 \<Longrightarrow> [i..j - 1] @ [j..k] = [i..k]"
proof (cases "j \<le> k")
  case True
  assume "i \<le> j"
  then show ?thesis using True upto_split1[of i j k] by simp
next
  case False
  assume "j \<le> k + 1"
  then have "j = k + 1" using False by simp
  then show ?thesis by simp
qed

lemma concat_equal_parts:
  assumes "0 \<le> q"
  shows "concat (map (\<lambda>i. [q * i..q * (i + 1) - 1]) [0..int k - 1]) = [0..q * int k - 1]"
proof (induction k)
  case 0
  show ?case by simp
next
  case (Suc k)
  have u: "[0..int (Suc k) - 1] = [0..int k - 1] @ [int k]"
    using upto_rec2[of 0 "int k"] by simp
  have le: "q * int k \<le> (q * (int k + 1) - 1) + 1"
    using assms by (simp add: algebra_simps)
  have "concat (map (\<lambda>i. [q * i..q * (i + 1) - 1]) [0..int (Suc k) - 1])
      = [0..q * int k - 1] @ [q * int k..q * (int k + 1) - 1]"
    unfolding u using Suc.IH by simp
  also have "\<dots> = [0..q * (int k + 1) - 1]"
    using upto_append[OF _ le] assms by simp
  finally show ?case by (simp add: algebra_simps)
qed

lemma concat_partitions:
  assumes "0 \<le> nx" "1 \<le> n"
  shows "concat (map (\<lambda>p. [fst p..snd p - 1]) (partitions nx n)) = [0..nx - 1]"
proof -
  define q where "q = nx div n"
  have q: "0 \<le> q" using assms by (simp add: q_def pos_imp_zdiv_nonneg_iff)
  have qn: "q * (n - 1) \<le> nx"
  proof -
    have "nx = q * n + nx mod n" by (simp add: q_def)
    moreover have "0 \<le> nx mod n" using assms by simp
    moreover have "q * (n - 1) \<le> q * n" using q by (intro mult_left_mono) auto
    ultimately show ?thesis by linarith
  qed
  have u: "[0..n - 1] = [0..n - 1 - 1] @ [n - 1]"
    using upto_rec2[of 0 "n - 1"] assms by simp
  have front: "map (\<lambda>i. [part_start nx n i..part_end nx n i - 1]) [0..n - 1 - 1]
      = map (\<lambda>i. [q * i..q * (i + 1) - 1]) [0..n - 1 - 1]"
    by (rule map_cong) (auto simp: part_start_def part_end_def q_def)
  have k: "int (nat (n - 1)) = n - 1" using assms by simp
  have "concat (map (\<lambda>p. [fst p..snd p - 1]) (partitions nx n))
      = concat (map (\<lambda>i. [part_start nx n i..part_end nx n i - 1]) [0..n - 1])"
    by (simp add: partitions_def comp_def)
  also have "\<dots> = concat (map (\<lambda>i. [part_start nx n i..part_end nx n i - 1]) [0..n - 1 - 1])
      @ [part_start nx n (n - 1)..part_end nx n (n - 1) - 1]"
    by (subst u) simp
  also have "\<dots> = concat (map (\<lambda>i. [q * i..q * (i + 1) - 1]) [0..n - 1 - 1])
      @ [part_start nx n (n - 1)..part_end nx n (n - 1) - 1]"
    by (simp only: front)
  also have "\<dots> = [0..q * (n - 1) - 1] @ [q * (n - 1)..nx - 1]"
    using concat_equal_parts[OF q, of "nat (n - 1)"] k
    by (simp add: part_start_def part_end_def q_def)
  also have "\<dots> = [0..nx - 1]"
    using upto_append[of 0 "q * (n - 1)" "nx - 1"] q qn assms by simp
  finally show ?thesis .
qed

lemma sum_list_concat_map:
  fixes f :: "'a \<Rightarrow> fnum"
  shows "(\<Sum>x\<leftarrow>concat xss. f x) = (\<Sum>xs\<leftarrow>xss. \<Sum>x\<leftarrow>xs. f x)"
  by (induction xss) simp_all

lemma resampling_kernel_cells:
  "shaped ny_out nx_out (fst (resampling_kernel ov s e sy ey nx_out ny_out m array))
   \<and> shaped ny_out nx_out (snd (resampling_kernel ov s e sy ey nx_out ny_out m array))
   \<and> (\<forall>a<ny_out. \<forall>b<nx_out.
        fst (resampling_kernel ov s e sy ey nx_out ny_out m array) ! a ! b
          = (\<Sum>i\<leftarrow>[s..e - 1]. column_flux ov m array sy ey nx_out ny_out i a b)
      \<and> snd (resampling_kernel ov s e sy ey nx_out ny_out m array) ! a ! b
          = (\<Sum>i\<leftarrow>[s..e - 1]. column_weight ov m sy ey nx_out ny_out i a b))"
  unfolding resampling_kernel_def column_flux_def column_weight_def
  using adds_apply_zero[OF adds_kernel_loops, of ny_out nx_out ov m array sy ey "[s..e - 1]"]
  by simp

lemma merged_partitions:
  assumes "0 \<le> nx" "1 \<le> n"
  shows "sum_grids (map (\<lambda>p. fst (resampling_kernel ov (fst p) (snd p) sy ey nx_out ny_out m array))
                    (partitions nx n))
       = fst (resampling_kernel ov 0 nx sy ey nx_out ny_out m array)"
    and "sum_grids (map (\<lambda>p. snd (resampling_kernel ov (fst p) (snd p) sy ey nx_out ny_out m array))
                    (partitions nx n))
       = snd (resampling_kernel ov 0 nx sy ey nx_out ny_out m array)"
proof -
  let ?R = "\<lambda>s e. resampling_kernel ov s e sy ey nx_out ny_out m array"
  let ?F = "map (\<lambda>p. fst (?R (fst p) (snd p))) (partitions nx n)"
  let ?W = "map (\<lambda>p. snd (?R (fst p) (snd p))) (partitions nx n)"
  have ne: "partitions nx n \<noteq> []"
    using assms length_partitions[of nx n] by (cases "partitions nx n") auto
  have shF: "shaped ny_out nx_out g" if "g \<in> set ?F" for g
    using that resampling_kernel_cells by auto
  have shW: "shaped ny_out nx_out g" if "g \<in> set ?W" for g
    using that resampling_kernel_cells by auto
  have cF: "shaped ny_out nx_out (sum_grids ?F)
       \<and> (\<forall>a<ny_out. \<forall>b<nx_out. sum_grids ?F ! a ! b = (\<Sum>g\<leftarrow>?F. g ! a ! b))"
    using ne by (intro sum_grids_cells shF) simp_all
  have cW: "shaped ny_out nx_out (sum_grids ?W)
       \<and> (\<forall>a<ny_out. \<forall>b<nx_out. sum_grids ?W ! a ! b = (\<Sum>g\<leftarrow>?W. g ! a ! b))"
    using ne by (intro sum_grids_cells shW) simp_all
  note cat = concat_partitions[OF assms]
  show "sum_grids ?F = fst (?R 0 nx)"
  proof (rule grid_eqI[of ny_out nx_out])
    show "shaped ny_out nx_out (sum_grids ?F)" using cF by blast
    show "shaped ny_out nx_out (fst (?R 0 nx))" using resampling_kernel_cells by blast
    fix a b assume ab: "a < ny_out" "b < nx_out"
    let ?c = "\<lambda>i. column_flux ov m array sy ey nx_out ny_out i a b"
    have "sum_grids ?F ! a ! b = (\<Sum>g\<leftarrow>?F. g ! a ! b)" using cF ab by blast
    also have "\<dots> = (\<Sum>p\<leftarrow>partitions nx n. fst (?R (fst p) (snd p)) ! a ! b)"
      by (simp add: comp_def)
    also have "\<dots> = (\<Sum>p\<leftarrow>partitions nx n. \<Sum>i\<leftarrow>[fst p..snd p - 1]. ?c i)"
      using resampling_kernel_cells[of ny_out nx_out ov _ _ sy ey m array] ab by simp
    also have "\<dots> = (\<Sum>xs\<leftarrow>map (\<lambda>p. [fst p..snd p - 1]) (partitions nx n). \<Sum>i\<leftarrow>xs. ?c i)"
      by (simp add: comp_def)
    also have "\<dots> = (\<Sum>i\<leftarrow>concat (map (\<lambda>p. [fst p..snd p - 1]) (partitions nx n)). ?c i)"
      by (simp only: sum_list_concat_map)
    also have "\<dots> = (\<Sum>i\<leftarrow>[0..nx - 1]. ?c i)" by (simp only: cat)
    also have "\<dots> = fst (?R 0 nx) ! a ! b"
      using resampling_kernel_cells[of ny_out nx_out ov 0 nx sy ey m array] ab by simp
    finally show "sum_grids ?F ! a ! b = fst (?R 0 nx) ! a ! b" .
  qed
  show "sum_grids ?W = snd (?R 0 nx)"
  proof (rule grid_eqI[of ny_out nx_out])
    show "shaped ny_out nx_out (sum_grids ?W)" using cW by blast
    show "shaped ny_out nx_out (snd (?R 0 nx))" using resampling_kernel_cells by blast
    fix a b assume ab: "a < ny_out" "b < nx_out"
    let ?c = "\<lambda>i. column_weight ov m sy ey nx_out ny_out i a b"
    have "sum_grids ?W ! a ! b = (\<Sum>g\<leftarrow>?W. g ! a ! b)" using cW ab by blast
    also have "\<dots> = (\<Sum>p\<leftarrow>partitions nx n. snd (?R (fst p) (snd p)) ! a ! b)"
      by (simp add: comp_def)
    also have "\<dots> = (\<Sum>p\<leftarrow>partitions nx n. \<Sum>i\<leftarrow>[fst p..snd p - 1]. ?c i)"
      using resampling_kernel_cells[of ny_out nx_out ov _ _ sy ey m array] ab by simp
    also have "\<dots> = (\<Sum>xs\<leftarrow>map (\<lambda>p. [fst p..snd p - 1]) (partitions nx n). \<Sum>i\<leftarrow>xs. ?c i)"
      by (simp add: comp_def)
    also have "\<dots> = (\<Sum>i\<leftarrow>concat (map (\<lambda>p. [fst p..snd p - 1]) (partitions nx n)). ?c i)"
      by (simp only: sum_list_concat_map)
    also have "\<dots> = (\<Sum>i\<leftarrow>[0..nx - 1]. ?c i)" by (simp only: cat)
    also have "\<dots> = snd (?R 0 nx) ! a ! b"
      using resampling_kernel_cells[of ny_out nx_out ov 0 nx sy ey m array] ab by simp
    finally show "sum_grids ?W ! a ! b = snd (?R 0 nx) ! a ! b" .
  qed
qed

lemma outcomes_total_aux:
  assumes "first_error (map (worker_result env (\<lambda>s e. Inr (R s e)) nx n) xs) = None"
  shows "rights (map (worker_result env (\<lambda>s e. Inr (R s e)) nx n) xs)
       = map (\<lambda>i. R (part_start nx n i) (part_end nx n i)) xs"
  using assms
proof (induction xs)
  case Nil
  show ?case by simp
next
  case (Cons x xs)
  show ?case
  proof (cases "worker_exc env (nat x)")
    case None
    then have w: "worker_result env (\<lambda>s e. Inr (R s e)) nx n x
        = Inr (R (part_start nx n x) (part_end nx n x))"
      by (simp add: worker_result_def)
    then show ?thesis using Cons by simp
  next
    case (Some e)
    then have "worker_result env (\<lambda>s e. Inr (R s e)) nx n x = Inl e"
      by (simp add: worker_result_def)
    then show ?thesis using Cons.prems by simp
  qed
qed

lemma outcomes_total:
  assumes "first_error (outcomes env (\<lambda>s e. Inr (R s e)) nx n) = None"
  shows "rights (outcomes env (\<lambda>s e. Inr (R s e)) nx n)
       = map (\<lambda>p. R (fst p) (snd p)) (partitions nx n)"
  using outcomes_total_aux[of env R nx n "[0..n - 1]"] assms
  by (simp add: outcomes_def partitions_def comp_def)

lemma first_error_quiet:
  assumes "\<forall>k. worker_exc env k = None"
  shows "first_error (map (worker_result env (\<lambda>s e. Inr (R s e)) nx n) xs) = None"
  using assms by (induction xs) (simp_all add: worker_result_def)

lemma parallel_kernel_success:
  assumes "0 \<le> nx" "1 \<le> n" "pool_create env = None"
    and "first_error (outcomes env (\<lambda>s e. Inr (resampling_kernel ov s e sy ey nx_out ny_out m array))
           nx n) = None"
    and "\<not> finally_interrupt env"
  shows "snd (parallel_impl env (\<lambda>s e. Inr (resampling_kernel ov s e sy ey nx_out ny_out m array))
            (Some n) nx)
       = snd (serial_impl (\<lambda>s e. Inr (resampling_kernel ov s e sy ey nx_out ny_out m array)) nx)"
proof -
  let ?R = "\<lambda>s e. resampling_kernel ov s e sy ey nx_out ny_out m array"
  let ?K = "\<lambda>s e. Inr (?R s e) :: exn + accumulators"
  have r: "rights (outcomes env ?K nx n) = map (\<lambda>p. ?R (fst p) (snd p)) (partitions nx n)"
    using assms(4) by (rule outcomes_total)
  have f: "sum_grids (map fst (rights (outcomes env ?K nx n))) = fst (?R 0 nx)"
    unfolding r using merged_partitions(1)[OF assms(1,2), of ov sy ey nx_out ny_out m array]
    by (simp add: comp_def)
  have w: "sum_grids (map snd (rights (outcomes env ?K nx n))) = snd (?R 0 nx)"
    unfolding r using merged_partitions(2)[OF assms(1,2), of ov sy ey nx_out ny_out m array]
    by (simp add: comp_def)
  show ?thesis
    unfolding parallel_impl_success[OF assms(2,3,4,5)] f w by (simp add: serial_impl_def)
qed

lemma snd_finally_block_Inr:
  assumes "snd (finally_block env outs tr x) = Inr r"
  shows "\<not> finally_interrupt env \<and> x = Inr r"
  using assms by (auto simp: finally_block_def split: if_splits)

lemma parallel_kernel_result:
  assumes "0 \<le> nx"
    and "snd (parallel_impl env (\<lambda>s e. Inr (resampling_kernel ov s e sy ey nx_out ny_out m array))
            nproc nx) = Inr r"
  shows "snd (serial_impl (\<lambda>s e. Inr (resampling_kernel ov s e sy ey nx_out ny_out m array)) nx)
       = Inr r"
proof -
  let ?K = "\<lambda>s e. Inr (resampling_kernel ov s e sy ey nx_out ny_out m array) :: exn + accumulators"
  define n where "n = (case nproc of None \<Rightarrow> cpu_count env | Some k \<Rightarrow> k)"
  have e: "snd (parallel_impl env ?K nproc nx) = snd (parallel_impl env ?K (Some n) nx)"
    by (cases nproc) (simp_all add: n_def parallel_impl_auto)
  have s: "snd (parallel_impl env ?K (Some n) nx) = Inr r" using assms(2) e by simp
  have n1: "1 \<le> n"
  proof (rule ccontr)
    assume "\<not> 1 \<le> n"
    then have "parallel_impl env ?K (Some n) nx = ([], Inl ValueError)"
      by (simp add: parallel_impl_def)
    then show False using s by simp
  qed
  have pc: "pool_create env = None"
  proof (cases "pool_create env")
    case None
    then show ?thesis .
  next
    case (Some x)
    then show ?thesis using s parallel_impl_no_pool[OF n1 Some, of ?K nx] by simp
  qed
  have fe: "first_error (outcomes env ?K nx n) = None"
  proof (cases "first_error (outcomes env ?K nx n)")
    case None
    then show ?thesis .
  next
    case (Some x)
    consider "x = KeyboardInterrupt" | "x = Blocked" | "x \<noteq> KeyboardInterrupt" "x \<noteq> Blocked"
      by blast
    then show ?thesis
    proof cases
      case 1
      then show ?thesis using s Some parallel_impl_interrupt[OF n1 pc, of ?K nx] by simp
    next
      case 2
      then show ?thesis using s Some parallel_impl_blocked[OF n1 pc, of ?K nx] by simp
    next
      case 3
      have "snd (finally_block env (outcomes env ?K nx n) (dispatch nx n) (Inl x)) = Inr r"
        using s parallel_impl_raised[OF n1 pc Some 3] by simp
      then show ?thesis using snd_finally_block_Inr by blast
    qed
  qed
  have fi: "\<not> finally_interrupt env"
    using s snd_finally_block_Inr unfolding parallel_impl_fetched[OF n1 pc fe] by blast
  show ?thesis
    using parallel_kernel_success[OF assms(1) n1 pc fe fi] s by simp
qed

lemma run_parallel_kernel:
  assumes "0 \<le> nx"
    and "snd (run_parallel env (\<lambda>s e. Inr (resampling_kernel ov s e sy ey nx_out ny_out m array))
            nproc nx) \<noteq> Inl KeyboardInterrupt"
    and "snd (run_parallel env (\<lambda>s e. Inr (resampling_kernel ov s e sy ey nx_out ny_out m array))
            nproc nx) \<noteq> Inl Blocked"
  shows "snd (run_parallel env (\<lambda>s e. Inr (resampling_kernel ov s e sy ey nx_out ny_out m array))
            nproc nx)
       = snd (serial_impl (\<lambda>s e. Inr (resampling_kernel ov s e sy ey nx_out ny_out m array)) nx)"
proof -
  let ?K = "\<lambda>s e. Inr (resampling_kernel ov s e sy ey nx_out ny_out m array) :: exn + accumulators"
  show ?thesis
  proof (cases "snd (parallel_impl env ?K nproc nx)")
    case (Inr r)
    then have "run_parallel env ?K nproc nx = parallel_impl env ?K nproc nx"
      by (rule run_parallel_success)
    then show ?thesis using Inr parallel_kernel_result[OF assms(1) Inr] by simp
  next
    case (Inl x)
    consider "x = KeyboardInterrupt" | "x = Blocked" | "x \<noteq> KeyboardInterrupt" "x \<noteq> Blocked"
      by blast
    then show ?thesis
    proof cases
      case 1
      then have "run_parallel env ?K nproc nx = parallel_impl env ?K nproc nx"
        using Inl by (intro run_parallel_interrupt) simp
      then show ?thesis using assms(2) Inl 1 by simp
    next
      case 2
      then have "run_parallel env ?K nproc nx = parallel_impl env ?K nproc nx"
        using Inl by (intro run_parallel_blocked) simp
      then show ?thesis using assms(3) Inl 2 by simp
    next
      case 3
      then show ?thesis using run_parallel_failure[OF Inl 3] by simp
    qed
  qed
qed

lemma bound_spec_kernel:
  "bound_kernel (spec_slice ov) cv array wi wo shape
     = (\<lambda>s e. Inr (resampling_kernel ov s e 0 (rows array) (snd shape) (fst shape)
          (coordinate_mapper wi wo cv (rows array) (cols array) (fst shape) (snd shape))
          (samples array)))"
  by (simp add: bound_kernel_def spec_slice_def)

lemma kernel_aligned:
  "resampling_kernel unit_overlap 0 1 0 1 1 1 aligned_maps [[Fin 3]] = ([[Fin 3]], [[Fin 1]])"
  unfolding aligned_maps_eq
  by (simp add: resampling_kernel_def spec_pixel_def spec_box_def spec_range_def corners_def
      min4_def max4_def
      clip_box_def spec_dest_update_def fraction_def unit_overlap_def
      add_at_def zeros_def fdiv_def fmul_def plus_fnum_def zero_fnum_def)

lemma bound_kernel_aligned:
  "bound_kernel (spec_slice unit_overlap) same_frame one_pixel identity_wcs identity_wcs (1, 1)
     = (\<lambda>s e. Inr (resampling_kernel unit_overlap s e 0 1 1 1 aligned_maps [[Fin 3]]))"
  unfolding bound_spec_kernel aligned_maps_def by (simp add: one_pixel_def)

lemma kernel_offset:
  "resampling_kernel unit_overlap 0 2 0 1 1 1 offset_maps [[NonFin, Fin 5]]
     = ([[Fin 5]], [[Fin 1]])"
  unfolding offset_maps_eq
  by (simp add: resampling_kernel_def spec_pixel_def spec_box_def spec_range_def corners_def
      min4_def max4_def clip_box_def spec_dest_update_def fraction_def unit_overlap_def
      add_at_def zeros_def fdiv_def fmul_def plus_fnum_def zero_fnum_def upto.simps)

lemma kernel_halved:
  "resampling_kernel unit_overlap 0 1 0 1 1 1 halved_maps [[Fin 3, Fin 5]] = ([[Fin 3]], [[Fin 1]])"
  "resampling_kernel unit_overlap 1 2 0 1 1 1 halved_maps [[Fin 3, Fin 5]] = ([[Fin 5]], [[Fin 1]])"
  "resampling_kernel unit_overlap 0 2 0 1 1 1 halved_maps [[Fin 3, Fin 5]] = ([[Fin 8]], [[Fin 2]])"
  unfolding halved_maps_eq
  by (simp_all add: resampling_kernel_def spec_pixel_def spec_box_def spec_range_def corners_def
      min4_def max4_def clip_box_def spec_dest_update_def fraction_def unit_overlap_def
      add_at_def zeros_def fdiv_def fmul_def plus_fnum_def zero_fnum_def upto.simps)

lemma bound_kernel_halved:
  "bound_kernel (spec_slice unit_overlap) same_frame two_pixels identity_wcs halved_wcs (1, 1)
     = (\<lambda>s e. Inr (resampling_kernel unit_overlap s e 0 1 1 1 halved_maps [[Fin 3, Fin 5]]))"
  unfolding bound_spec_kernel halved_maps_def by (simp add: two_pixels_def)

lemma partitions_2_2: "partitions 2 2 = [(0, 1), (1, 2)]"
  by (simp add: partitions_def part_start_def part_end_def upto.simps)

section \<open>The accumulation and the normalisation\<close>

text \<open>
  Claim C1 on a source of one pixel that holds NaN, reprojected onto a destination of one
  pixel that coincides with it, with an overlap primitive that returns 1. The loop of
  lines 119--155 visits the destination pixel once: it adds \<^verbatim>\<open>nan * 1 / 1\<close> to the flux sum
  and \<^verbatim>\<open>1 / 1\<close> to the weight sum. Line 157 divides: the result is NaN at a destination pixel
  whose weight sum is 1, not 0, and the footprint returned for that pixel is 1. The
  docstring of the function (lines 49--52) gives the footprint the value 0 where the input
  image has no valid values, and lets 1 indicate valid values.
\<close>

theorem nan_sample_with_full_footprint:
  "reproject_legacy unit_overlap aligned_maps [[NonFin]] 1 1 1 1 = Inr ([[NonFin]], [[Fin 1]])
   \<and> (Fin 1 :: fnum) \<noteq> 0
   \<and> reproject_celestial quiet_env unit_overlap same_frame null_slice nan_pixel
        identity_wcs identity_wcs (1, 1) (PyBool False) ''legacy''
      = ([EvAstype, EvCornerGrid 1 1, EvPix2World, EvCornerGrid 1 1, EvPix2World, EvConvert,
          EvWorld2Pix, EvLegacyLoop],
         Inr ([[NonFin]], [[Fin 1]]))"
proof -
  have c1: "reproject_legacy unit_overlap aligned_maps [[NonFin]] 1 1 1 1
      = Inr ([[NonFin]], [[Fin 1]])"
    unfolding legacy_aligned by (simp add: fdiv_def)
  have c2: "(Fin 1 :: fnum) \<noteq> 0" by (simp add: zero_fnum_def)
  have r: "resolve_nproc (PyBool False) = Inr (Some 1)" by (simp add: resolve_nproc_simps)
  have "reproject_celestial quiet_env unit_overlap same_frame null_slice nan_pixel
        identity_wcs identity_wcs (1, 1) (PyBool False) ''legacy''
      = ([EvAstype, EvCornerGrid 1 1, EvPix2World, EvCornerGrid 1 1, EvPix2World, EvConvert,
          EvWorld2Pix, EvLegacyLoop],
         reproject_legacy unit_overlap aligned_maps [[NonFin]] 1 1 1 1)"
    unfolding aligned_maps_def
    by (simp add: reproject_celestial_def r Let_def identity_wcs_def nan_pixel_def
        mapping_events_def)
  then have c3: "reproject_celestial quiet_env unit_overlap same_frame null_slice nan_pixel
        identity_wcs identity_wcs (1, 1) (PyBool False) ''legacy''
      = ([EvAstype, EvCornerGrid 1 1, EvPix2World, EvCornerGrid 1 1, EvPix2World, EvConvert,
          EvWorld2Pix, EvLegacyLoop],
         Inr ([[NonFin]], [[Fin 1]]))"
    unfolding c1 .
  from c1 c2 c3 show ?thesis by (intro conjI)
qed

section \<open>The candidate box of a source pixel\<close>

text \<open>
  Claim C4 on a source of one row of two pixels, reprojected onto a destination of one
  pixel that lies one and a half pixels to the right: in the pixel space of the
  destination the corners of the first source pixel are at \<open>x = -2\<close> and \<open>x = -1\<close>, so that
  pixel lies wholly to the left of the destination pixel, which spans \<open>[-0.5, 0.5]\<close>.

  Lines 126--127 give \<^verbatim>\<open>xmin = int(-1.5) = -1\<close> and \<^verbatim>\<open>xmax = int(-0.5) = 0\<close>, where the floors
  are -2 and -1: \<^verbatim>\<open>int\<close> rounds towards zero, which is the nearest integer with ties
  rounded up only for values that are not negative. After the clipping of lines 136--139
  the box of the code is the destination pixel, where the box of the floors is empty and
  contributes nothing. So the loop of lines 141--155 visits the destination pixel for a
  source pixel that does not touch it. When that source pixel holds NaN the product of
  line 154 is NaN whatever the overlap primitive returns, also zero: the result at the
  destination pixel is NaN although the second source pixel, of value 5, covers it.
\<close>

theorem truncation_widens_box:
  "corners (xp_inout offset_maps) 0 0 = [Finite (- 2), Finite (- 1), Finite (- 1), Finite (- 2)]
   \<and> bounding_box (xp_inout offset_maps) (yp_inout offset_maps) 0 0 = Inr (- 1, 0, 0, 1)
   \<and> (\<lfloor>- 2 + 1 / 2 :: real\<rfloor>, \<lfloor>- 1 + 1 / 2 :: real\<rfloor>) = (- 2, - 1)
   \<and> clip_box 1 1 (- 1, 0, 0, 1) = (0, 0, 0, 0)
   \<and> clip_box 1 1 (- 2, - 1, 0, 1) = (0, - 1, 0, 0)
   \<and> accumulate_box ov offset_maps [[NonFin, Fin 5]] 0 0 (0, - 1, 0, 0) acc = acc
   \<and> map_sum id fst (reproject_legacy ov offset_maps [[NonFin, Fin 5]] 1 2 1 1)
       = Inr [[NonFin]]
   \<and> reproject_legacy unit_overlap offset_maps [[NonFin, Fin 5]] 1 2 1 1
       = Inr ([[NonFin]], [[Fin 2]])
   \<and> reproject_celestial quiet_env unit_overlap same_frame null_slice nan_and_five
        identity_wcs shifted_wcs (1, 1) (PyBool False) ''legacy''
      = ([EvAstype, EvCornerGrid 1 2, EvPix2World, EvCornerGrid 1 1, EvPix2World, EvConvert,
          EvWorld2Pix, EvLegacyLoop],
         Inr ([[NonFin]], [[Fin 2]]))"
proof -
  have c1: "corners (xp_inout offset_maps) 0 0
      = [Finite (- 2), Finite (- 1), Finite (- 1), Finite (- 2)]"
    unfolding offset_maps_eq by (simp add: corners_def)
  have c2: "bounding_box (xp_inout offset_maps) (yp_inout offset_maps) 0 0 = Inr (- 1, 0, 0, 1)"
    by (rule bounding_box_offset(1))
  have c3: "(\<lfloor>- 2 + 1 / 2 :: real\<rfloor>, \<lfloor>- 1 + 1 / 2 :: real\<rfloor>) = (- 2, - 1)"
    by (simp add: floor_eq_iff)
  have c4: "clip_box 1 1 (- 1, 0, 0, 1) = (0, 0, 0, 0)" by (simp add: clip_box_def)
  have c5: "clip_box 1 1 (- 2, - 1, 0, 1) = (0, - 1, 0, 0)" by (simp add: clip_box_def)
  have c6: "accumulate_box ov offset_maps [[NonFin, Fin 5]] 0 0 (0, - 1, 0, 0) acc = acc"
    by (rule accumulate_box_empty) simp
  have c7: "map_sum id fst (reproject_legacy ov offset_maps [[NonFin, Fin 5]] 1 2 1 1)
      = Inr [[NonFin]]"
    by (rule legacy_offset)
  have c8: "reproject_legacy unit_overlap offset_maps [[NonFin, Fin 5]] 1 2 1 1
      = Inr ([[NonFin]], [[Fin 2]])"
    by (rule legacy_offset_unit)
  have r: "resolve_nproc (PyBool False) = Inr (Some 1)" by (simp add: resolve_nproc_simps)
  have "reproject_celestial quiet_env unit_overlap same_frame null_slice nan_and_five
        identity_wcs shifted_wcs (1, 1) (PyBool False) ''legacy''
      = ([EvAstype, EvCornerGrid 1 2, EvPix2World, EvCornerGrid 1 1, EvPix2World, EvConvert,
          EvWorld2Pix, EvLegacyLoop],
         reproject_legacy unit_overlap offset_maps [[NonFin, Fin 5]] 1 2 1 1)"
    unfolding offset_maps_def
    by (simp add: reproject_celestial_def r Let_def identity_wcs_def nan_and_five_def
        mapping_events_def)
  then have c9: "reproject_celestial quiet_env unit_overlap same_frame null_slice nan_and_five
        identity_wcs shifted_wcs (1, 1) (PyBool False) ''legacy''
      = ([EvAstype, EvCornerGrid 1 2, EvPix2World, EvCornerGrid 1 1, EvPix2World, EvConvert,
          EvWorld2Pix, EvLegacyLoop],
         Inr ([[NonFin]], [[Fin 2]]))"
    unfolding c8 .
  from c1 c2 c3 c4 c5 c6 c7 c8 c9 show ?thesis by (intro conjI)
qed

section \<open>The coordinate mapping of the corners\<close>

text \<open>
  Claim C9. For a source of \<open>ny_in\<close> rows and \<open>nx_in\<close> columns the corner grid has
  \<open>nx_in + 1\<close> corners along x by \<open>ny_in + 1\<close> corners along y (it is stored as
  \<open>ny_in + 1\<close> rows of \<open>nx_in + 1\<close> values), and corner \<open>(j, i)\<close> is at the position
  \<open>(i - 0.5, j - 0.5)\<close>. Every array the mapping returns has the shape of its corner grid.
  The world coordinates of source corner \<open>(j, i)\<close> are the pixel-to-world transform of the
  source at that position, converted to the frame of the destination; its position in the
  pixel space of the destination is the world-to-pixel transform of the destination at
  those converted coordinates. The world coordinates of destination corner \<open>(j, i)\<close> are
  the pixel-to-world transform of the destination at \<open>(i - 0.5, j - 0.5)\<close>.
\<close>

theorem coordinate_mapper_corners:
  "(let m = coordinate_mapper wcs_in wcs_out convert ny_in nx_in ny_out nx_out
    in shaped (ny_in + 1) (nx_in + 1) (fst (corner_grid ny_in nx_in))
     \<and> shaped (ny_in + 1) (nx_in + 1) (snd (corner_grid ny_in nx_in))
     \<and> (\<forall>j\<le>ny_in. \<forall>i\<le>nx_in.
          fst (corner_grid ny_in nx_in) ! j ! i = real i - 1 / 2
        \<and> snd (corner_grid ny_in nx_in) ! j ! i = real j - 1 / 2)
     \<and> shaped (ny_in + 1) (nx_in + 1) (xw_in m) \<and> shaped (ny_in + 1) (nx_in + 1) (yw_in m)
     \<and> shaped (ny_in + 1) (nx_in + 1) (xp_inout m) \<and> shaped (ny_in + 1) (nx_in + 1) (yp_inout m)
     \<and> shaped (ny_out + 1) (nx_out + 1) (xw_out m) \<and> shaped (ny_out + 1) (nx_out + 1) (yw_out m)
     \<and> (\<forall>j\<le>ny_in. \<forall>i\<le>nx_in.
          (xw_in m ! j ! i, yw_in m ! j ! i)
            = convert (fst (pix2world wcs_in (real i - 1 / 2) (real j - 1 / 2)))
                      (snd (pix2world wcs_in (real i - 1 / 2) (real j - 1 / 2)))
        \<and> (xp_inout m ! j ! i, yp_inout m ! j ! i)
            = world2pix wcs_out (xw_in m ! j ! i) (yw_in m ! j ! i))
     \<and> (\<forall>j\<le>ny_out. \<forall>i\<le>nx_out.
          (xw_out m ! j ! i, yw_out m ! j ! i)
            = pix2world wcs_out (real i - 1 / 2) (real j - 1 / 2)))"
proof -
  let ?m = "coordinate_mapper wcs_in wcs_out convert ny_in nx_in ny_out nx_out"
  let ?gi = "corner_grid ny_in nx_in" and ?go = "corner_grid ny_out nx_out"
  let ?wi = "apply_grid (pix2world wcs_in) (fst ?gi) (snd ?gi)"
  note f = coordinate_mapper_fields[of wcs_in wcs_out convert ny_in nx_in ny_out nx_out]
  have s1: "shaped (ny_in + 1) (nx_in + 1) (fst ?gi)" "shaped (ny_in + 1) (nx_in + 1) (snd ?gi)"
    by (rule shaped_corner_grid)+
  have so: "shaped (ny_out + 1) (nx_out + 1) (fst ?go)" "shaped (ny_out + 1) (nx_out + 1) (snd ?go)"
    by (rule shaped_corner_grid)+
  have s2: "shaped (ny_in + 1) (nx_in + 1) (fst ?wi)" "shaped (ny_in + 1) (nx_in + 1) (snd ?wi)"
    using s1 by (simp_all add: shaped_apply_grid)
  have s3: "shaped (ny_in + 1) (nx_in + 1) (xw_in ?m)" "shaped (ny_in + 1) (nx_in + 1) (yw_in ?m)"
    unfolding f using s2 by (simp_all add: shaped_apply_grid)
  have s4: "shaped (ny_in + 1) (nx_in + 1) (xp_inout ?m)" "shaped (ny_in + 1) (nx_in + 1) (yp_inout ?m)"
    unfolding f(5,6) using s3 by (simp_all add: shaped_apply_grid)
  have s5: "shaped (ny_out + 1) (nx_out + 1) (xw_out ?m)" "shaped (ny_out + 1) (nx_out + 1) (yw_out ?m)"
    unfolding f using so by (simp_all add: shaped_apply_grid)
  have g: "\<forall>j\<le>ny_in. \<forall>i\<le>nx_in.
          fst ?gi ! j ! i = real i - 1 / 2 \<and> snd ?gi ! j ! i = real j - 1 / 2"
    by (simp add: corner_grid_nth)
  have a: "(xw_in ?m ! j ! i, yw_in ?m ! j ! i)
            = convert (fst (pix2world wcs_in (real i - 1 / 2) (real j - 1 / 2)))
                      (snd (pix2world wcs_in (real i - 1 / 2) (real j - 1 / 2)))
        \<and> (xp_inout ?m ! j ! i, yp_inout ?m ! j ! i)
            = world2pix wcs_out (xw_in ?m ! j ! i) (yw_in ?m ! j ! i)"
    if le: "j \<le> ny_in" "i \<le> nx_in" for j i
  proof -
    have lt: "j < ny_in + 1" "i < nx_in + 1" using le by simp_all
    have w: "(fst ?wi ! j ! i, snd ?wi ! j ! i)
        = pix2world wcs_in (real i - 1 / 2) (real j - 1 / 2)"
      using apply_grid_nth[OF s1 lt, of "pix2world wcs_in"] le by (simp add: corner_grid_nth)
    have "(xw_in ?m ! j ! i, yw_in ?m ! j ! i) = convert (fst ?wi ! j ! i) (snd ?wi ! j ! i)"
      unfolding f(3,4) using apply_grid_nth[OF s2 lt, of convert] by simp
    also have "\<dots> = convert (fst (pix2world wcs_in (real i - 1 / 2) (real j - 1 / 2)))
                      (snd (pix2world wcs_in (real i - 1 / 2) (real j - 1 / 2)))"
      using w by (metis fst_conv snd_conv)
    finally have c: "(xw_in ?m ! j ! i, yw_in ?m ! j ! i)
            = convert (fst (pix2world wcs_in (real i - 1 / 2) (real j - 1 / 2)))
                      (snd (pix2world wcs_in (real i - 1 / 2) (real j - 1 / 2)))" .
    have p: "(xp_inout ?m ! j ! i, yp_inout ?m ! j ! i)
            = world2pix wcs_out (xw_in ?m ! j ! i) (yw_in ?m ! j ! i)"
      unfolding f(5,6) using apply_grid_nth[OF s3 lt, of "world2pix wcs_out"] by simp
    from c p show ?thesis by (rule conjI)
  qed
  have b: "(xw_out ?m ! j ! i, yw_out ?m ! j ! i)
            = pix2world wcs_out (real i - 1 / 2) (real j - 1 / 2)"
    if le: "j \<le> ny_out" "i \<le> nx_out" for j i
  proof -
    have lt: "j < ny_out + 1" "i < nx_out + 1" using le by simp_all
    show ?thesis
      unfolding f(1,2) using apply_grid_nth[OF so lt, of "pix2world wcs_out"] le
      by (simp add: corner_grid_nth)
  qed
  show ?thesis
    unfolding Let_def using s1 g s3 s4 s5 a b by (intro conjI allI impI) blast+
qed

text \<open>
  The theorem on a source and a destination of one pixel each, the destination shifted by
  one and a half pixels along x, at the lower left corner \<open>(j, i) = (1, 0)\<close>.
\<close>

theorem coordinate_mapper_corners_witness:
  "(1 :: nat) \<le> 1 \<and> (0 :: nat) \<le> 1
   \<and> length (xp_inout shifted_maps) = 2 \<and> length (xp_inout shifted_maps ! 1) = 2
   \<and> (fst (corner_grid 1 1) ! 1 ! 0, snd (corner_grid 1 1) ! 1 ! 0) = (- 1 / 2, 1 / 2)
   \<and> (xw_in shifted_maps ! 1 ! 0, yw_in shifted_maps ! 1 ! 0) = (- 1 / 2, 1 / 2)
   \<and> (xp_inout shifted_maps ! 1 ! 0, yp_inout shifted_maps ! 1 ! 0)
       = (Finite (- 2), Finite (1 / 2))
   \<and> (xw_out shifted_maps ! 1 ! 0, yw_out shifted_maps ! 1 ! 0) = (1, 1 / 2)"
proof -
  note t = coordinate_mapper_corners[of identity_wcs shifted_wcs same_frame 1 1 1 1,
      unfolded Let_def, folded shifted_maps_def]
  have j: "(1 :: nat) \<le> 1" and i: "(0 :: nat) \<le> 1" by simp_all
  have sh: "shaped (1 + 1) (1 + 1) (xp_inout shifted_maps)"
    using t by blast
  then have l: "length (xp_inout shifted_maps) = 2" "length (xp_inout shifted_maps ! 1) = 2"
    by (simp_all add: shaped_def)
  have g: "fst (corner_grid 1 1) ! 1 ! 0 = real 0 - 1 / 2 \<and> snd (corner_grid 1 1) ! 1 ! 0 = real 1 - 1 / 2"
    using t j i by blast
  have a: "(xw_in shifted_maps ! 1 ! 0, yw_in shifted_maps ! 1 ! 0)
            = same_frame (fst (pix2world identity_wcs (real 0 - 1 / 2) (real 1 - 1 / 2)))
                      (snd (pix2world identity_wcs (real 0 - 1 / 2) (real 1 - 1 / 2)))
        \<and> (xp_inout shifted_maps ! 1 ! 0, yp_inout shifted_maps ! 1 ! 0)
            = world2pix shifted_wcs (xw_in shifted_maps ! 1 ! 0) (yw_in shifted_maps ! 1 ! 0)"
    using t j i by blast
  have b: "(xw_out shifted_maps ! 1 ! 0, yw_out shifted_maps ! 1 ! 0)
            = pix2world shifted_wcs (real 0 - 1 / 2) (real 1 - 1 / 2)"
    using t j i by blast
  have a1: "(xw_in shifted_maps ! 1 ! 0, yw_in shifted_maps ! 1 ! 0) = (- 1 / 2, 1 / 2)"
    using a by (simp add: same_frame_def identity_wcs_def)
  have a2: "(xp_inout shifted_maps ! 1 ! 0, yp_inout shifted_maps ! 1 ! 0)
      = (Finite (- 2), Finite (1 / 2))"
    using a a1 by (simp add: shifted_wcs_def)
  have b1: "(xw_out shifted_maps ! 1 ! 0, yw_out shifted_maps ! 1 ! 0) = (1, 1 / 2)"
    using b by (simp add: shifted_wcs_def)
  have g1: "(fst (corner_grid 1 1) ! 1 ! 0, snd (corner_grid 1 1) ! 1 ! 0) = (- 1 / 2, 1 / 2)"
    using g by simp
  from j i l g1 a1 a2 b1 show ?thesis by (intro conjI)
qed

section \<open>The resolution of the concurrency argument\<close>

text \<open>
  Claim C7. A value of \<^verbatim>\<open>parallel\<close> that is neither a boolean nor an integer raises a type
  error, and an integer that is not positive raises a value error; in both cases nothing
  has been done before (the list of events is empty). The boolean true resolves to no
  fixed count: the parallel implementation then asks for the number of CPUs and behaves as
  if that number had been given, so the count is determined when the work is dispatched.
  The boolean false resolves to one process, and the call runs the kernel once in the
  calling process. A positive integer \<open>n\<close> resolves to \<open>n\<close>; for \<open>n > 1\<close> the call runs the
  parallel implementation with \<open>n\<close>, which creates a pool of exactly \<open>n\<close> processes and
  submits exactly \<open>n\<close> partitions to it.
\<close>

theorem concurrency_resolution:
  "reproject_celestial env ov cv slice array wi wo shape PyOther meth = ([], Inl TypeError)
   \<and> (n \<le> 0 \<longrightarrow>
        reproject_celestial env ov cv slice array wi wo shape (PyInt n) meth
          = ([], Inl ValueError))
   \<and> resolve_nproc (PyBool True) = Inr None
   \<and> parallel_impl env kern None nx
        = (EvCpuCount # fst (parallel_impl env kern (Some (cpu_count env)) nx),
           snd (parallel_impl env kern (Some (cpu_count env)) nx))
   \<and> (naxis wi = 2 \<longrightarrow>
        reproject_celestial env ov cv slice array wi wo shape (PyBool True) ''c''
          = (prelude array shape
               @ fst (run_parallel env (bound_kernel slice cv array wi wo shape) None
                        (int (cols array))),
             snd (run_parallel env (bound_kernel slice cv array wi wo shape) None
                    (int (cols array)))))
   \<and> resolve_nproc (PyBool False) = Inr (Some 1)
   \<and> (naxis wi = 2 \<longrightarrow>
        reproject_celestial env ov cv slice array wi wo shape (PyBool False) ''c''
          = (prelude array shape @ [EvKernel 0 (int (cols array))],
             snd (serial_impl (bound_kernel slice cv array wi wo shape) (int (cols array)))))
   \<and> (0 < n \<longrightarrow> resolve_nproc (PyInt n) = Inr (Some n))
   \<and> (1 < n \<and> naxis wi = 2 \<longrightarrow>
        reproject_celestial env ov cv slice array wi wo shape (PyInt n) ''c''
          = (prelude array shape
               @ fst (run_parallel env (bound_kernel slice cv array wi wo shape) (Some n)
                        (int (cols array))),
             snd (run_parallel env (bound_kernel slice cv array wi wo shape) (Some n)
                    (int (cols array)))))
   \<and> (1 \<le> n \<and> pool_create env = None \<longrightarrow>
        take (Suc (nat n)) (fst (parallel_impl env kern (Some n) nx)) = dispatch nx n
        \<and> dispatch nx n = EvPool n # map (\<lambda>p. EvApplyAsync (fst p) (snd p)) (partitions nx n)
        \<and> length (partitions nx n) = nat n)"
proof -
  have c1: "reproject_celestial env ov cv slice array wi wo shape PyOther meth = ([], Inl TypeError)"
    by (simp add: reproject_celestial_bad_flag resolve_nproc_simps)
  have c2: "n \<le> 0 \<longrightarrow>
        reproject_celestial env ov cv slice array wi wo shape (PyInt n) meth
          = ([], Inl ValueError)"
    by (simp add: reproject_celestial_bad_flag resolve_nproc_simps)
  have c3: "resolve_nproc (PyBool True) = Inr None" by (simp add: resolve_nproc_simps)
  have c4: "parallel_impl env kern None nx
        = (EvCpuCount # fst (parallel_impl env kern (Some (cpu_count env)) nx),
           snd (parallel_impl env kern (Some (cpu_count env)) nx))"
    by (rule parallel_impl_auto)
  have c5: "naxis wi = 2 \<longrightarrow>
        reproject_celestial env ov cv slice array wi wo shape (PyBool True) ''c''
          = (prelude array shape
               @ fst (run_parallel env (bound_kernel slice cv array wi wo shape) None
                        (int (cols array))),
             snd (run_parallel env (bound_kernel slice cv array wi wo shape) None
                    (int (cols array))))"
    using reproject_celestial_parallel[of "PyBool True" None wi] c3 by simp
  have c6: "resolve_nproc (PyBool False) = Inr (Some 1)" by (simp add: resolve_nproc_simps)
  have c7: "naxis wi = 2 \<longrightarrow>
        reproject_celestial env ov cv slice array wi wo shape (PyBool False) ''c''
          = (prelude array shape @ [EvKernel 0 (int (cols array))],
             snd (serial_impl (bound_kernel slice cv array wi wo shape) (int (cols array))))"
    using reproject_celestial_serial[of "PyBool False" wi] c6 by (simp add: fst_serial_impl)
  have c8: "0 < n \<longrightarrow> resolve_nproc (PyInt n) = Inr (Some n)"
    by (simp add: resolve_nproc_simps)
  have c9: "1 < n \<and> naxis wi = 2 \<longrightarrow>
        reproject_celestial env ov cv slice array wi wo shape (PyInt n) ''c''
          = (prelude array shape
               @ fst (run_parallel env (bound_kernel slice cv array wi wo shape) (Some n)
                        (int (cols array))),
             snd (run_parallel env (bound_kernel slice cv array wi wo shape) (Some n)
                    (int (cols array))))"
    using reproject_celestial_parallel[of "PyInt n" "Some n" wi] by (simp add: resolve_nproc_simps)
  have c10: "1 \<le> n \<and> pool_create env = None \<longrightarrow>
        take (Suc (nat n)) (fst (parallel_impl env kern (Some n) nx)) = dispatch nx n
        \<and> dispatch nx n = EvPool n # map (\<lambda>p. EvApplyAsync (fst p) (snd p)) (partitions nx n)
        \<and> length (partitions nx n) = nat n"
  proof (intro impI conjI)
    assume a: "1 \<le> n \<and> pool_create env = None"
    then obtain t where "fst (parallel_impl env kern (Some n) nx) = dispatch nx n @ t"
      using fst_parallel_impl_dispatch[of n env kern nx] by blast
    then show "take (Suc (nat n)) (fst (parallel_impl env kern (Some n) nx)) = dispatch nx n"
      by (simp add: length_dispatch)
    show "dispatch nx n = EvPool n # map (\<lambda>p. EvApplyAsync (fst p) (snd p)) (partitions nx n)"
      by (simp add: dispatch_def)
    show "length (partitions nx n) = nat n" by (rule length_partitions)
  qed
  from c1 c2 c3 c4 c5 c6 c7 c8 c9 c10 show ?thesis by (intro conjI)
qed

text \<open>
  The theorem on an image of one pixel: the integer 0, the boolean false, and the
  integer 2 on a machine where nothing fails.
\<close>

theorem concurrency_resolution_witness:
  "(0 :: int) \<le> 0
   \<and> reproject_celestial quiet_env unit_overlap same_frame null_slice one_pixel
         identity_wcs identity_wcs (1, 1) (PyInt 0) ''c'' = ([], Inl ValueError)
   \<and> naxis identity_wcs = 2
   \<and> reproject_celestial quiet_env unit_overlap same_frame null_slice one_pixel
         identity_wcs identity_wcs (1, 1) (PyBool False) ''c''
       = (prelude one_pixel (1, 1) @ [EvKernel 0 1], Inr ([[NonFin]], [[0]]))
   \<and> (0 :: int) < 2 \<and> resolve_nproc (PyInt 2) = Inr (Some 2)
   \<and> (1 :: int) < 2
   \<and> reproject_celestial quiet_env unit_overlap same_frame null_slice one_pixel
         identity_wcs identity_wcs (1, 1) (PyInt 2) ''c''
       = (prelude one_pixel (1, 1) @ [EvPool 2, EvApplyAsync 0 0, EvApplyAsync 0 1, EvClose, EvJoin],
          Inr ([[NonFin]], [[0]]))
   \<and> pool_create quiet_env = None
   \<and> dispatch 1 2 = [EvPool 2, EvApplyAsync 0 0, EvApplyAsync 0 1]"
proof -
  let ?K = "bound_kernel null_slice same_frame one_pixel identity_wcs identity_wcs (1, 1)"
  note t = concurrency_resolution[where env=quiet_env and ov=unit_overlap and cv=same_frame
      and slice=null_slice and array=one_pixel and wi=identity_wcs and wo=identity_wcs
      and shape="(1, 1)" and meth="''c''" and kern="?K" and nx=1]
  have z: "(0 :: int) \<le> 0" and l2: "(0 :: int) < 2" and l1: "(1 :: int) < 2" by simp_all
  have nax: "naxis identity_wcs = 2" by (simp add: identity_wcs_def)
  have pc: "pool_create quiet_env = None" by (simp add: quiet_env_def)
  have cols: "int (cols one_pixel) = 1" by (simp add: one_pixel_def)
  have r1: "reproject_celestial quiet_env unit_overlap same_frame null_slice one_pixel
         identity_wcs identity_wcs (1, 1) (PyInt 0) ''c'' = ([], Inl ValueError)"
    using t[where n=0, THEN conjunct2, THEN conjunct1] z by blast
  have "reproject_celestial quiet_env unit_overlap same_frame null_slice one_pixel
         identity_wcs identity_wcs (1, 1) (PyBool False) ''c''
       = (prelude one_pixel (1, 1) @ [EvKernel 0 (int (cols one_pixel))],
          snd (serial_impl ?K (int (cols one_pixel))))"
    using t[where n=0, THEN conjunct2, THEN conjunct2, THEN conjunct2, THEN conjunct2,
        THEN conjunct2, THEN conjunct2, THEN conjunct1] nax by blast
  then have r2: "reproject_celestial quiet_env unit_overlap same_frame null_slice one_pixel
         identity_wcs identity_wcs (1, 1) (PyBool False) ''c''
       = (prelude one_pixel (1, 1) @ [EvKernel 0 1], Inr ([[NonFin]], [[0]]))"
    unfolding cols serial_null by simp
  have r3: "resolve_nproc (PyInt 2) = Inr (Some 2)"
    using t[where n=2, THEN conjunct2, THEN conjunct2, THEN conjunct2, THEN conjunct2,
        THEN conjunct2, THEN conjunct2, THEN conjunct2, THEN conjunct1] l2 by blast
  have rp: "run_parallel quiet_env ?K (Some 2) 1 = parallel_impl quiet_env ?K (Some 2) 1"
    by (rule run_parallel_success[where r="([[NonFin]], [[0]])"]) (unfold parallel_quiet_null, simp)
  have "reproject_celestial quiet_env unit_overlap same_frame null_slice one_pixel
         identity_wcs identity_wcs (1, 1) (PyInt 2) ''c''
       = (prelude one_pixel (1, 1) @ fst (run_parallel quiet_env ?K (Some 2) (int (cols one_pixel))),
          snd (run_parallel quiet_env ?K (Some 2) (int (cols one_pixel))))"
    using t[where n=2, THEN conjunct2, THEN conjunct2, THEN conjunct2, THEN conjunct2,
        THEN conjunct2, THEN conjunct2, THEN conjunct2, THEN conjunct2, THEN conjunct1] l1 nax
    by blast
  then have r4: "reproject_celestial quiet_env unit_overlap same_frame null_slice one_pixel
         identity_wcs identity_wcs (1, 1) (PyInt 2) ''c''
       = (prelude one_pixel (1, 1) @ [EvPool 2, EvApplyAsync 0 0, EvApplyAsync 0 1, EvClose, EvJoin],
          Inr ([[NonFin]], [[0]]))"
    unfolding cols rp parallel_quiet_null by simp
  have "take (Suc (nat 2)) (fst (parallel_impl quiet_env ?K (Some 2) 1)) = dispatch 1 2"
    using t[where n=2, THEN conjunct2, THEN conjunct2, THEN conjunct2, THEN conjunct2,
        THEN conjunct2, THEN conjunct2, THEN conjunct2, THEN conjunct2, THEN conjunct2] pc
    by simp
  then have r5: "dispatch 1 2 = [EvPool 2, EvApplyAsync 0 0, EvApplyAsync 0 1]"
    unfolding parallel_quiet_null by simp
  from z r1 nax r2 l2 r3 l1 r4 pc r5 show ?thesis by (intro conjI)
qed

section \<open>Booleans are not integers for the concurrency argument\<close>

text \<open>
  Claim C10. The type of \<^verbatim>\<open>parallel\<close> is compared with \<^verbatim>\<open>int\<close> exactly, so a boolean never
  reaches the test \<^verbatim>\<open>parallel <= 0\<close>: no boolean resolves to an error, although the
  integer 0 raises a value error before anything is done. With the boolean false the call
  does what it does with the integer 1: it runs the kernel once in the calling process,
  and when the kernel returns, the call returns the normalised result. The boolean true
  does not resolve to what the integer 1 resolves to: with true the call asks for the
  number of CPUs, with the integer 1 it never does and only runs the kernel in the calling
  process.
\<close>

theorem boolean_flag_is_not_an_integer:
  "resolve_nproc (PyBool b) = Inr (if b then None else Some 1)
   \<and> resolve_nproc (PyInt 0) = Inl ValueError
   \<and> reproject_celestial env ov cv slice array wi wo shape (PyInt 0) meth = ([], Inl ValueError)
   \<and> (naxis wi = 2 \<longrightarrow>
        reproject_celestial env ov cv slice array wi wo shape (PyBool False) ''c''
          = reproject_celestial env ov cv slice array wi wo shape (PyInt 1) ''c'')
   \<and> (naxis wi = 2
        \<and> bound_kernel slice cv array wi wo shape 0 (int (cols array)) = Inr acc \<longrightarrow>
        reproject_celestial env ov cv slice array wi wo shape (PyBool False) ''c''
          = (prelude array shape @ [EvKernel 0 (int (cols array))],
             Inr (grid_div (fst acc) (snd acc), snd acc)))
   \<and> resolve_nproc (PyInt 1) = Inr (Some 1)
   \<and> resolve_nproc (PyBool True) \<noteq> resolve_nproc (PyInt 1)
   \<and> (naxis wi = 2 \<longrightarrow>
        EvCpuCount \<in> set (fst (reproject_celestial env ov cv slice array wi wo shape
                                 (PyBool True) ''c''))
        \<and> EvCpuCount \<notin> set (fst (reproject_celestial env ov cv slice array wi wo shape
                                 (PyInt 1) ''c''))
        \<and> fst (reproject_celestial env ov cv slice array wi wo shape (PyInt 1) ''c'')
            = prelude array shape @ [EvKernel 0 (int (cols array))])"
proof -
  let ?K = "bound_kernel slice cv array wi wo shape" and ?nx = "int (cols array)"
  have c1: "resolve_nproc (PyBool b) = Inr (if b then None else Some 1)"
    by (simp add: resolve_nproc_simps)
  have c2: "resolve_nproc (PyInt 0) = Inl ValueError" by (simp add: resolve_nproc_simps)
  have c3: "reproject_celestial env ov cv slice array wi wo shape (PyInt 0) meth
      = ([], Inl ValueError)"
    using c2 by (rule reproject_celestial_bad_flag)
  have f: "resolve_nproc (PyBool False) = Inr (Some 1)" by (simp add: resolve_nproc_simps)
  have c6: "resolve_nproc (PyInt 1) = Inr (Some 1)" by (simp add: resolve_nproc_simps)
  have sF: "reproject_celestial env ov cv slice array wi wo shape (PyBool False) ''c''
      = (prelude array shape @ fst (serial_impl ?K ?nx), snd (serial_impl ?K ?nx))"
    if "naxis wi = 2"
    using reproject_celestial_serial[OF f that] .
  have s1: "reproject_celestial env ov cv slice array wi wo shape (PyInt 1) ''c''
      = (prelude array shape @ fst (serial_impl ?K ?nx), snd (serial_impl ?K ?nx))"
    if "naxis wi = 2"
    using reproject_celestial_serial[OF c6 that] .
  have c4: "naxis wi = 2 \<longrightarrow>
        reproject_celestial env ov cv slice array wi wo shape (PyBool False) ''c''
          = reproject_celestial env ov cv slice array wi wo shape (PyInt 1) ''c''"
    using sF s1 by simp
  have c5: "naxis wi = 2 \<and> ?K 0 ?nx = Inr acc \<longrightarrow>
        reproject_celestial env ov cv slice array wi wo shape (PyBool False) ''c''
          = (prelude array shape @ [EvKernel 0 ?nx],
             Inr (grid_div (fst acc) (snd acc), snd acc))"
    using sF by (auto simp: serial_impl_simps(1))
  have c7: "resolve_nproc (PyBool True) \<noteq> resolve_nproc (PyInt 1)"
    by (simp add: resolve_nproc_simps)
  have c8: "naxis wi = 2 \<longrightarrow>
        EvCpuCount \<in> set (fst (reproject_celestial env ov cv slice array wi wo shape
                                 (PyBool True) ''c''))
        \<and> EvCpuCount \<notin> set (fst (reproject_celestial env ov cv slice array wi wo shape
                                 (PyInt 1) ''c''))
        \<and> fst (reproject_celestial env ov cv slice array wi wo shape (PyInt 1) ''c'')
            = prelude array shape @ [EvKernel 0 ?nx]"
  proof
    assume n: "naxis wi = 2"
    have t: "resolve_nproc (PyBool True) = Inr None" by (simp add: resolve_nproc_simps)
    have p: "reproject_celestial env ov cv slice array wi wo shape (PyBool True) ''c''
        = (prelude array shape @ fst (run_parallel env ?K None ?nx),
           snd (run_parallel env ?K None ?nx))"
      using reproject_celestial_parallel[OF t n] by simp
    obtain u where u: "fst (run_parallel env ?K None ?nx) = fst (parallel_impl env ?K None ?nx) @ u"
      using fst_run_parallel_prefix by blast
    have "EvCpuCount \<in> set (fst (parallel_impl env ?K None ?nx))"
      by (simp add: parallel_impl_auto)
    then have a: "EvCpuCount \<in> set (fst (reproject_celestial env ov cv slice array wi wo shape
                                 (PyBool True) ''c''))"
      unfolding p using u by simp
    have e: "fst (reproject_celestial env ov cv slice array wi wo shape (PyInt 1) ''c'')
            = prelude array shape @ [EvKernel 0 ?nx]"
      using s1[OF n] by (simp add: fst_serial_impl)
    have b: "EvCpuCount \<notin> set (fst (reproject_celestial env ov cv slice array wi wo shape
                                 (PyInt 1) ''c''))"
      unfolding e by (simp add: prelude_events)
    from a b e show "EvCpuCount \<in> set (fst (reproject_celestial env ov cv slice array wi wo shape
                                 (PyBool True) ''c''))
        \<and> EvCpuCount \<notin> set (fst (reproject_celestial env ov cv slice array wi wo shape
                                 (PyInt 1) ''c''))
        \<and> fst (reproject_celestial env ov cv slice array wi wo shape (PyInt 1) ''c'')
            = prelude array shape @ [EvKernel 0 ?nx]"
      by (intro conjI)
  qed
  from c1 c2 c3 c4 c5 c6 c7 c8 show ?thesis by (intro conjI)
qed

text \<open>The theorem on an image of one pixel and a kernel that returns zeros.\<close>

theorem boolean_flag_is_not_an_integer_witness:
  "naxis identity_wcs = 2
   \<and> bound_kernel null_slice same_frame one_pixel identity_wcs identity_wcs (1, 1) 0
         (int (cols one_pixel)) = Inr ([[0]], [[0]])
   \<and> reproject_celestial quiet_env unit_overlap same_frame null_slice one_pixel
         identity_wcs identity_wcs (1, 1) (PyBool False) ''c''
       = (prelude one_pixel (1, 1) @ [EvKernel 0 1], Inr ([[NonFin]], [[0]]))
   \<and> reproject_celestial quiet_env unit_overlap same_frame null_slice one_pixel
         identity_wcs identity_wcs (1, 1) (PyInt 1) ''c''
       = (prelude one_pixel (1, 1) @ [EvKernel 0 1], Inr ([[NonFin]], [[0]]))
   \<and> EvCpuCount \<in> set (fst (reproject_celestial quiet_env unit_overlap same_frame null_slice
         one_pixel identity_wcs identity_wcs (1, 1) (PyBool True) ''c''))"
proof -
  note t = boolean_flag_is_not_an_integer[where env=quiet_env and ov=unit_overlap
      and cv=same_frame and slice=null_slice and array=one_pixel and wi=identity_wcs
      and wo=identity_wcs and shape="(1, 1)" and acc="([[0]], [[0]])" and b=False]
  let ?z = "([[0]], [[0]]) :: accumulators"
  have nax: "naxis identity_wcs = 2" by (simp add: identity_wcs_def)
  have cols: "int (cols one_pixel) = 1" by (simp add: one_pixel_def)
  have k: "bound_kernel null_slice same_frame one_pixel identity_wcs identity_wcs (1, 1) 0
         (int (cols one_pixel)) = Inr ([[0]], [[0]])"
    unfolding null_kernel by (simp add: zeros_def)
  have "reproject_celestial quiet_env unit_overlap same_frame null_slice one_pixel
         identity_wcs identity_wcs (1, 1) (PyBool False) ''c''
       = (prelude one_pixel (1, 1) @ [EvKernel 0 (int (cols one_pixel))],
          Inr (grid_div (fst ?z) (snd ?z), snd ?z))"
    by (rule t[THEN conjunct2, THEN conjunct2, THEN conjunct2, THEN conjunct2, THEN conjunct1,
          rule_format]) (intro conjI nax k)
  then have r1: "reproject_celestial quiet_env unit_overlap same_frame null_slice one_pixel
         identity_wcs identity_wcs (1, 1) (PyBool False) ''c''
       = (prelude one_pixel (1, 1) @ [EvKernel 0 1], Inr ([[NonFin]], [[0]]))"
    unfolding cols by (simp add: grid_div_def fdiv_def zero_fnum_def)
  have "reproject_celestial quiet_env unit_overlap same_frame null_slice one_pixel
         identity_wcs identity_wcs (1, 1) (PyBool False) ''c''
       = reproject_celestial quiet_env unit_overlap same_frame null_slice one_pixel
         identity_wcs identity_wcs (1, 1) (PyInt 1) ''c''"
    using t[THEN conjunct2, THEN conjunct2, THEN conjunct2, THEN conjunct1] nax by blast
  then have r2: "reproject_celestial quiet_env unit_overlap same_frame null_slice one_pixel
         identity_wcs identity_wcs (1, 1) (PyInt 1) ''c''
       = (prelude one_pixel (1, 1) @ [EvKernel 0 1], Inr ([[NonFin]], [[0]]))"
    using r1 by simp
  have r3: "EvCpuCount \<in> set (fst (reproject_celestial quiet_env unit_overlap same_frame null_slice
         one_pixel identity_wcs identity_wcs (1, 1) (PyBool True) ''c''))"
    using t[THEN conjunct2, THEN conjunct2, THEN conjunct2, THEN conjunct2, THEN conjunct2,
        THEN conjunct2, THEN conjunct2] nax by blast
  from nax k r1 r2 r3 show ?thesis by (intro conjI)
qed

section \<open>The fallback to the serial implementation\<close>

text \<open>
  Claim C5, as the code has it. The fallback is the handler of line 230, so it covers the
  failures that reach the caller as an exception. When the parallel implementation ends
  with an exception other than \<open>KeyboardInterrupt\<close>, the call logs the two warnings, runs
  the kernel once over all the columns in the calling process, and returns what the serial
  implementation returns: the normalised accumulators of that run when the kernel returns,
  and the exception of the kernel when it raises. Nothing of the parallel run enters the
  result. The parallel implementation ends with such an exception when the pool cannot be
  created, or when the first fetch that does not return a result raises such an
  exception, no worker process has died and no ctrl+c arrives while the pool is closed
  and joined; in the second case the pool is closed and joined first.
\<close>

theorem raised_failure_falls_back:
  "(snd (parallel_impl env kern nproc nx) = Inl e \<and> e \<noteq> KeyboardInterrupt \<and> e \<noteq> Blocked \<longrightarrow>
      run_parallel env kern nproc nx
        = (fst (parallel_impl env kern nproc nx) @ [EvWarnFailed e, EvWarnSerial, EvKernel 0 nx],
           snd (serial_impl kern nx)))
   \<and> (1 \<le> n \<and> pool_create env = Some e \<longrightarrow>
        parallel_impl env kern (Some n) nx = ([EvPoolFailed (pool_started env)], Inl e))
   \<and> (1 \<le> n \<and> pool_create env = None \<and> first_error (outcomes env kern nx n) = Some e
        \<and> e \<noteq> KeyboardInterrupt \<and> e \<noteq> Blocked
        \<and> \<not> finally_interrupt env \<and> Inl Blocked \<notin> set (outcomes env kern nx n) \<longrightarrow>
        parallel_impl env kern (Some n) nx = (dispatch nx n @ [EvClose, EvJoin], Inl e))
   \<and> (naxis wi = 2 \<and> resolve_nproc parallel = Inr nproc
        \<and> (nproc = None \<or> (\<exists>k. nproc = Some k \<and> 1 < k))
        \<and> snd (parallel_impl env (bound_kernel slice cv array wi wo shape) nproc
                  (int (cols array))) = Inl e
        \<and> e \<noteq> KeyboardInterrupt \<and> e \<noteq> Blocked \<longrightarrow>
        reproject_celestial env ov cv slice array wi wo shape parallel ''c''
          = (prelude array shape
               @ fst (parallel_impl env (bound_kernel slice cv array wi wo shape) nproc
                        (int (cols array)))
               @ [EvWarnFailed e, EvWarnSerial, EvKernel 0 (int (cols array))],
             snd (serial_impl (bound_kernel slice cv array wi wo shape) (int (cols array)))))
   \<and> (kern 0 nx = Inr acc \<longrightarrow>
        snd (serial_impl kern nx) = Inr (grid_div (fst acc) (snd acc), snd acc))
   \<and> (kern 0 nx = Inl e' \<longrightarrow> snd (serial_impl kern nx) = Inl e')"
proof -
  let ?K = "bound_kernel slice cv array wi wo shape" and ?nx = "int (cols array)"
  have c1: "snd (parallel_impl env kern nproc nx) = Inl e \<and> e \<noteq> KeyboardInterrupt
      \<and> e \<noteq> Blocked \<longrightarrow>
      run_parallel env kern nproc nx
        = (fst (parallel_impl env kern nproc nx) @ [EvWarnFailed e, EvWarnSerial, EvKernel 0 nx],
           snd (serial_impl kern nx))"
    by (auto simp: run_parallel_failure fst_serial_impl)
  have c2: "1 \<le> n \<and> pool_create env = Some e \<longrightarrow>
        parallel_impl env kern (Some n) nx = ([EvPoolFailed (pool_started env)], Inl e)"
    by (auto simp: parallel_impl_no_pool)
  have c3: "1 \<le> n \<and> pool_create env = None \<and> first_error (outcomes env kern nx n) = Some e
        \<and> e \<noteq> KeyboardInterrupt \<and> e \<noteq> Blocked
        \<and> \<not> finally_interrupt env \<and> Inl Blocked \<notin> set (outcomes env kern nx n) \<longrightarrow>
        parallel_impl env kern (Some n) nx = (dispatch nx n @ [EvClose, EvJoin], Inl e)"
    using parallel_impl_failure[of n env kern nx e] by blast
  have c4: "naxis wi = 2 \<and> resolve_nproc parallel = Inr nproc
        \<and> (nproc = None \<or> (\<exists>k. nproc = Some k \<and> 1 < k))
        \<and> snd (parallel_impl env ?K nproc ?nx) = Inl e
        \<and> e \<noteq> KeyboardInterrupt \<and> e \<noteq> Blocked \<longrightarrow>
        reproject_celestial env ov cv slice array wi wo shape parallel ''c''
          = (prelude array shape @ fst (parallel_impl env ?K nproc ?nx)
               @ [EvWarnFailed e, EvWarnSerial, EvKernel 0 ?nx],
             snd (serial_impl ?K ?nx))"
  proof (intro impI)
    assume a: "naxis wi = 2 \<and> resolve_nproc parallel = Inr nproc
        \<and> (nproc = None \<or> (\<exists>k. nproc = Some k \<and> 1 < k))
        \<and> snd (parallel_impl env ?K nproc ?nx) = Inl e
        \<and> e \<noteq> KeyboardInterrupt \<and> e \<noteq> Blocked"
    then have r: "reproject_celestial env ov cv slice array wi wo shape parallel ''c''
        = (prelude array shape @ fst (run_parallel env ?K nproc ?nx),
           snd (run_parallel env ?K nproc ?nx))"
      using reproject_celestial_parallel[of parallel nproc wi] by blast
    have "run_parallel env ?K nproc ?nx
        = (fst (parallel_impl env ?K nproc ?nx) @ [EvWarnFailed e, EvWarnSerial]
             @ fst (serial_impl ?K ?nx),
           snd (serial_impl ?K ?nx))"
      using a by (intro run_parallel_failure) simp_all
    then show "reproject_celestial env ov cv slice array wi wo shape parallel ''c''
          = (prelude array shape @ fst (parallel_impl env ?K nproc ?nx)
               @ [EvWarnFailed e, EvWarnSerial, EvKernel 0 ?nx],
             snd (serial_impl ?K ?nx))"
      unfolding r by (simp add: fst_serial_impl)
  qed
  have c5: "kern 0 nx = Inr acc \<longrightarrow>
        snd (serial_impl kern nx) = Inr (grid_div (fst acc) (snd acc), snd acc)"
    by (simp add: serial_impl_def)
  have c6: "kern 0 nx = Inl e' \<longrightarrow> snd (serial_impl kern nx) = Inl e'"
    by (simp add: serial_impl_def)
  from c1 c2 c3 c4 c5 c6 show ?thesis by (intro conjI)
qed

text \<open>
  The theorem on a run with two processes in which fetching the result of the second
  worker raises: the pool is closed and joined, the warnings are logged, the kernel runs
  in the calling process, and the call returns its normalised result.
\<close>

theorem raised_failure_falls_back_witness:
  "(1 :: int) \<le> 2 \<and> pool_create crash_env = None
   \<and> first_error (outcomes crash_env
         (bound_kernel null_slice same_frame one_pixel identity_wcs identity_wcs (1, 1)) 1 2)
       = Some (Failure ''kernel raised'')
   \<and> Failure ''kernel raised'' \<noteq> KeyboardInterrupt \<and> Failure ''kernel raised'' \<noteq> Blocked
   \<and> \<not> finally_interrupt crash_env
   \<and> Inl Blocked \<notin> set (outcomes crash_env
         (bound_kernel null_slice same_frame one_pixel identity_wcs identity_wcs (1, 1)) 1 2)
   \<and> naxis identity_wcs = 2 \<and> resolve_nproc (PyInt 2) = Inr (Some 2)
   \<and> reproject_celestial crash_env unit_overlap same_frame null_slice one_pixel
         identity_wcs identity_wcs (1, 1) (PyInt 2) ''c''
       = (prelude one_pixel (1, 1)
            @ [EvPool 2, EvApplyAsync 0 0, EvApplyAsync 0 1, EvClose, EvJoin,
               EvWarnFailed (Failure ''kernel raised''), EvWarnSerial, EvKernel 0 1],
          Inr ([[NonFin]], [[0]]))"
proof -
  let ?K = "bound_kernel null_slice same_frame one_pixel identity_wcs identity_wcs (1, 1)"
  let ?e = "Failure ''kernel raised''"
  note t = raised_failure_falls_back[where env=crash_env and ov=unit_overlap and cv=same_frame
      and slice=null_slice and array=one_pixel and wi=identity_wcs and wo=identity_wcs
      and shape="(1, 1)" and kern="?K" and nx=1 and n=2 and e="?e" and parallel="PyInt 2"
      and nproc="Some 2"]
  have n: "(1 :: int) \<le> 2" by simp
  have pc: "pool_create crash_env = None" by (simp add: crash_env_def)
  have fe: "first_error (outcomes crash_env ?K 1 2) = Some ?e"
    unfolding outcomes_crash_null by simp
  have ne: "?e \<noteq> KeyboardInterrupt" and nb: "?e \<noteq> Blocked" by simp_all
  have fi: "\<not> finally_interrupt crash_env" by (simp add: crash_env_def)
  have ob: "Inl Blocked \<notin> set (outcomes crash_env ?K 1 2)"
    unfolding outcomes_crash_null by simp
  have nax: "naxis identity_wcs = 2" by (simp add: identity_wcs_def)
  have rs: "resolve_nproc (PyInt 2) = Inr (Some 2)" by (simp add: resolve_nproc_simps)
  have cols: "int (cols one_pixel) = 1" by (simp add: one_pixel_def)
  have p: "parallel_impl crash_env ?K (Some 2) 1 = (dispatch 1 2 @ [EvClose, EvJoin], Inl ?e)"
    by (rule t[THEN conjunct2, THEN conjunct2, THEN conjunct1, rule_format])
       (intro conjI n pc fe ne nb fi ob)
  have sn: "snd (parallel_impl crash_env ?K (Some 2) (int (cols one_pixel))) = Inl ?e"
    unfolding cols p by simp
  have gt: "Some 2 = None \<or> (\<exists>k. Some (2 :: int) = Some k \<and> 1 < k)" by simp
  have "reproject_celestial crash_env unit_overlap same_frame null_slice one_pixel
         identity_wcs identity_wcs (1, 1) (PyInt 2) ''c''
       = (prelude one_pixel (1, 1) @ fst (parallel_impl crash_env ?K (Some 2) (int (cols one_pixel)))
            @ [EvWarnFailed ?e, EvWarnSerial, EvKernel 0 (int (cols one_pixel))],
          snd (serial_impl ?K (int (cols one_pixel))))"
    by (rule t[THEN conjunct2, THEN conjunct2, THEN conjunct2, THEN conjunct1, rule_format])
       (intro conjI nax rs gt sn ne nb)
  then have r: "reproject_celestial crash_env unit_overlap same_frame null_slice one_pixel
         identity_wcs identity_wcs (1, 1) (PyInt 2) ''c''
       = (prelude one_pixel (1, 1)
            @ [EvPool 2, EvApplyAsync 0 0, EvApplyAsync 0 1, EvClose, EvJoin,
               EvWarnFailed ?e, EvWarnSerial, EvKernel 0 1],
          Inr ([[NonFin]], [[0]]))"
    unfolding cols p serial_null dispatch_1_2 by simp
  from n pc fe ne nb fi ob nax rs r show ?thesis by (intro conjI)
qed

text \<open>
  Claim C5 as the specification states it fails for a failure that raises nothing in the
  calling process. In a run with two processes the process of the second worker dies,
  so its task is never completed. The caller fetches the result of the first worker and
  then waits without a timeout for the second (line 201): the call never returns, no
  warning is logged and the serial implementation is not run.
\<close>

theorem dead_worker_blocks_counterexample:
  "reproject_celestial dead_worker_env unit_overlap same_frame null_slice one_pixel
       identity_wcs identity_wcs (1, 1) (PyInt 2) ''c''
     = (prelude one_pixel (1, 1) @ [EvPool 2, EvApplyAsync 0 0, EvApplyAsync 0 1], Inl Blocked)"
proof -
  let ?K = "bound_kernel null_slice same_frame one_pixel identity_wcs identity_wcs (1, 1)"
  have n: "(1 :: int) \<le> 2" by simp
  have pc: "pool_create dead_worker_env = None" by (simp add: dead_worker_env_def)
  have fe: "first_error (outcomes dead_worker_env ?K 1 2) = Some Blocked"
    unfolding outcomes_dead_worker_null by simp
  have p: "parallel_impl dead_worker_env ?K (Some 2) 1 = (dispatch 1 2, Inl Blocked)"
    using n pc fe by (rule parallel_impl_blocked)
  have rp: "run_parallel dead_worker_env ?K (Some 2) 1 = (dispatch 1 2, Inl Blocked)"
    using run_parallel_blocked[of dead_worker_env ?K "Some 2" 1] p by simp
  have nax: "naxis identity_wcs = 2" by (simp add: identity_wcs_def)
  have rs: "resolve_nproc (PyInt 2) = Inr (Some 2)" by (simp add: resolve_nproc_simps)
  have gt: "Some 2 = None \<or> (\<exists>k. Some (2 :: int) = Some k \<and> 1 < k)" by simp
  have cols: "int (cols one_pixel) = 1" by (simp add: one_pixel_def)
  show ?thesis
    unfolding reproject_celestial_parallel[OF rs nax gt] cols rp dispatch_1_2 by simp
qed

section \<open>Cancellation\<close>

text \<open>
  Claim C6 at three runs with two processes. The comment of lines 205--208 states the
  intent: on ctrl+c, terminate everything and erase the pool before re-raising.

  When ctrl+c arrives while the caller waits for the first worker, the handler of line
  204 does so: the pool is terminated and joined, and the call ends with
  \<open>KeyboardInterrupt\<close>.

  When fetching the result of the first worker raises an exception while the second
  worker still runs, the exception leaves the \<^verbatim>\<open>try\<close> body past the handler of line 204 and
  the \<^verbatim>\<open>finally\<close> block closes the pool and waits for the second worker. Ctrl+c arrives
  during that wait: \<open>KeyboardInterrupt\<close> leaves the \<^verbatim>\<open>finally\<close> block, which no handler
  guards, and the call ends with it. The pool has been closed and the join has been
  interrupted; nothing has terminated the workers.

  When ctrl+c arrives inside the constructor of the pool after one worker process has been
  started, \<^verbatim>\<open>pool\<close> is still \<^verbatim>\<open>None\<close>: the call ends with \<open>KeyboardInterrupt\<close> and the process
  that was started is neither terminated nor joined.

  In all three runs the call returns no result, logs no warning and does not run the
  kernel in the calling process.
\<close>

theorem interrupt_outside_handler_leaves_workers:
  "reproject_celestial interrupt_env unit_overlap same_frame null_slice one_pixel
       identity_wcs identity_wcs (1, 1) (PyInt 2) ''c''
     = (prelude one_pixel (1, 1)
          @ [EvPool 2, EvApplyAsync 0 0, EvApplyAsync 0 1, EvTerminate, EvJoin],
        Inl KeyboardInterrupt)
   \<and> reproject_celestial late_interrupt_env unit_overlap same_frame null_slice one_pixel
       identity_wcs identity_wcs (1, 1) (PyInt 2) ''c''
     = (prelude one_pixel (1, 1)
          @ [EvPool 2, EvApplyAsync 0 0, EvApplyAsync 0 1, EvClose, EvJoin],
        Inl KeyboardInterrupt)
   \<and> EvTerminate \<notin> set (fst (reproject_celestial late_interrupt_env unit_overlap same_frame
       null_slice one_pixel identity_wcs identity_wcs (1, 1) (PyInt 2) ''c''))
   \<and> reproject_celestial pool_interrupt_env unit_overlap same_frame null_slice one_pixel
       identity_wcs identity_wcs (1, 1) (PyInt 2) ''c''
     = (prelude one_pixel (1, 1) @ [EvPoolFailed 1], Inl KeyboardInterrupt)
   \<and> EvTerminate \<notin> set (fst (reproject_celestial pool_interrupt_env unit_overlap same_frame
       null_slice one_pixel identity_wcs identity_wcs (1, 1) (PyInt 2) ''c''))"
proof -
  let ?K = "bound_kernel null_slice same_frame one_pixel identity_wcs identity_wcs (1, 1)"
  let ?run = "\<lambda>env. reproject_celestial env unit_overlap same_frame null_slice one_pixel
       identity_wcs identity_wcs (1, 1) (PyInt 2) ''c''"
  have n: "(1 :: int) \<le> 2" by simp
  have nax: "naxis identity_wcs = 2" by (simp add: identity_wcs_def)
  have rs: "resolve_nproc (PyInt 2) = Inr (Some 2)" by (simp add: resolve_nproc_simps)
  have gt: "Some 2 = None \<or> (\<exists>k. Some (2 :: int) = Some k \<and> 1 < k)" by simp
  have cols: "int (cols one_pixel) = 1" by (simp add: one_pixel_def)
  have run: "?run env = (prelude one_pixel (1, 1) @ fst (run_parallel env ?K (Some 2) 1),
      snd (run_parallel env ?K (Some 2) 1))" for env
    using reproject_celestial_parallel[OF rs nax gt, of env unit_overlap same_frame null_slice
        one_pixel identity_wcs "(1, 1)"]
    unfolding cols .
  have p1: "parallel_impl interrupt_env ?K (Some 2) 1
      = (dispatch 1 2 @ [EvTerminate, EvJoin], Inl KeyboardInterrupt)"
  proof (rule parallel_impl_interrupt[OF n])
    show "pool_create interrupt_env = None" by (simp add: interrupt_env_def)
    show "first_error (outcomes interrupt_env ?K 1 2) = Some KeyboardInterrupt"
      unfolding outcomes_interrupt_null by simp
  qed
  have r1: "run_parallel interrupt_env ?K (Some 2) 1
      = (dispatch 1 2 @ [EvTerminate, EvJoin], Inl KeyboardInterrupt)"
    using run_parallel_interrupt[of interrupt_env ?K "Some 2" 1] p1 by simp
  have c1: "?run interrupt_env
      = (prelude one_pixel (1, 1)
           @ [EvPool 2, EvApplyAsync 0 0, EvApplyAsync 0 1, EvTerminate, EvJoin],
         Inl KeyboardInterrupt)"
    unfolding run r1 dispatch_1_2 by simp
  have "parallel_impl late_interrupt_env ?K (Some 2) 1
      = finally_block late_interrupt_env (outcomes late_interrupt_env ?K 1 2) (dispatch 1 2)
          (Inl (Failure ''kernel raised''))"
  proof (rule parallel_impl_raised[OF n])
    show "pool_create late_interrupt_env = None" by (simp add: late_interrupt_env_def)
    show "first_error (outcomes late_interrupt_env ?K 1 2) = Some (Failure ''kernel raised'')"
      unfolding outcomes_late_interrupt_null by simp
  qed simp_all
  also have "\<dots> = (dispatch 1 2 @ [EvClose, EvJoin], Inl KeyboardInterrupt)"
    by (rule finally_block_interrupt) (simp add: late_interrupt_env_def)
  finally have p2: "parallel_impl late_interrupt_env ?K (Some 2) 1
      = (dispatch 1 2 @ [EvClose, EvJoin], Inl KeyboardInterrupt)" .
  have r2: "run_parallel late_interrupt_env ?K (Some 2) 1
      = (dispatch 1 2 @ [EvClose, EvJoin], Inl KeyboardInterrupt)"
    using run_parallel_interrupt[of late_interrupt_env ?K "Some 2" 1] p2 by simp
  have c2: "?run late_interrupt_env
      = (prelude one_pixel (1, 1)
           @ [EvPool 2, EvApplyAsync 0 0, EvApplyAsync 0 1, EvClose, EvJoin],
         Inl KeyboardInterrupt)"
    unfolding run r2 dispatch_1_2 by simp
  have c3: "EvTerminate \<notin> set (fst (?run late_interrupt_env))"
    unfolding c2 by (simp add: prelude_def mapping_events_def)
  have p3: "parallel_impl pool_interrupt_env ?K (Some 2) 1
      = ([EvPoolFailed (pool_started pool_interrupt_env)], Inl KeyboardInterrupt)"
    by (rule parallel_impl_no_pool[OF n]) (simp add: pool_interrupt_env_def)
  have r3: "run_parallel pool_interrupt_env ?K (Some 2) 1
      = ([EvPoolFailed 1], Inl KeyboardInterrupt)"
    using run_parallel_interrupt[of pool_interrupt_env ?K "Some 2" 1] p3
    by (simp add: pool_interrupt_env_def)
  have c4: "?run pool_interrupt_env
      = (prelude one_pixel (1, 1) @ [EvPoolFailed 1], Inl KeyboardInterrupt)"
    unfolding run r3 by simp
  have c5: "EvTerminate \<notin> set (fst (?run pool_interrupt_env))"
    unfolding c4 by (simp add: prelude_def mapping_events_def)
  from c1 c2 c3 c4 c5 show ?thesis by (intro conjI)
qed

section \<open>When the configuration errors are raised\<close>

text \<open>
  Claim C8, as the code has it. A value of \<^verbatim>\<open>parallel\<close> of a wrong type or an integer that
  is not positive is rejected before anything is done: the list of events is empty. A
  source projection that does not have two axes is rejected after the array has been
  converted to floats and before any corner grid is built or any coordinate is
  transformed. A method that is neither \<^verbatim>\<open>legacy\<close> nor \<^verbatim>\<open>c\<close> is rejected only at the end
  of the function: the two corner grids have been built, the three coordinate transforms
  and the frame conversion have been applied and the arrays have been made contiguous,
  but no resampling has been done. In none of the three cases is anything run again.
\<close>

theorem configuration_errors_order:
  "(resolve_nproc parallel = Inl e \<longrightarrow>
      reproject_celestial env ov cv slice array wi wo shape parallel meth = ([], Inl e))
   \<and> (resolve_nproc parallel = Inl e \<longleftrightarrow>
        parallel = PyOther \<and> e = TypeError \<or> (\<exists>n\<le>0. parallel = PyInt n) \<and> e = ValueError)
   \<and> (resolve_nproc parallel = Inr nproc \<and> naxis wi \<noteq> 2 \<longrightarrow>
        reproject_celestial env ov cv slice array wi wo shape parallel meth
          = ([EvAstype], Inl NotImplementedError))
   \<and> (resolve_nproc parallel = Inr nproc \<and> naxis wi = 2
        \<and> meth \<noteq> ''legacy'' \<and> meth \<noteq> ''c'' \<longrightarrow>
        reproject_celestial env ov cv slice array wi wo shape parallel meth
          = ([EvAstype, EvCornerGrid (rows array) (cols array), EvPix2World,
              EvCornerGrid (fst shape) (snd shape), EvPix2World, EvConvert, EvWorld2Pix,
              EvContiguous],
             Inl ValueError))"
proof -
  have c1: "resolve_nproc parallel = Inl e \<longrightarrow>
      reproject_celestial env ov cv slice array wi wo shape parallel meth = ([], Inl e)"
    by (simp add: reproject_celestial_bad_flag)
  have c2: "resolve_nproc parallel = Inl e \<longleftrightarrow>
        parallel = PyOther \<and> e = TypeError \<or> (\<exists>n\<le>0. parallel = PyInt n) \<and> e = ValueError"
    by (cases parallel) (auto simp: resolve_nproc_simps)
  have c3: "resolve_nproc parallel = Inr nproc \<and> naxis wi \<noteq> 2 \<longrightarrow>
        reproject_celestial env ov cv slice array wi wo shape parallel meth
          = ([EvAstype], Inl NotImplementedError)"
    by (simp add: reproject_celestial_naxis)
  have c4: "resolve_nproc parallel = Inr nproc \<and> naxis wi = 2
        \<and> meth \<noteq> ''legacy'' \<and> meth \<noteq> ''c'' \<longrightarrow>
        reproject_celestial env ov cv slice array wi wo shape parallel meth
          = ([EvAstype, EvCornerGrid (rows array) (cols array), EvPix2World,
              EvCornerGrid (fst shape) (snd shape), EvPix2World, EvConvert, EvWorld2Pix,
              EvContiguous],
             Inl ValueError)"
    using reproject_celestial_unknown[of parallel nproc wi meth env ov cv slice array wo shape]
    by (simp add: prelude_def mapping_events_def)
  from c1 c2 c3 c4 show ?thesis by (intro conjI)
qed

text \<open>
  The theorem on the integer -1, on a source projection of three axes, and on the method
  \<^verbatim>\<open>fortran\<close>.
\<close>

theorem configuration_errors_order_witness:
  "resolve_nproc (PyInt (- 1)) = Inl ValueError
   \<and> reproject_celestial quiet_env unit_overlap same_frame null_slice one_pixel
        identity_wcs identity_wcs (1, 1) (PyInt (- 1)) ''c'' = ([], Inl ValueError)
   \<and> resolve_nproc (PyBool False) = Inr (Some 1) \<and> naxis cube_wcs \<noteq> 2
   \<and> reproject_celestial quiet_env unit_overlap same_frame null_slice one_pixel
        cube_wcs identity_wcs (1, 1) (PyBool False) ''c'' = ([EvAstype], Inl NotImplementedError)
   \<and> naxis identity_wcs = 2 \<and> ''fortran'' \<noteq> ''legacy'' \<and> ''fortran'' \<noteq> ''c''
   \<and> snd (reproject_celestial quiet_env unit_overlap same_frame null_slice one_pixel
        identity_wcs identity_wcs (1, 1) (PyBool False) ''fortran'') = Inl ValueError"
proof -
  note t = configuration_errors_order[where env=quiet_env and ov=unit_overlap and cv=same_frame
      and slice=null_slice and array=one_pixel and wo=identity_wcs and shape="(1, 1)"
      and nproc="Some 1"]
  have r0: "resolve_nproc (PyInt (- 1)) = Inl ValueError" by (simp add: resolve_nproc_simps)
  have r1: "reproject_celestial quiet_env unit_overlap same_frame null_slice one_pixel
        identity_wcs identity_wcs (1, 1) (PyInt (- 1)) ''c'' = ([], Inl ValueError)"
    by (rule t[THEN conjunct1, rule_format]) (rule r0)
  have f: "resolve_nproc (PyBool False) = Inr (Some 1)" by (simp add: resolve_nproc_simps)
  have nc: "naxis cube_wcs \<noteq> 2" by (simp add: cube_wcs_def)
  have r2: "reproject_celestial quiet_env unit_overlap same_frame null_slice one_pixel
        cube_wcs identity_wcs (1, 1) (PyBool False) ''c'' = ([EvAstype], Inl NotImplementedError)"
    by (rule t[THEN conjunct2, THEN conjunct2, THEN conjunct1, rule_format])
       (intro conjI f nc)
  have nax: "naxis identity_wcs = 2" by (simp add: identity_wcs_def)
  have m1: "''fortran'' \<noteq> ''legacy''" and m2: "''fortran'' \<noteq> ''c''" by simp_all
  have "reproject_celestial quiet_env unit_overlap same_frame null_slice one_pixel
        identity_wcs identity_wcs (1, 1) (PyBool False) ''fortran''
      = ([EvAstype, EvCornerGrid (rows one_pixel) (cols one_pixel), EvPix2World,
          EvCornerGrid (fst ((1, 1) :: nat \<times> nat)) (snd ((1, 1) :: nat \<times> nat)),
          EvPix2World, EvConvert, EvWorld2Pix, EvContiguous],
         Inl ValueError)"
    by (rule t[THEN conjunct2, THEN conjunct2, THEN conjunct2, rule_format])
       (intro conjI f nax m1 m2)
  then have r3: "snd (reproject_celestial quiet_env unit_overlap same_frame null_slice one_pixel
        identity_wcs identity_wcs (1, 1) (PyBool False) ''fortran'') = Inl ValueError"
    by simp
  from r0 r1 f nc r2 nax m1 m2 r3 show ?thesis by (intro conjI)
qed

text \<open>
  With the method \<^verbatim>\<open>fortran\<close> the value error comes after the corner grids and the
  coordinate transforms; with a projection of three axes the error comes after the
  conversion of the array.
\<close>

theorem unknown_method_counterexample:
  "reproject_celestial quiet_env unit_overlap same_frame null_slice one_pixel
     identity_wcs identity_wcs (1, 1) (PyBool False) ''fortran''
   = ([EvAstype, EvCornerGrid 1 1, EvPix2World, EvCornerGrid 1 1, EvPix2World, EvConvert,
       EvWorld2Pix, EvContiguous],
      Inl ValueError)
   \<and> reproject_celestial quiet_env unit_overlap same_frame null_slice one_pixel
       cube_wcs identity_wcs (1, 1) (PyBool False) ''c''
     = ([EvAstype], Inl NotImplementedError)"
  by (simp add: reproject_celestial_def resolve_nproc_def identity_wcs_def cube_wcs_def
      one_pixel_def mapping_events_def Let_def)

section \<open>Parallel and serial execution give the same result\<close>

text \<open>
  Claim C2, with the kernel of the specification. For every column count \<open>nx \<ge> 0\<close> and
  every number of partitions \<open>n \<ge> 1\<close>, the elementwise sums of the flux sums and of the
  weight sums that the kernel returns for the \<open>n\<close> partitions are the flux sum and the
  weight sum that it returns for the whole range \<open>[0, nx)\<close>. Hence, when the pool is
  created, every fetch returns and no ctrl+c arrives while the pool is closed and joined,
  the parallel implementation returns what the serial implementation returns: the
  quotient of the two sums and the weight sum. For the entry point this gives: with any
  positive integer and with the boolean true (whatever the number of CPUs), a call that
  ends (it does not wait for ever for a worker whose process has died) and does not end
  with \<open>KeyboardInterrupt\<close> returns what the call with the boolean false returns, also
  when the parallel run failed and the call fell back to the serial implementation. The
  sums are exact here; in floating point the two results can differ by the rounding of a
  different order of summation.
\<close>

theorem partition_invariance:
  "(0 \<le> nx \<and> 1 \<le> n \<longrightarrow>
      sum_grids (map (\<lambda>p. fst (resampling_kernel ov (fst p) (snd p) sy ey nx_out ny_out m array))
                   (partitions nx n))
        = fst (resampling_kernel ov 0 nx sy ey nx_out ny_out m array)
    \<and> sum_grids (map (\<lambda>p. snd (resampling_kernel ov (fst p) (snd p) sy ey nx_out ny_out m array))
                   (partitions nx n))
        = snd (resampling_kernel ov 0 nx sy ey nx_out ny_out m array))
   \<and> (0 \<le> nx \<and> 1 \<le> n \<and> pool_create env = None \<and> (\<forall>k. worker_exc env k = None)
        \<and> \<not> finally_interrupt env \<longrightarrow>
        snd (parallel_impl env
               (\<lambda>s e. Inr (resampling_kernel ov s e sy ey nx_out ny_out m array)) (Some n) nx)
          = snd (serial_impl
               (\<lambda>s e. Inr (resampling_kernel ov s e sy ey nx_out ny_out m array)) nx)
      \<and> snd (serial_impl
               (\<lambda>s e. Inr (resampling_kernel ov s e sy ey nx_out ny_out m array)) nx)
          = Inr (grid_div (fst (resampling_kernel ov 0 nx sy ey nx_out ny_out m array))
                          (snd (resampling_kernel ov 0 nx sy ey nx_out ny_out m array)),
                 snd (resampling_kernel ov 0 nx sy ey nx_out ny_out m array)))
   \<and> (0 \<le> nx
        \<and> snd (run_parallel env
                 (\<lambda>s e. Inr (resampling_kernel ov s e sy ey nx_out ny_out m array)) nproc nx)
            \<noteq> Inl KeyboardInterrupt
        \<and> snd (run_parallel env
                 (\<lambda>s e. Inr (resampling_kernel ov s e sy ey nx_out ny_out m array)) nproc nx)
            \<noteq> Inl Blocked \<longrightarrow>
        snd (run_parallel env
               (\<lambda>s e. Inr (resampling_kernel ov s e sy ey nx_out ny_out m array)) nproc nx)
          = snd (serial_impl
               (\<lambda>s e. Inr (resampling_kernel ov s e sy ey nx_out ny_out m array)) nx))
   \<and> (naxis wi = 2 \<and> 0 < k
        \<and> snd (reproject_celestial env ov cv (spec_slice ov) img wi wo shape (PyInt k) ''c'')
            \<noteq> Inl KeyboardInterrupt
        \<and> snd (reproject_celestial env ov cv (spec_slice ov) img wi wo shape (PyInt k) ''c'')
            \<noteq> Inl Blocked \<longrightarrow>
        snd (reproject_celestial env ov cv (spec_slice ov) img wi wo shape (PyInt k) ''c'')
          = snd (reproject_celestial env ov cv (spec_slice ov) img wi wo shape
                   (PyBool False) ''c''))
   \<and> (naxis wi = 2
        \<and> snd (reproject_celestial env ov cv (spec_slice ov) img wi wo shape (PyBool True) ''c'')
            \<noteq> Inl KeyboardInterrupt
        \<and> snd (reproject_celestial env ov cv (spec_slice ov) img wi wo shape (PyBool True) ''c'')
            \<noteq> Inl Blocked \<longrightarrow>
        snd (reproject_celestial env ov cv (spec_slice ov) img wi wo shape (PyBool True) ''c'')
          = snd (reproject_celestial env ov cv (spec_slice ov) img wi wo shape
                   (PyBool False) ''c''))"
proof -
  let ?R = "\<lambda>s e. resampling_kernel ov s e sy ey nx_out ny_out m array"
  let ?K = "\<lambda>s e. Inr (?R s e) :: exn + accumulators"
  let ?B = "bound_kernel (spec_slice ov) cv img wi wo shape"
  let ?run = "\<lambda>p. reproject_celestial env ov cv (spec_slice ov) img wi wo shape p ''c''"
  have c1: "0 \<le> nx \<and> 1 \<le> n \<longrightarrow>
      sum_grids (map (\<lambda>p. fst (?R (fst p) (snd p))) (partitions nx n)) = fst (?R 0 nx)
    \<and> sum_grids (map (\<lambda>p. snd (?R (fst p) (snd p))) (partitions nx n)) = snd (?R 0 nx)"
    using merged_partitions[of nx n ov sy ey nx_out ny_out m array] by blast
  have c2: "0 \<le> nx \<and> 1 \<le> n \<and> pool_create env = None \<and> (\<forall>k. worker_exc env k = None)
        \<and> \<not> finally_interrupt env \<longrightarrow>
        snd (parallel_impl env ?K (Some n) nx) = snd (serial_impl ?K nx)
      \<and> snd (serial_impl ?K nx) = Inr (grid_div (fst (?R 0 nx)) (snd (?R 0 nx)), snd (?R 0 nx))"
  proof (intro impI conjI)
    assume a: "0 \<le> nx \<and> 1 \<le> n \<and> pool_create env = None \<and> (\<forall>k. worker_exc env k = None)
        \<and> \<not> finally_interrupt env"
    then have fe: "first_error (outcomes env ?K nx n) = None"
      unfolding outcomes_def by (intro first_error_quiet) blast
    show "snd (parallel_impl env ?K (Some n) nx) = snd (serial_impl ?K nx)"
      using a fe by (intro parallel_kernel_success) simp_all
    show "snd (serial_impl ?K nx) = Inr (grid_div (fst (?R 0 nx)) (snd (?R 0 nx)), snd (?R 0 nx))"
      by (simp add: serial_impl_def)
  qed
  have c3: "0 \<le> nx \<and> snd (run_parallel env ?K nproc nx) \<noteq> Inl KeyboardInterrupt
        \<and> snd (run_parallel env ?K nproc nx) \<noteq> Inl Blocked \<longrightarrow>
        snd (run_parallel env ?K nproc nx) = snd (serial_impl ?K nx)"
    using run_parallel_kernel[of nx env ov sy ey nx_out ny_out m array nproc] by blast
  have nn: "0 \<le> int (cols img)" by simp
  have ser: "?run (PyBool False)
      = (prelude img shape @ fst (serial_impl ?B (int (cols img))),
         snd (serial_impl ?B (int (cols img))))"
    if "naxis wi = 2"
    using reproject_celestial_serial[of "PyBool False" wi] that by (simp add: resolve_nproc_simps)
  have par: "snd (?run p) = snd (serial_impl ?B (int (cols img)))"
    if n: "naxis wi = 2" and r: "resolve_nproc p = Inr nproc'"
      and g: "nproc' = None \<or> (\<exists>n. nproc' = Some n \<and> 1 < n)"
      and k: "snd (?run p) \<noteq> Inl KeyboardInterrupt"
      and h: "snd (?run p) \<noteq> Inl Blocked" for p nproc'
  proof -
    have e: "?run p = (prelude img shape @ fst (run_parallel env ?B nproc' (int (cols img))),
           snd (run_parallel env ?B nproc' (int (cols img))))"
      using reproject_celestial_parallel[OF r n g] .
    have "snd (run_parallel env ?B nproc' (int (cols img))) \<noteq> Inl KeyboardInterrupt"
      and "snd (run_parallel env ?B nproc' (int (cols img))) \<noteq> Inl Blocked"
      using k h unfolding e by simp_all
    then have "snd (run_parallel env ?B nproc' (int (cols img)))
        = snd (serial_impl ?B (int (cols img)))"
      unfolding bound_spec_kernel by (intro run_parallel_kernel nn)
    then show ?thesis unfolding e by simp
  qed
  have c4: "naxis wi = 2 \<and> 0 < k \<and> snd (?run (PyInt k)) \<noteq> Inl KeyboardInterrupt
        \<and> snd (?run (PyInt k)) \<noteq> Inl Blocked \<longrightarrow>
        snd (?run (PyInt k)) = snd (?run (PyBool False))"
  proof (intro impI)
    assume a: "naxis wi = 2 \<and> 0 < k \<and> snd (?run (PyInt k)) \<noteq> Inl KeyboardInterrupt
        \<and> snd (?run (PyInt k)) \<noteq> Inl Blocked"
    show "snd (?run (PyInt k)) = snd (?run (PyBool False))"
    proof (cases "k = 1")
      case True
      have "?run (PyInt 1)
          = (prelude img shape @ fst (serial_impl ?B (int (cols img))),
             snd (serial_impl ?B (int (cols img))))"
        using reproject_celestial_serial[of "PyInt 1" wi] a by (simp add: resolve_nproc_simps)
      then show ?thesis using True ser a by simp
    next
      case False
      then have "snd (?run (PyInt k)) = snd (serial_impl ?B (int (cols img)))"
        using a by (intro par[of "PyInt k" "Some k"]) (simp_all add: resolve_nproc_simps)
      then show ?thesis using ser a by simp
    qed
  qed
  have c5: "naxis wi = 2 \<and> snd (?run (PyBool True)) \<noteq> Inl KeyboardInterrupt
        \<and> snd (?run (PyBool True)) \<noteq> Inl Blocked \<longrightarrow>
        snd (?run (PyBool True)) = snd (?run (PyBool False))"
  proof (intro impI)
    assume a: "naxis wi = 2 \<and> snd (?run (PyBool True)) \<noteq> Inl KeyboardInterrupt
        \<and> snd (?run (PyBool True)) \<noteq> Inl Blocked"
    then have "snd (?run (PyBool True)) = snd (serial_impl ?B (int (cols img)))"
      by (intro par[of "PyBool True" None]) (simp_all add: resolve_nproc_simps)
    then show "snd (?run (PyBool True)) = snd (?run (PyBool False))"
      using ser a by simp
  qed
  from c1 c2 c3 c4 c5 show ?thesis by (intro conjI)
qed

text \<open>
  The theorem on a source of one row of two pixels, of values 3 and 5, each of which
  covers one half of the single destination pixel, with two processes: the partitions
  are \<open>[0, 1)\<close> and \<open>[1, 2)\<close>, the accumulators of the two workers are \<open>(3, 1)\<close> and
  \<open>(5, 1)\<close>, their sums are \<open>(8, 2)\<close>, which are the accumulators of the kernel over
  \<open>[0, 2)\<close>, and the calls with the integer 2, with the boolean true (on a machine
  with two CPUs) and with the boolean false all return the result 4 with the footprint 2
  (the overlap primitive of the example returns 1 for every pair).
\<close>

theorem partition_invariance_witness:
  "(0 :: int) \<le> 2 \<and> (1 :: int) \<le> 2 \<and> pool_create quiet_env = None
   \<and> (\<forall>k. worker_exc quiet_env k = None) \<and> \<not> finally_interrupt quiet_env
   \<and> partitions 2 2 = [(0, 1), (1, 2)]
   \<and> resampling_kernel unit_overlap 0 1 0 1 1 1 halved_maps [[Fin 3, Fin 5]]
       = ([[Fin 3]], [[Fin 1]])
   \<and> resampling_kernel unit_overlap 1 2 0 1 1 1 halved_maps [[Fin 3, Fin 5]]
       = ([[Fin 5]], [[Fin 1]])
   \<and> sum_grids [[[Fin 3]], [[Fin 5]]] = [[Fin 8]]
   \<and> sum_grids [[[Fin 1]], [[Fin 1]]] = [[Fin 2]]
   \<and> resampling_kernel unit_overlap 0 2 0 1 1 1 halved_maps [[Fin 3, Fin 5]]
       = ([[Fin 8]], [[Fin 2]])
   \<and> snd (parallel_impl quiet_env
            (\<lambda>s e. Inr (resampling_kernel unit_overlap s e 0 1 1 1 halved_maps [[Fin 3, Fin 5]]))
            (Some 2) 2)
       = Inr ([[Fin 4]], [[Fin 2]])
   \<and> naxis identity_wcs = 2 \<and> (0 :: int) < 2
   \<and> snd (reproject_celestial quiet_env unit_overlap same_frame (spec_slice unit_overlap)
            two_pixels identity_wcs halved_wcs (1, 1) (PyInt 2) ''c'')
       = Inr ([[Fin 4]], [[Fin 2]])
   \<and> snd (reproject_celestial quiet_env unit_overlap same_frame (spec_slice unit_overlap)
            two_pixels identity_wcs halved_wcs (1, 1) (PyBool False) ''c'')
       = Inr ([[Fin 4]], [[Fin 2]])
   \<and> snd (reproject_celestial quiet_env unit_overlap same_frame (spec_slice unit_overlap)
            two_pixels identity_wcs halved_wcs (1, 1) (PyBool True) ''c'')
       = Inr ([[Fin 4]], [[Fin 2]])"
proof -
  let ?R = "\<lambda>s e. resampling_kernel unit_overlap s e 0 1 1 1 halved_maps [[Fin 3, Fin 5]]"
  let ?K = "\<lambda>s e. Inr (?R s e) :: exn + accumulators"
  let ?run = "\<lambda>p. reproject_celestial quiet_env unit_overlap same_frame (spec_slice unit_overlap)
      two_pixels identity_wcs halved_wcs (1, 1) p ''c''"
  note t = partition_invariance[where nx=2 and n=2 and ov=unit_overlap and sy=0 and ey=1
      and nx_out=1 and ny_out=1 and m=halved_maps and array="[[Fin 3, Fin 5]]" and env=quiet_env
      and wi=identity_wcs and wo=halved_wcs and cv=same_frame and img=two_pixels
      and shape="(1, 1)" and k=2]
  have a: "(0 :: int) \<le> 2" and b: "(1 :: int) \<le> 2" and c: "(0 :: int) < 2" by simp_all
  have pc: "pool_create quiet_env = None" by (simp add: quiet_env_def)
  have we: "\<forall>k. worker_exc quiet_env k = None" by (simp add: quiet_env_def)
  have fi: "\<not> finally_interrupt quiet_env" by (simp add: quiet_env_def)
  have nax: "naxis identity_wcs = 2" by (simp add: identity_wcs_def)
  have cols: "int (cols two_pixels) = 2" by (simp add: two_pixels_def)
  note t1 = t[THEN conjunct1, rule_format, OF conjI[OF a b], unfolded partitions_2_2]
  have s1: "sum_grids [[[Fin 3]], [[Fin 5]]] = [[Fin 8]]"
    using t1[THEN conjunct1] unfolding list.map fst_conv snd_conv kernel_halved .
  have s2: "sum_grids [[[Fin 1]], [[Fin 1]]] = [[Fin 2]]"
    using t1[THEN conjunct2] unfolding list.map fst_conv snd_conv kernel_halved .
  note t2 = t[THEN conjunct2, THEN conjunct1, rule_format,
      OF conjI[OF a conjI[OF b conjI[OF pc conjI[OF we fi]]]]]
  note t3 = t2[unfolded kernel_halved(3)]
  have s: "snd (serial_impl ?K 2) = Inr ([[Fin 4]], [[Fin 2]])"
    using t3[THEN conjunct2] by (simp add: grid_div_def fdiv_def)
  have p: "snd (parallel_impl quiet_env ?K (Some 2) 2) = Inr ([[Fin 4]], [[Fin 2]])"
    using t3[THEN conjunct1] s by simp
  have rs: "resolve_nproc (PyInt 2) = Inr (Some 2)" by (simp add: resolve_nproc_simps)
  have gt: "Some 2 = None \<or> (\<exists>n. Some (2 :: int) = Some n \<and> 1 < n)" by simp
  have e: "?run (PyInt 2)
      = (prelude two_pixels (1, 1) @ fst (run_parallel quiet_env ?K (Some 2) 2),
         snd (run_parallel quiet_env ?K (Some 2) 2))"
    using reproject_celestial_parallel[OF rs nax gt, of quiet_env unit_overlap same_frame
        "spec_slice unit_overlap" two_pixels halved_wcs "(1, 1)"]
    unfolding bound_kernel_halved cols .
  have rp: "run_parallel quiet_env ?K (Some 2) 2 = parallel_impl quiet_env ?K (Some 2) 2"
    using p by (rule run_parallel_success)
  have r0: "snd (?run (PyInt 2)) = Inr ([[Fin 4]], [[Fin 2]])"
    unfolding e rp using p by simp
  then have nk: "snd (?run (PyInt 2)) \<noteq> Inl KeyboardInterrupt"
    and nb: "snd (?run (PyInt 2)) \<noteq> Inl Blocked" by simp_all
  have eq: "snd (?run (PyInt 2)) = snd (?run (PyBool False))"
    by (rule t[THEN conjunct2, THEN conjunct2, THEN conjunct2, THEN conjunct1, rule_format])
       (intro conjI nax c nk nb)
  have r1: "snd (?run (PyBool False)) = Inr ([[Fin 4]], [[Fin 2]])"
    using eq r0 by simp
  have rt: "resolve_nproc (PyBool True) = Inr None" by (simp add: resolve_nproc_simps)
  have gn: "None = None \<or> (\<exists>n. (None :: int option) = Some n \<and> 1 < n)" by simp
  have e': "?run (PyBool True)
      = (prelude two_pixels (1, 1) @ fst (run_parallel quiet_env ?K None 2),
         snd (run_parallel quiet_env ?K None 2))"
    using reproject_celestial_parallel[OF rt nax gn, of quiet_env unit_overlap same_frame
        "spec_slice unit_overlap" two_pixels halved_wcs "(1, 1)"]
    unfolding bound_kernel_halved cols .
  have pn: "snd (parallel_impl quiet_env ?K None 2) = Inr ([[Fin 4]], [[Fin 2]])"
    using p by (simp add: parallel_impl_auto quiet_env_def)
  have rp': "run_parallel quiet_env ?K None 2 = parallel_impl quiet_env ?K None 2"
    using pn by (rule run_parallel_success)
  have tk: "snd (?run (PyBool True)) \<noteq> Inl KeyboardInterrupt"
    and tb: "snd (?run (PyBool True)) \<noteq> Inl Blocked"
    unfolding e' rp' using pn by simp_all
  have eq': "snd (?run (PyBool True)) = snd (?run (PyBool False))"
    by (rule t[THEN conjunct2, THEN conjunct2, THEN conjunct2, THEN conjunct2, rule_format])
       (intro conjI nax tk tb)
  have r2: "snd (?run (PyBool True)) = Inr ([[Fin 4]], [[Fin 2]])"
    using eq' r1 by simp
  from a b pc we fi partitions_2_2 kernel_halved(1) kernel_halved(2) s1 s2 kernel_halved(3)
    p nax c r0 r1 r2
  show ?thesis by (intro conjI)
qed

end

